(* ===== verification/Prelude.thy ===== *)
theory Prelude
  imports Main "HOL-Library.Word"
begin

text \<open>
  Types, results and generic facts the components share.

  Machine integers keep their width: \<open>u8\<close>, \<open>u32\<close> and \<open>u64\<close> are the unsigned types of
  the code.  A C array or buffer is a list whose length is the array's; an access outside
  it is written out as \<open>Fault\<close>.  \<open>run\<close> is the result of a piece of code that may abort
  the process or touch memory outside any object.
\<close>

unbundle bit_operations_syntax

type_synonym u8 = "8 word"
type_synonym u32 = "32 word"
type_synonym u64 = "64 word"

text \<open>
  \<open>Ret x\<close>: the code returns \<open>x\<close>; \<open>Abort\<close>: it calls \<open>abort()\<close> (or a failed \<open>assert\<close>
  or \<open>LOG(FATAL)\<close> ends the process); \<open>Fault\<close>: it reads or writes outside an object, or
  uses one that is freed, which the language leaves undefined.
\<close>

datatype 'a run = Ret 'a | Abort | Fault

fun run_bind :: "'a run \<Rightarrow> ('a \<Rightarrow> 'b run) \<Rightarrow> 'b run" where
  "run_bind (Ret x) f = f x"
| "run_bind Abort f = Abort"
| "run_bind Fault f = Fault"

lemma run_bind_Ret_iff: "run_bind m f = Ret y \<longleftrightarrow> (\<exists>x. m = Ret x \<and> f x = Ret y)"
  by (cases m) auto

lemma run_bind_Ret_right [simp]: "run_bind r Ret = r"
  by (cases r) simp_all

lemma run_bind_assoc: "run_bind (run_bind m f) g = run_bind m (\<lambda>x. run_bind (f x) g)"
  by (cases m) auto

named_theorems word_bytes "splitting a word into bytes and building it from bytes"
named_theorems layout "offsets and lengths of packed structures"

text \<open>The bytes of a string literal.\<close>

definition str :: "string \<Rightarrow> u8 list" where "str s = map of_char s"

lemma length_str [simp]: "length (str s) = length s"
  by (simp add: str_def)

text \<open>Lists.\<close>

lemma take_eq_nth: "take n xs = take n ys \<Longrightarrow> i < n \<Longrightarrow> xs ! i = ys ! i"
  by (metis nth_take)

lemma take_Suc_eqI:
  assumes "take n xs = take n ys" "xs ! n = ys ! n" "n < length xs" "n < length ys"
  shows "take (Suc n) xs = take (Suc n) ys"
  using assms by (simp add: take_Suc_conv_app_nth)

lemma take_list_update_ge: "n \<le> i \<Longrightarrow> take n (xs[i := v]) = take n xs"
  by (simp add: take_update_cancel)

text \<open>Bytes of a 32-bit word, most significant first, and the word of four bytes.\<close>

definition byte3 :: "u32 \<Rightarrow> u8" where "byte3 w = ucast (drop_bit 24 w)"
definition byte2 :: "u32 \<Rightarrow> u8" where "byte2 w = ucast (drop_bit 16 w)"
definition byte1 :: "u32 \<Rightarrow> u8" where "byte1 w = ucast (drop_bit 8 w)"
definition byte0 :: "u32 \<Rightarrow> u8" where "byte0 w = ucast w"

definition word4 :: "u8 \<Rightarrow> u8 \<Rightarrow> u8 \<Rightarrow> u8 \<Rightarrow> u32" where
  "word4 a b c d = push_bit 24 (ucast a) XOR push_bit 16 (ucast b) XOR push_bit 8 (ucast c) XOR ucast d"

lemma bit_bytes:
  "bit (byte3 w) n = (n < 8 \<and> bit w (24 + n))" "bit (byte2 w) n = (n < 8 \<and> bit w (16 + n))"
  "bit (byte1 w) n = (n < 8 \<and> bit w (8 + n))" "bit (byte0 w) n = (n < 8 \<and> bit w n)"
  by (simp_all add: byte3_def byte2_def byte1_def byte0_def bit_ucast_iff bit_drop_bit_eq)

lemma bit_u8_ge: "8 \<le> n \<Longrightarrow> \<not> bit (a :: u8) n"
  using bit_imp_le_length by fastforce

lemma bit_word4:
  "bit (word4 a b c d) n =
     (if n < 8 then bit d n else if n < 16 then bit c (n - 8)
      else if n < 24 then bit b (n - 16) else n < 32 \<and> bit a (n - 24))"
  by (auto simp add: word4_def bit_xor_iff bit_push_bit_iff bit_ucast_iff bit_u8_ge)

lemma bytes_word4 [word_bytes]:
  "byte3 (word4 a b c d) = a" "byte2 (word4 a b c d) = b"
  "byte1 (word4 a b c d) = c" "byte0 (word4 a b c d) = d"
  by (rule bit_word_eqI, simp add: bit_bytes bit_word4)+

lemma word4_bytes [word_bytes]: "word4 (byte3 w) (byte2 w) (byte1 w) (byte0 w) = w"
  by (rule bit_word_eqI) (auto simp add: bit_bytes bit_word4)

lemma bytes_xor [word_bytes]:
  "byte3 (v XOR w) = byte3 v XOR byte3 w" "byte2 (v XOR w) = byte2 v XOR byte2 w"
  "byte1 (v XOR w) = byte1 v XOR byte1 w" "byte0 (v XOR w) = byte0 v XOR byte0 w"
  by (rule bit_word_eqI, auto simp: bit_bytes bit_xor_iff)+

lemma word4_xor [word_bytes]:
  "word4 a b c d XOR word4 a' b' c' d' = word4 (a XOR a') (b XOR b') (c XOR c') (d XOR d')"
  by (rule bit_word_eqI) (simp add: bit_word4 bit_xor_iff)

lemma and_0xff: "(w :: u32) AND 0xff = take_bit 8 w"
  by (simp add: take_bit_eq_mask mask_eq_exp_minus_1)

lemma word4_or:
  "push_bit 24 (ucast a) OR push_bit 16 (ucast b) OR push_bit 8 (ucast c) OR ucast d = word4 a b c d"
  by (rule bit_word_eqI)
    (auto simp: bit_word4 bit_or_iff bit_push_bit_iff bit_ucast_iff bit_u8_ge)

lemma index_bytes [word_bytes]:
  "unat (drop_bit 24 w) = unat (byte3 w)"
  "unat (drop_bit 16 w AND 0xff) = unat (byte2 w)"
  "unat (drop_bit 8 w AND 0xff) = unat (byte1 w)"
  "unat (w AND 0xff) = unat (byte0 w)"
  by (simp_all add: byte3_def byte2_def byte1_def byte0_def and_0xff unsigned_ucast_eq
      unsigned_take_bit_eq unsigned_drop_bit_eq take_bit_drop_bit)

lemma byte0_shift [word_bytes]:
  "byte0 (drop_bit 24 w) = byte3 w" "byte0 (drop_bit 16 w) = byte2 w" "byte0 (drop_bit 8 w) = byte1 w"
  by (simp_all add: byte3_def byte2_def byte1_def byte0_def)

lemma bytes_and [word_bytes]:
  "byte3 (v AND w) = byte3 v AND byte3 w" "byte2 (v AND w) = byte2 v AND byte2 w"
  "byte1 (v AND w) = byte1 v AND byte1 w" "byte0 (v AND w) = byte0 v AND byte0 w"
  by (rule bit_word_eqI, auto simp: bit_bytes bit_and_iff)+

lemma word4_xor_left [word_bytes]:
  "word4 a b c d XOR (word4 a' b' c' d' XOR k) =
     word4 (a XOR a') (b XOR b') (c XOR c') (d XOR d') XOR k"
  by (simp add: word4_xor flip: xor.assoc)

lemma word_eq_bytes:
  "v = w \<longleftrightarrow> byte3 v = byte3 w \<and> byte2 v = byte2 w \<and> byte1 v = byte1 w \<and> byte0 v = byte0 w"
  by (metis word4_bytes)

lemma word4_inject: "word4 a b c d = word4 a' b' c' d' \<longleftrightarrow> a = a' \<and> b = b' \<and> c = c' \<and> d = d'"
  by (metis bytes_word4)

lemma mask_word4 [word_bytes]:
  "word4 a b c d AND 0xff000000 = word4 a 0 0 0" "word4 a b c d AND 0x00ff0000 = word4 0 b 0 0"
  "word4 a b c d AND 0x0000ff00 = word4 0 0 c 0" "word4 a b c d AND 0x000000ff = word4 0 0 0 d"
proof -
  have ff: "(0xff :: u8) = - 1" by simp
  have m: "(x :: u8) AND 0xff = x" for x unfolding ff by (rule and.right_neutral)
  have z: "(65280 :: u8) = 0" "(16711680 :: u8) = 0" "(4278190080 :: u8) = 0" by simp_all
  show "word4 a b c d AND 0xff000000 = word4 a 0 0 0" "word4 a b c d AND 0x00ff0000 = word4 0 b 0 0"
    "word4 a b c d AND 0x0000ff00 = word4 0 0 c 0" "word4 a b c d AND 0x000000ff = word4 0 0 0 d"
    unfolding word_eq_bytes [of "_ AND _"] bytes_and bytes_word4
    by (simp_all add: byte3_def byte2_def byte1_def byte0_def m z)
qed

lemma unat_byte_bound: "unat (x :: u8) < 256"
  using unsigned_less [of x, where 'a = nat] by simp

lemma unat_u32_bound: "unat (x :: u32) < 2 ^ 32"
  using unsigned_less [of x, where 'a = nat] by simp

end
