(* ===== verification/Aes_Core.thy ===== *)
theory Aes_Core
  imports Aes_Tables
begin

text \<open>
  The AES block cipher of \<^verbatim>\<open>src/stputil/security/aes_core.c\<close>, the branch that is compiled
  (\<open>AES_ASM\<close> and \<open>FULL_UNROLL\<close> are not defined, \<^verbatim>\<open>aes_locl.h\<close>): key schedules, and the
  encryption and decryption of one block with the T-tables.  A pointer argument is an option
  (\<open>None\<close> is \<open>NULL\<close>), a user key shorter than the code reads is a \<open>Fault\<close>, the moving pointer \<open>rk\<close> into \<open>rd_key\<close> is a base index \<open>b\<close>.
\<close>

section \<open>Data\<close>

record AES_KEY =
  rd_key :: "u32 list"
  rounds :: nat

text \<open>\<open>rd_key\<close> is an array of \<open>4 * (AES_MAXNR + 1)\<close> words.\<close>

definition AES_MAXNR :: nat where "AES_MAXNR = 14"
definition AES_BLOCK_SIZE :: nat where "AES_BLOCK_SIZE = 16"

definition GETU32 :: "u8 list \<Rightarrow> nat \<Rightarrow> u32" where
  "GETU32 pt i =
     push_bit 24 (ucast (pt ! i)) XOR push_bit 16 (ucast (pt ! (i + 1))) XOR
     push_bit 8 (ucast (pt ! (i + 2))) XOR ucast (pt ! (i + 3))"

definition PUTU32 :: "u32 \<Rightarrow> u8 list" where
  "PUTU32 st =
     [ucast (drop_bit 24 st), ucast (drop_bit 16 st), ucast (drop_bit 8 st), ucast st]"

section \<open>Key schedules\<close>

text \<open>
  The word substituted and rotated at the start of a step (\<open>sub_rot\<close>), and the one only
  substituted, which the 256-bit schedule uses in its middle.
\<close>

definition sub_rot :: "u32 \<Rightarrow> u32" where
  "sub_rot temp =
     (Te2 ! unat (drop_bit 16 temp AND 0xff) AND 0xff000000) XOR
     (Te3 ! unat (drop_bit 8 temp AND 0xff) AND 0x00ff0000) XOR
     (Te0 ! unat (temp AND 0xff) AND 0x0000ff00) XOR
     (Te1 ! unat (drop_bit 24 temp) AND 0x000000ff)"

definition sub_word :: "u32 \<Rightarrow> u32" where
  "sub_word temp =
     (Te2 ! unat (drop_bit 24 temp) AND 0xff000000) XOR
     (Te3 ! unat (drop_bit 16 temp AND 0xff) AND 0x00ff0000) XOR
     (Te0 ! unat (drop_bit 8 temp AND 0xff) AND 0x0000ff00) XOR
     (Te1 ! unat (temp AND 0xff) AND 0x000000ff)"

text \<open>
  One assignment \<open>rk[i] = v\<close> with \<open>rk\<close> at base \<open>b\<close>, a chained one \<open>rk[i] = rk[j] ^ rk[i - 1]\<close>, and
  the four assignments every step makes: \<open>rk[i] = rk[j] ^ v\<close> and three chained ones after it.
\<close>

definition set_rk :: "nat \<Rightarrow> nat \<Rightarrow> u32 \<Rightarrow> u32 list \<Rightarrow> u32 list" where
  "set_rk b i v rd = rd[b + i := v]"

definition chain_rk :: "nat \<Rightarrow> nat \<Rightarrow> nat \<Rightarrow> u32 list \<Rightarrow> u32 list" where
  "chain_rk b i j rd = set_rk b i (rd ! (b + j) XOR rd ! (b + i - 1)) rd"

definition four_rk :: "nat \<Rightarrow> nat \<Rightarrow> nat \<Rightarrow> u32 \<Rightarrow> u32 list \<Rightarrow> u32 list" where
  "four_rk b i j v rd =
     (let rd = set_rk b i (rd ! (b + j) XOR v) rd;
          rd = chain_rk b (i + 1) (j + 1) rd;
          rd = chain_rk b (i + 2) (j + 2) rd
      in chain_rk b (i + 3) (j + 3) rd)"

function expand128 :: "nat \<Rightarrow> nat \<Rightarrow> u32 list \<Rightarrow> u32 list" where
  "expand128 i b rd =
     (let temp = rd ! (b + 3);
          rd = four_rk b 4 0 (sub_rot temp XOR rcon ! i) rd
      in if i + 1 \<ge> 10 then rd else expand128 (i + 1) (b + 4) rd)"
  by pat_completeness auto
termination by (relation "measure (\<lambda>(i, b, rd). 10 - i)") auto

function expand192 :: "nat \<Rightarrow> nat \<Rightarrow> u32 list \<Rightarrow> u32 list" where
  "expand192 i b rd =
     (let temp = rd ! (b + 5);
          rd = four_rk b 6 0 (sub_rot temp XOR rcon ! i) rd
      in if i + 1 \<ge> 8 then rd
         else expand192 (i + 1) (b + 6) (chain_rk b 11 5 (chain_rk b 10 4 rd)))"
  by pat_completeness auto
termination by (relation "measure (\<lambda>(i, b, rd). 8 - i)") auto

function expand256 :: "nat \<Rightarrow> nat \<Rightarrow> u32 list \<Rightarrow> u32 list" where
  "expand256 i b rd =
     (let temp = rd ! (b + 7);
          rd = four_rk b 8 0 (sub_rot temp XOR rcon ! i) rd
      in if i + 1 \<ge> 7 then rd
         else
           let temp = rd ! (b + 11)
           in expand256 (i + 1) (b + 8) (four_rk b 12 4 (sub_word temp) rd))"
  by pat_completeness auto
termination by (relation "measure (\<lambda>(i, b, rd). 7 - i)") auto

declare expand128.simps [simp del] expand192.simps [simp del] expand256.simps [simp del]

text \<open>The words of the user key are stored first, \<open>n\<close> of them.\<close>

fun load_key :: "u8 list \<Rightarrow> nat \<Rightarrow> u32 list \<Rightarrow> u32 list" where
  "load_key userKey 0 rd = rd"
| "load_key userKey (Suc n) rd = (load_key userKey n rd)[n := GETU32 userKey (4 * n)]"

definition AES_set_encrypt_key ::
    "u8 list option \<Rightarrow> int \<Rightarrow> AES_KEY option \<Rightarrow> (int \<times> AES_KEY option) run" where
  "AES_set_encrypt_key userKey bits key =
     (case (userKey, key) of
        (Some uk, Some k) \<Rightarrow>
          if bits \<noteq> 128 \<and> bits \<noteq> 192 \<and> bits \<noteq> 256 then Ret (-2, Some k)
          else if int (length uk) * 8 < bits then Fault
          else if bits = 128 then
            Ret (0, Some (k\<lparr>rounds := 10, rd_key := expand128 0 0 (load_key uk 4 (rd_key k))\<rparr>))
          else if bits = 192 then
            Ret (0, Some (k\<lparr>rounds := 12, rd_key := expand192 0 0 (load_key uk 6 (rd_key k))\<rparr>))
          else
            Ret (0, Some (k\<lparr>rounds := 14, rd_key := expand256 0 0 (load_key uk 8 (rd_key k))\<rparr>))
      | _ \<Rightarrow> Ret (-1, key))"

text \<open>Swapping the four words at \<open>i\<close> with the four at \<open>j\<close>.\<close>

definition swap_word :: "nat \<Rightarrow> nat \<Rightarrow> u32 list \<Rightarrow> u32 list" where
  "swap_word i j rd = (let temp = rd ! i in (rd[i := rd ! j])[j := temp])"

function invert_order :: "nat \<Rightarrow> nat \<Rightarrow> u32 list \<Rightarrow> u32 list" where
  "invert_order i j rd =
     (if i < j then
        invert_order (i + 4) (j - 4)
          (swap_word (i + 3) (j + 3) (swap_word (i + 2) (j + 2)
             (swap_word (i + 1) (j + 1) (swap_word i j rd))))
      else rd)"
  by pat_completeness auto
termination by (relation "measure (\<lambda>(i, j, rd). j - i)") auto

declare invert_order.simps [simp del]

text \<open>The inverse MixColumn transform of one word, as the tables compute it.\<close>

definition inv_mix :: "u32 \<Rightarrow> u32" where
  "inv_mix w =
     Td0 ! unat (Te1 ! unat (drop_bit 24 w) AND 0xff) XOR
     Td1 ! unat (Te1 ! unat (drop_bit 16 w AND 0xff) AND 0xff) XOR
     Td2 ! unat (Te1 ! unat (drop_bit 8 w AND 0xff) AND 0xff) XOR
     Td3 ! unat (Te1 ! unat (w AND 0xff) AND 0xff)"

definition mix_block :: "nat \<Rightarrow> u32 list \<Rightarrow> u32 list" where
  "mix_block b rd =
     (let rd = rd[b := inv_mix (rd ! b)];
          rd = rd[b + 1 := inv_mix (rd ! (b + 1))];
          rd = rd[b + 2 := inv_mix (rd ! (b + 2))]
      in rd[b + 3 := inv_mix (rd ! (b + 3))])"

function inv_mix_keys :: "nat \<Rightarrow> nat \<Rightarrow> u32 list \<Rightarrow> u32 list" where
  "inv_mix_keys n i rd = (if i < n then inv_mix_keys n (i + 1) (mix_block (4 * i) rd) else rd)"
  by pat_completeness auto
termination by (relation "measure (\<lambda>(n, i, rd). n - i)") auto

declare inv_mix_keys.simps [simp del]

definition AES_set_decrypt_key ::
    "u8 list option \<Rightarrow> int \<Rightarrow> AES_KEY option \<Rightarrow> (int \<times> AES_KEY option) run" where
  "AES_set_decrypt_key userKey bits key =
     run_bind (AES_set_encrypt_key userKey bits key)
       (\<lambda>(status, key').
          case key' of
            None \<Rightarrow> Ret (status, None)
          | Some k \<Rightarrow>
              if status < 0 then Ret (status, Some k)
              else
                Ret (0, Some (k\<lparr>rd_key :=
                  inv_mix_keys (rounds k) 1 (invert_order 0 (4 * rounds k) (rd_key k))\<rparr>)))"

section \<open>One block\<close>

type_synonym aes_state = "u32 \<times> u32 \<times> u32 \<times> u32"

text \<open>\<open>s_i = GETU32(in + 4 i) ^ rk[i]\<close>, and the four \<open>PUTU32\<close> at the end.\<close>

definition load_block :: "u8 list \<Rightarrow> u32 list \<Rightarrow> aes_state" where
  "load_block blk rk =
     (GETU32 blk 0 XOR rk ! 0, GETU32 blk 4 XOR rk ! 1,
      GETU32 blk 8 XOR rk ! 2, GETU32 blk 12 XOR rk ! 3)"

definition store_block :: "aes_state \<Rightarrow> u8 list" where
  "store_block s =
     (case s of (s0, s1, s2, s3) \<Rightarrow> PUTU32 s0 @ PUTU32 s1 @ PUTU32 s2 @ PUTU32 s3)"

definition enc_col :: "u32 \<Rightarrow> u32 \<Rightarrow> u32 \<Rightarrow> u32 \<Rightarrow> u32 \<Rightarrow> u32" where
  "enc_col a b c d k =
     Te0 ! unat (drop_bit 24 a) XOR Te1 ! unat (drop_bit 16 b AND 0xff) XOR
     Te2 ! unat (drop_bit 8 c AND 0xff) XOR Te3 ! unat (d AND 0xff) XOR k"

definition enc_round :: "u32 list \<Rightarrow> nat \<Rightarrow> aes_state \<Rightarrow> aes_state" where
  "enc_round rk b s =
     (case s of (s0, s1, s2, s3) \<Rightarrow>
        (enc_col s0 s1 s2 s3 (rk ! b), enc_col s1 s2 s3 s0 (rk ! (b + 1)),
         enc_col s2 s3 s0 s1 (rk ! (b + 2)), enc_col s3 s0 s1 s2 (rk ! (b + 3))))"

definition enc_last_col :: "u32 \<Rightarrow> u32 \<Rightarrow> u32 \<Rightarrow> u32 \<Rightarrow> u32 \<Rightarrow> u32" where
  "enc_last_col a b c d k =
     (Te2 ! unat (drop_bit 24 a) AND 0xff000000) XOR
     (Te3 ! unat (drop_bit 16 b AND 0xff) AND 0x00ff0000) XOR
     (Te0 ! unat (drop_bit 8 c AND 0xff) AND 0x0000ff00) XOR
     (Te1 ! unat (d AND 0xff) AND 0x000000ff) XOR k"

definition enc_last :: "u32 list \<Rightarrow> nat \<Rightarrow> aes_state \<Rightarrow> aes_state" where
  "enc_last rk b t =
     (case t of (t0, t1, t2, t3) \<Rightarrow>
        (enc_last_col t0 t1 t2 t3 (rk ! b), enc_last_col t1 t2 t3 t0 (rk ! (b + 1)),
         enc_last_col t2 t3 t0 t1 (rk ! (b + 2)), enc_last_col t3 t0 t1 t2 (rk ! (b + 3))))"

text \<open>
  The loop \<open>for (;;)\<close> makes two rounds per turn and leaves after the first half of the turn
  on which \<open>--r == 0\<close>.  A counter of 0 at the start would run past the key, so it is a
  \<open>Fault\<close>; so is reading a block shorter than 16 bytes.
\<close>

fun enc_loop :: "u32 list \<Rightarrow> nat \<Rightarrow> nat \<Rightarrow> aes_state \<Rightarrow> (aes_state \<times> nat) run" where
  "enc_loop rk b 0 s = Fault"
| "enc_loop rk b (Suc r) s =
     (let t = enc_round rk (b + 4) s
      in if r = 0 then Ret (t, b + 8) else enc_loop rk (b + 8) r (enc_round rk (b + 8) t))"

definition AES_encrypt :: "u8 list \<Rightarrow> AES_KEY \<Rightarrow> u8 list run" where
  "AES_encrypt blk key =
     (if length blk < AES_BLOCK_SIZE then Fault
      else
        run_bind (enc_loop (rd_key key) 0 (rounds key div 2) (load_block blk (rd_key key)))
          (\<lambda>(t, b). Ret (store_block (enc_last (rd_key key) b t))))"

definition dec_col :: "u32 \<Rightarrow> u32 \<Rightarrow> u32 \<Rightarrow> u32 \<Rightarrow> u32 \<Rightarrow> u32" where
  "dec_col a b c d k =
     Td0 ! unat (drop_bit 24 a) XOR Td1 ! unat (drop_bit 16 b AND 0xff) XOR
     Td2 ! unat (drop_bit 8 c AND 0xff) XOR Td3 ! unat (d AND 0xff) XOR k"

definition dec_round :: "u32 list \<Rightarrow> nat \<Rightarrow> aes_state \<Rightarrow> aes_state" where
  "dec_round rk b s =
     (case s of (s0, s1, s2, s3) \<Rightarrow>
        (dec_col s0 s3 s2 s1 (rk ! b), dec_col s1 s0 s3 s2 (rk ! (b + 1)),
         dec_col s2 s1 s0 s3 (rk ! (b + 2)), dec_col s3 s2 s1 s0 (rk ! (b + 3))))"

definition dec_last_col :: "u32 \<Rightarrow> u32 \<Rightarrow> u32 \<Rightarrow> u32 \<Rightarrow> u32 \<Rightarrow> u32" where
  "dec_last_col a b c d k =
     push_bit 24 (ucast (Td4 ! unat (drop_bit 24 a))) XOR
     push_bit 16 (ucast (Td4 ! unat (drop_bit 16 b AND 0xff))) XOR
     push_bit 8 (ucast (Td4 ! unat (drop_bit 8 c AND 0xff))) XOR
     ucast (Td4 ! unat (d AND 0xff)) XOR k"

definition dec_last :: "u32 list \<Rightarrow> nat \<Rightarrow> aes_state \<Rightarrow> aes_state" where
  "dec_last rk b t =
     (case t of (t0, t1, t2, t3) \<Rightarrow>
        (dec_last_col t0 t3 t2 t1 (rk ! b), dec_last_col t1 t0 t3 t2 (rk ! (b + 1)),
         dec_last_col t2 t1 t0 t3 (rk ! (b + 2)), dec_last_col t3 t2 t1 t0 (rk ! (b + 3))))"

fun dec_loop :: "u32 list \<Rightarrow> nat \<Rightarrow> nat \<Rightarrow> aes_state \<Rightarrow> (aes_state \<times> nat) run" where
  "dec_loop rk b 0 s = Fault"
| "dec_loop rk b (Suc r) s =
     (let t = dec_round rk (b + 4) s
      in if r = 0 then Ret (t, b + 8) else dec_loop rk (b + 8) r (dec_round rk (b + 8) t))"

definition AES_decrypt :: "u8 list \<Rightarrow> AES_KEY \<Rightarrow> u8 list run" where
  "AES_decrypt blk key =
     (if length blk < AES_BLOCK_SIZE then Fault
      else
        run_bind (dec_loop (rd_key key) 0 (rounds key div 2) (load_block blk (rd_key key)))
          (\<lambda>(t, b). Ret (store_block (dec_last (rd_key key) b t))))"

end
