(* ===== verification/Aes_Sbox.thy ===== *)
theory Aes_Sbox
  imports Aes_Core
begin

text \<open>
  What the tables hold: the comment at the head of \<^verbatim>\<open>aes_core.c\<close> says
  \<open>Te0[x] = S[x].[02, 01, 01, 03]\<close> and so on, products in \<open>GF(2^8)\<close>.  Each table is
  checked entry by entry against that description, and \<open>Td4\<close> against \<open>S\<close>; everything
  else about AES is then proved from the description, by linear algebra over XOR.
\<close>

section \<open>Multiplication by the constants of MixColumns\<close>

definition xtime :: "u8 \<Rightarrow> u8" where
  "xtime x = (x + x) XOR (if bit x 7 then 0x1b else 0)"

definition mul3 :: "u8 \<Rightarrow> u8" where "mul3 x = xtime x XOR x"
definition mul9 :: "u8 \<Rightarrow> u8" where "mul9 x = xtime (xtime (xtime x)) XOR x"
definition mulb :: "u8 \<Rightarrow> u8" where "mulb x = xtime (xtime (xtime x)) XOR xtime x XOR x"
definition muld :: "u8 \<Rightarrow> u8" where "muld x = xtime (xtime (xtime x)) XOR xtime (xtime x) XOR x"
definition mule :: "u8 \<Rightarrow> u8" where
  "mule x = xtime (xtime (xtime x)) XOR xtime (xtime x) XOR xtime x"

lemmas mul_defs = mul3_def mul9_def mulb_def muld_def mule_def

lemma double_push: "(x :: u8) + x = push_bit 1 x"
  by (simp add: push_bit_eq_mult)

lemma bit_0x1b: "bit (0x1b :: u8) n \<longleftrightarrow> n = 0 \<or> n = 1 \<or> n = 3 \<or> n = 4"
proof (cases "n < 8")
  case True
  then have "n \<in> {0, 1, 2, 3, 4, 5, 6, 7}" by auto
  then show ?thesis by (auto simp: bit_numeral_rec)
next
  case False
  then show ?thesis using bit_u8_ge [of n "0x1b"] by auto
qed

lemma xtime_xor: "xtime (x XOR y) = xtime x XOR xtime y"
  by (rule bit_word_eqI)
    (auto simp: xtime_def double_push bit_xor_iff bit_push_bit_iff)

section \<open>The tables\<close>

definition sbox :: "u8 \<Rightarrow> u8" where "sbox x = byte0 (Te1 ! unat x)"
definition inv_sbox :: "u8 \<Rightarrow> u8" where "inv_sbox x = Td4 ! unat x"

lemmas table_eval =
  xtime_def mul_defs word4_def byte0_def

lemma Te0_table: "Te0 = map (\<lambda>s. word4 (xtime s) s s (mul3 s)) (map byte0 Te1)"
  unfolding Te0_def Te1_def by (simp add: table_eval)

lemma Te1_table: "Te1 = map (\<lambda>s. word4 (mul3 s) (xtime s) s s) (map byte0 Te1)"
  unfolding Te1_def by (simp add: table_eval)

lemma Te2_table: "Te2 = map (\<lambda>s. word4 s (mul3 s) (xtime s) s) (map byte0 Te1)"
  unfolding Te2_def Te1_def by (simp add: table_eval)

lemma Te3_table: "Te3 = map (\<lambda>s. word4 s s (mul3 s) (xtime s)) (map byte0 Te1)"
  unfolding Te3_def Te1_def by (simp add: table_eval)

lemma Td0_table: "Td0 = map (\<lambda>s. word4 (mule s) (mul9 s) (muld s) (mulb s)) Td4"
  unfolding Td0_def Td4_def by (simp add: table_eval)

lemma Td1_table: "Td1 = map (\<lambda>s. word4 (mulb s) (mule s) (mul9 s) (muld s)) Td4"
  unfolding Td1_def Td4_def by (simp add: table_eval)

lemma Td2_table: "Td2 = map (\<lambda>s. word4 (muld s) (mulb s) (mule s) (mul9 s)) Td4"
  unfolding Td2_def Td4_def by (simp add: table_eval)

lemma Td3_table: "Td3 = map (\<lambda>s. word4 (mul9 s) (muld s) (mulb s) (mule s)) Td4"
  unfolding Td3_def Td4_def by (simp add: table_eval)

lemma Te1_length: "length Te1 = 256"
  unfolding Te1_def by simp

lemma Td4_length: "length Td4 = 256"
  unfolding Td4_def by simp

text \<open>\<open>Td4\<close> undoes the S-box: one check per byte.\<close>

lemma inv_sbox_table: "map (\<lambda>t. Td4 ! unat (byte0 t)) Te1 = map of_nat [0..<256]"
  unfolding Te1_def by (simp add: Td4_def byte0_def upt_conv_Cons)

lemma inv_sbox_sbox [simp]: "inv_sbox (sbox x) = x"
proof -
  have "map (\<lambda>t. Td4 ! unat (byte0 t)) Te1 ! unat x = map of_nat [0..<256] ! unat x"
    by (simp only: inv_sbox_table)
  then show ?thesis
    using unat_byte_bound [of x] by (simp add: inv_sbox_def sbox_def Te1_length)
qed

lemma sbox_inj: "sbox x = sbox y \<longleftrightarrow> x = y"
  by (metis inv_sbox_sbox)

lemma sbox_inv_sbox [simp]: "sbox (inv_sbox y) = y"
proof -
  have "surj sbox"
    by (rule finite_UNIV_inj_surj) (simp_all add: inj_def sbox_inj)
  then obtain x where "y = sbox x" by (metis surjD)
  then show ?thesis by simp
qed

lemma Te_lookup:
  "Te0 ! unat x = word4 (xtime (sbox x)) (sbox x) (sbox x) (mul3 (sbox x))"
  "Te1 ! unat x = word4 (mul3 (sbox x)) (xtime (sbox x)) (sbox x) (sbox x)"
  "Te2 ! unat x = word4 (sbox x) (mul3 (sbox x)) (xtime (sbox x)) (sbox x)"
  "Te3 ! unat x = word4 (sbox x) (sbox x) (mul3 (sbox x)) (xtime (sbox x))"
  using unat_byte_bound [of x]
  by (subst Te0_table Te1_table Te2_table Te3_table, simp add: sbox_def Te1_length)+

lemma Td_lookup:
  "Td0 ! unat x = word4 (mule (inv_sbox x)) (mul9 (inv_sbox x)) (muld (inv_sbox x)) (mulb (inv_sbox x))"
  "Td1 ! unat x = word4 (mulb (inv_sbox x)) (mule (inv_sbox x)) (mul9 (inv_sbox x)) (muld (inv_sbox x))"
  "Td2 ! unat x = word4 (muld (inv_sbox x)) (mulb (inv_sbox x)) (mule (inv_sbox x)) (mul9 (inv_sbox x))"
  "Td3 ! unat x = word4 (mul9 (inv_sbox x)) (muld (inv_sbox x)) (mulb (inv_sbox x)) (mule (inv_sbox x))"
  using unat_byte_bound [of x]
  by (subst Td0_table Td1_table Td2_table Td3_table, simp add: inv_sbox_def Td4_length)+

end
