(* ===== verification/Aes_Keys.thy ===== *)
theory Aes_Keys
  imports Aes_Correct
begin

text \<open>
  The two key schedules match: the decryption schedule is the encryption schedule in reverse
  block order with the inverse MixColumn transform on all blocks but the outer two, and the
  schedule does not depend on what \<open>rd_key\<close> held before.
\<close>

section \<open>What the schedule loops write\<close>

lemma length_set_rk [simp]: "length (set_rk b i v rd) = length rd"
  by (simp add: set_rk_def)

lemma length_chain_rk [simp]: "length (chain_rk b i j rd) = length rd"
  by (simp add: chain_rk_def)

lemma length_four_rk [simp]: "length (four_rk b i j v rd) = length rd"
  by (simp add: four_rk_def Let_def)

lemma length_load_key [simp]: "length (load_key uk n rd) = length rd"
  by (induction n) simp_all

lemma length_expand128 [simp]: "length (expand128 i b rd) = length rd"
  by (induction i b rd rule: expand128.induct) (simp add: expand128.simps Let_def)

lemma length_expand192 [simp]: "length (expand192 i b rd) = length rd"
  by (induction i b rd rule: expand192.induct) (simp add: expand192.simps Let_def)

lemma length_expand256 [simp]: "length (expand256 i b rd) = length rd"
  by (induction i b rd rule: expand256.induct) (simp add: expand256.simps Let_def)

text \<open>Two arrays agree below \<open>n\<close>; every assignment at \<open>n\<close> from below extends the agreement.\<close>

definition agree :: "nat \<Rightarrow> u32 list \<Rightarrow> u32 list \<Rightarrow> bool" where
  "agree n xs ys \<longleftrightarrow> length xs = length ys \<and> n \<le> length xs \<and> take n xs = take n ys"

lemma agree_nth: "agree n xs ys \<Longrightarrow> i < n \<Longrightarrow> xs ! i = ys ! i"
  by (auto simp: agree_def intro: take_eq_nth)

lemma agree_mono: "agree n xs ys \<Longrightarrow> m \<le> n \<Longrightarrow> agree m xs ys"
  unfolding agree_def by (metis le_trans min.absorb_iff1 take_take)

lemma agree_set_rk:
  assumes "agree (b + i) xs ys" "b + i < length xs" "v = v'"
  shows "agree (b + Suc i) (set_rk b i v xs) (set_rk b i v' ys)"
  using assms by (simp add: agree_def set_rk_def take_Suc_conv_app_nth)

lemma agree_chain_rk:
  assumes "agree (b + i) xs ys" "b + i < length xs" "0 < i" "j < i"
  shows "agree (b + Suc i) (chain_rk b i j xs) (chain_rk b i j ys)"
  unfolding chain_rk_def
  using assms by (intro agree_set_rk) (auto simp: agree_nth)

lemma agree_four_rk:
  assumes "agree (b + i) xs ys" "b + i + 3 < length xs" "j < i" "v = v'"
  shows "agree (b + i + 4) (four_rk b i j v xs) (four_rk b i j v' ys)"
proof -
  have "agree (b + Suc i) (set_rk b i (xs ! (b + j) XOR v) xs) (set_rk b i (ys ! (b + j) XOR v') ys)"
    using assms by (intro agree_set_rk) (auto simp: agree_nth)
  then have "agree (b + Suc (i + 1)) (chain_rk b (i + 1) (j + 1) (set_rk b i (xs ! (b + j) XOR v) xs))
      (chain_rk b (i + 1) (j + 1) (set_rk b i (ys ! (b + j) XOR v') ys))"
    using assms by (intro agree_chain_rk) auto
  then have "agree (b + Suc (i + 2))
      (chain_rk b (i + 2) (j + 2) (chain_rk b (i + 1) (j + 1) (set_rk b i (xs ! (b + j) XOR v) xs)))
      (chain_rk b (i + 2) (j + 2) (chain_rk b (i + 1) (j + 1) (set_rk b i (ys ! (b + j) XOR v') ys)))"
    using assms by (intro agree_chain_rk) auto
  then have "agree (b + (i + 3))
      (chain_rk b (i + 2) (j + 2) (chain_rk b (i + 1) (j + 1) (set_rk b i (xs ! (b + j) XOR v) xs)))
      (chain_rk b (i + 2) (j + 2) (chain_rk b (i + 1) (j + 1) (set_rk b i (ys ! (b + j) XOR v') ys)))"
    by (rule agree_mono) simp
  then have "agree (b + Suc (i + 3)) (four_rk b i j v xs) (four_rk b i j v' ys)"
    unfolding four_rk_def Let_def using assms by (intro agree_chain_rk) auto
  then show ?thesis by (rule agree_mono) simp
qed

lemma expand128_agree:
  assumes "agree (b + 4) xs ys" "i < 10" "b + 4 + 4 * (10 - i) \<le> length xs"
  shows "agree (b + 4 + 4 * (10 - i)) (expand128 i b xs) (expand128 i b ys)"
  using assms
proof (induction i b xs arbitrary: ys rule: expand128.induct)
  case (1 i b xs)
  let ?s = "\<lambda>rd. four_rk b 4 0 (sub_rot (rd ! (b + 3)) XOR rcon ! i) rd"
  have step: "agree (b + 4 + 4) (?s xs) (?s ys)"
    using "1.prems" by (intro agree_four_rk) (auto simp: agree_nth)
  show ?case
  proof (cases "i + 1 \<ge> 10")
    case True
    then have "10 - i = 1" using "1.prems"(2) by simp
    with step True show ?thesis
      by (subst (1 2) expand128.simps) (simp add: Let_def)
  next
    case False
    have "agree (b + 4 + 4 + 4 * (10 - (i + 1))) (expand128 (i + 1) (b + 4) (?s xs))
        (expand128 (i + 1) (b + 4) (?s ys))"
      using "1.prems" step False by (intro "1.IH") auto
    then have "agree (b + 4 + 4 * (10 - i)) (expand128 (i + 1) (b + 4) (?s xs)) (expand128 (i + 1) (b + 4) (?s ys))"
      by (rule agree_mono) (use False in simp)
    then show ?thesis using False
      by (subst (1 2) expand128.simps) (simp add: Let_def)
  qed
qed

lemma expand192_agree:
  assumes "agree (b + 6) xs ys" "i < 8" "b + 4 + 6 * (8 - i) \<le> length xs"
  shows "agree (b + 4 + 6 * (8 - i)) (expand192 i b xs) (expand192 i b ys)"
  using assms
proof (induction i b xs arbitrary: ys rule: expand192.induct)
  case (1 i b xs)
  let ?s = "\<lambda>rd. four_rk b 6 0 (sub_rot (rd ! (b + 5)) XOR rcon ! i) rd"
  have step: "agree (b + 6 + 4) (?s xs) (?s ys)"
    using "1.prems" by (intro agree_four_rk) (auto simp: agree_nth)
  show ?case
  proof (cases "i + 1 \<ge> 8")
    case True
    then have "8 - i = 1" using "1.prems"(2) by simp
    with step True show ?thesis
      by (subst (1 2) expand192.simps) (simp add: Let_def)
  next
    case False
    let ?t = "\<lambda>rd. chain_rk b 11 5 (chain_rk b 10 4 (?s rd))"
    have "agree (b + Suc 10) (chain_rk b 10 4 (?s xs)) (chain_rk b 10 4 (?s ys))"
      using agree_mono [OF step, of "b + 10"] "1.prems" False by (intro agree_chain_rk) auto
    then have "agree (b + 11) (chain_rk b 10 4 (?s xs)) (chain_rk b 10 4 (?s ys))"
      by (rule agree_mono) simp
    then have "agree (b + Suc 11) (?t xs) (?t ys)"
      using "1.prems" False by (intro agree_chain_rk) auto
    then have "agree (b + 6 + 6) (?t xs) (?t ys)" by (rule agree_mono) simp
    then have "agree (b + 6 + 4 + 6 * (8 - (i + 1))) (expand192 (i + 1) (b + 6) (?t xs))
        (expand192 (i + 1) (b + 6) (?t ys))"
      using "1.prems" False by (intro "1.IH") auto
    then have "agree (b + 4 + 6 * (8 - i)) (expand192 (i + 1) (b + 6) (?t xs)) (expand192 (i + 1) (b + 6) (?t ys))"
      by (rule agree_mono) (use False in simp)
    then show ?thesis using False
      by (subst (1 2) expand192.simps) (simp add: Let_def)
  qed
qed

lemma expand256_agree:
  assumes "agree (b + 8) xs ys" "i < 7" "b + 4 + 8 * (7 - i) \<le> length xs"
  shows "agree (b + 4 + 8 * (7 - i)) (expand256 i b xs) (expand256 i b ys)"
  using assms
proof (induction i b xs arbitrary: ys rule: expand256.induct)
  case (1 i b xs)
  let ?s = "\<lambda>rd. four_rk b 8 0 (sub_rot (rd ! (b + 7)) XOR rcon ! i) rd"
  have step: "agree (b + 8 + 4) (?s xs) (?s ys)"
    using "1.prems" by (intro agree_four_rk) (auto simp: agree_nth)
  show ?case
  proof (cases "i + 1 \<ge> 7")
    case True
    then have "7 - i = 1" using "1.prems"(2) by simp
    with step True show ?thesis
      by (subst (1 2) expand256.simps) (simp add: Let_def)
  next
    case False
    let ?t = "\<lambda>rd. four_rk b 12 4 (sub_word (?s rd ! (b + 11))) (?s rd)"
    have "agree (b + 12 + 4) (?t xs) (?t ys)"
      using agree_mono [OF step, of "b + 12"] agree_nth [OF step, of "b + 11"] "1.prems" False
      by (intro agree_four_rk) (auto simp: agree_nth)
    then have "agree (b + 8 + 8) (?t xs) (?t ys)" by (rule agree_mono) simp
    then have "agree (b + 8 + 4 + 8 * (7 - (i + 1))) (expand256 (i + 1) (b + 8) (?t xs))
        (expand256 (i + 1) (b + 8) (?t ys))"
      using "1.prems" False by (intro "1.IH") auto
    then have "agree (b + 4 + 8 * (7 - i)) (expand256 (i + 1) (b + 8) (?t xs)) (expand256 (i + 1) (b + 8) (?t ys))"
      by (rule agree_mono) (use False in simp)
    then show ?thesis using False
      by (subst (1 2) expand256.simps) (simp add: Let_def)
  qed
qed

lemma load_key_agree:
  "length xs = length ys \<Longrightarrow> n \<le> length xs \<Longrightarrow> agree n (load_key uk n xs) (load_key uk n ys)"
proof (induction n)
  case 0
  then show ?case by (simp add: agree_def)
next
  case (Suc n)
  then have "agree (0 + Suc n) (set_rk 0 n (GETU32 uk (4 * n)) (load_key uk n xs))
      (set_rk 0 n (GETU32 uk (4 * n)) (load_key uk n ys))"
    by (intro agree_set_rk) auto
  then show ?case by (simp add: set_rk_def)
qed

section \<open>Reversing the block order and mixing\<close>

lemma length_swap_word [simp]: "length (swap_word i j rd) = length rd"
  by (simp add: swap_word_def Let_def)

lemma nth_swap_word:
  "i < length rd \<Longrightarrow> j < length rd \<Longrightarrow>
     swap_word i j rd ! k = (if k = j then rd ! i else if k = i then rd ! j else rd ! k)"
  by (auto simp: swap_word_def Let_def nth_list_update)

lemma nth_swap_word4:
  assumes "a < b" "4 * b + d < length rd" "c < 4" "d < 4"
  shows "swap_word (4 * a + d) (4 * b + d) rd ! (4 * m + c)
    = rd ! (4 * (if c = d then if m = a then b else if m = b then a else m else m) + c)"
proof (cases "c = d")
  case True
  then show ?thesis using assms by (simp add: nth_swap_word)
next
  case False
  then have "4 * m + c \<noteq> 4 * b + d" "4 * m + c \<noteq> 4 * a + d" using assms(3,4) by presburger+
  then show ?thesis using False assms by (simp add: nth_swap_word)
qed

lemma swap_block_nth:
  assumes "a < b" "4 * b + 3 < length rd" "c < 4"
  shows "swap_word (4 * a + 3) (4 * b + 3) (swap_word (4 * a + 2) (4 * b + 2)
      (swap_word (4 * a + 1) (4 * b + 1) (swap_word (4 * a) (4 * b) rd))) ! (4 * m + c)
    = rd ! (4 * (if m = a then b else if m = b then a else m) + c)"
proof -
  let ?r0 = "swap_word (4 * a + 0) (4 * b + 0) rd"
  let ?r1 = "swap_word (4 * a + 1) (4 * b + 1) ?r0"
  let ?r2 = "swap_word (4 * a + 2) (4 * b + 2) ?r1"
  let ?r3 = "swap_word (4 * a + 3) (4 * b + 3) ?r2"
  let ?s = "\<lambda>d m. if c = d then if m = a then b else if m = b then a else m else m"
  have "?r3 ! (4 * m + c) = ?r2 ! (4 * ?s 3 m + c)"
    by (rule nth_swap_word4) (use assms in simp_all)
  also have "\<dots> = ?r1 ! (4 * ?s 2 (?s 3 m) + c)"
    by (rule nth_swap_word4) (use assms in simp_all)
  also have "\<dots> = ?r0 ! (4 * ?s 1 (?s 2 (?s 3 m)) + c)"
    by (rule nth_swap_word4) (use assms in simp_all)
  also have "\<dots> = rd ! (4 * ?s 0 (?s 1 (?s 2 (?s 3 m))) + c)"
    by (rule nth_swap_word4) (use assms in simp_all)
  also have "?s 0 (?s 1 (?s 2 (?s 3 m))) = (if m = a then b else if m = b then a else m)"
  proof -
    have "c = 0 \<or> c = 1 \<or> c = 2 \<or> c = 3" using assms(3) by auto
    then show ?thesis by (elim disjE) simp_all
  qed
  finally show ?thesis by simp
qed

lemma invert_order_nth:
  assumes "4 * b + 3 < length rd" "c < 4"
  shows "invert_order (4 * a) (4 * b) rd ! (4 * m + c)
    = rd ! (4 * (if a \<le> m \<and> m \<le> b then a + b - m else m) + c)"
  using assms
proof (induction "b - a" arbitrary: a b rd rule: less_induct)
  case less
  show ?case
  proof (cases "a < b")
    case True
    let ?rd = "swap_word (4 * a + 3) (4 * b + 3) (swap_word (4 * a + 2) (4 * b + 2)
      (swap_word (4 * a + 1) (4 * b + 1) (swap_word (4 * a) (4 * b) rd)))"
    have ab: "4 * a + 4 = 4 * (a + 1)" "4 * b - 4 = 4 * (b - 1)" by simp_all
    have "invert_order (4 * a) (4 * b) rd = invert_order (4 * (a + 1)) (4 * (b - 1)) ?rd"
      unfolding ab [symmetric] by (subst invert_order.simps) (simp add: True)
    then have "invert_order (4 * a) (4 * b) rd ! (4 * m + c)
        = invert_order (4 * (a + 1)) (4 * (b - 1)) ?rd ! (4 * m + c)"
      by (rule arg_cong)
    also have "\<dots> = ?rd ! (4 * (if a + 1 \<le> m \<and> m \<le> b - 1 then a + 1 + (b - 1) - m else m) + c)"
      using True less.prems by (intro less.hyps) auto
    also have "\<dots> = rd ! (4 * (if a \<le> m \<and> m \<le> b then a + b - m else m) + c)"
    proof -
      let ?m = "if a + 1 \<le> m \<and> m \<le> b - 1 then a + 1 + (b - 1) - m else m"
      have "(if ?m = a then b else if ?m = b then a else ?m) = (if a \<le> m \<and> m \<le> b then a + b - m else m)"
        using True by auto
      then show ?thesis unfolding swap_block_nth [OF True less.prems] by (rule arg_cong)
    qed
    finally show ?thesis .
  next
    case False
    then have "(if a \<le> m \<and> m \<le> b then a + b - m else m) = m" by auto
    then show ?thesis using False by (subst invert_order.simps) simp
  qed
qed

lemma length_invert_order [simp]: "length (invert_order i j rd) = length rd"
  by (induction i j rd rule: invert_order.induct) (simp add: invert_order.simps)

lemma length_mix_block [simp]: "length (mix_block b rd) = length rd"
  by (simp add: mix_block_def Let_def)

lemma mix_block_nth:
  assumes "b + 3 < length rd" "k < length rd"
  shows "mix_block b rd ! k = (if b \<le> k \<and> k < b + 4 then inv_mix (rd ! k) else rd ! k)"
  using assms by (auto simp: mix_block_def Let_def nth_list_update)

lemma length_inv_mix_keys [simp]: "length (inv_mix_keys n i rd) = length rd"
  by (induction n i rd rule: inv_mix_keys.induct) (simp add: inv_mix_keys.simps)

lemma inv_mix_keys_nth:
  assumes "4 * n \<le> length rd" "k < length rd"
  shows "inv_mix_keys n i rd ! k = (if 4 * i \<le> k \<and> k < 4 * n then inv_mix (rd ! k) else rd ! k)"
  using assms
proof (induction n i rd rule: inv_mix_keys.induct)
  case (1 n i rd)
  then show ?case
    by (subst inv_mix_keys.simps) (auto simp: mix_block_nth)
qed

lemma key_block_eqI:
  assumes "\<And>c. c < 4 \<Longrightarrow> xs ! (b + c) = ys ! (b' + c)"
  shows "key_block xs b = key_block ys b'"
  using assms [of 0] assms [of 1] assms [of 2] assms [of 3] by (simp add: key_block_def)

text \<open>The schedule \<open>AES_set_decrypt_key\<close> builds from \<open>rd\<close> matches \<open>rd\<close>.\<close>

lemma matching_inverse_schedule:
  assumes "4 * n + 4 \<le> length rd" "0 < n"
  shows "matching_keys n rd (inv_mix_keys n 1 (invert_order 0 (4 * n) rd))"
proof -
  let ?dk = "inv_mix_keys n 1 (invert_order 0 (4 * n) rd)"
  have nth: "?dk ! (4 * m + c) = (if 0 < m \<and> m < n then inv_mix (rd ! (4 * (n - m) + c)) else rd ! (4 * (n - m) + c))"
    if "m \<le> n" "c < 4" for m c
    using that assms invert_order_nth [of n rd c 0 m] by (auto simp: inv_mix_keys_nth)
  show ?thesis
    unfolding matching_keys_def
  proof (intro conjI allI impI)
    show "key_block ?dk 0 = key_block rd (4 * n)"
      using nth [of 0] by (intro key_block_eqI) auto
    show "key_block ?dk (4 * n) = key_block rd 0"
      using nth [of n] by (intro key_block_eqI) auto
    fix i assume i: "0 < i \<and> i < n"
    show "key_block ?dk (4 * i) = map_state inv_mix_column (key_block rd (4 * (n - i)))"
      using nth [of i 0] nth [of i 1] nth [of i 2] nth [of i 3] i
      by (simp add: key_block_def map_state_def inv_mix_spec)
  qed
qed

section \<open>The schedules of the two calls match\<close>

definition aes_key_wf :: "AES_KEY \<Rightarrow> bool" where
  "aes_key_wf k \<longleftrightarrow> length (rd_key k) = 4 * (AES_MAXNR + 1)"

lemma encrypt_key_returns:
  assumes "bits = 128 \<or> bits = 192 \<or> bits = 256" "bits \<le> 8 * int (length uk)" "aes_key_wf k"
  obtains ke r where "AES_set_encrypt_key (Some uk) bits (Some k) = Ret (0, Some ke)"
    "rounds ke = 2 * Suc r" "4 * rounds ke + 4 \<le> length (rd_key ke)" "aes_key_wf ke"
proof -
  have "\<exists>ke r. AES_set_encrypt_key (Some uk) bits (Some k) = Ret (0, Some ke) \<and>
    rounds ke = 2 * Suc r \<and> 4 * rounds ke + 4 \<le> length (rd_key ke) \<and> aes_key_wf ke"
    using assms
    by (elim disjE)
      (force intro: exI [of _ 4] exI [of _ 5] exI [of _ 6]
        simp: AES_set_encrypt_key_def aes_key_wf_def AES_MAXNR_def)+
  then show thesis using that by blast
qed

text \<open>The words of the schedule that are used do not depend on the old contents of \<open>rd_key\<close>.\<close>

lemma encrypt_key_agree:
  assumes "AES_set_encrypt_key (Some uk) bits (Some k) = Ret (0, Some ke)"
    and "AES_set_encrypt_key (Some uk) bits (Some k') = Ret (0, Some ke')"
    and "aes_key_wf k" "aes_key_wf k'"
  shows "rounds ke' = rounds ke \<and> agree (4 * rounds ke + 4) (rd_key ke) (rd_key ke')"
proof -
  have len: "length (rd_key k) = 60" "length (rd_key k') = 60"
    using assms(3,4) by (simp_all add: aes_key_wf_def AES_MAXNR_def)
  have "agree 44 (expand128 0 0 (load_key uk 4 (rd_key k))) (expand128 0 0 (load_key uk 4 (rd_key k')))"
    using expand128_agree [of 0 _ _ 0] load_key_agree [of "rd_key k" "rd_key k'" 4 uk] len by simp
  moreover have "agree 52 (expand192 0 0 (load_key uk 6 (rd_key k))) (expand192 0 0 (load_key uk 6 (rd_key k')))"
    using expand192_agree [of 0 _ _ 0] load_key_agree [of "rd_key k" "rd_key k'" 6 uk] len by simp
  moreover have "agree 60 (expand256 0 0 (load_key uk 8 (rd_key k))) (expand256 0 0 (load_key uk 8 (rd_key k')))"
    using expand256_agree [of 0 _ _ 0] load_key_agree [of "rd_key k" "rd_key k'" 8 uk] len by simp
  ultimately show ?thesis
    using assms(1,2) by (auto simp: AES_set_encrypt_key_def split: if_splits)
qed

lemma agree_key_block: "agree (4 * n + 4) xs ys \<Longrightarrow> m \<le> n \<Longrightarrow> key_block xs (4 * m) = key_block ys (4 * m)"
  by (rule key_block_eqI) (auto elim: agree_nth)

lemma agree_matching_keys:
  assumes "agree (4 * n + 4) ek ek'" "matching_keys n ek' dk"
  shows "matching_keys n ek dk"
  using assms agree_key_block [OF assms(1), of 0] by (auto simp: matching_keys_def agree_key_block)

lemma set_keys_match:
  assumes "bits = 128 \<or> bits = 192 \<or> bits = 256" "bits \<le> 8 * int (length uk)"
    and "aes_key_wf k1" "aes_key_wf k2"
  shows "\<exists>ke kd r. AES_set_encrypt_key (Some uk) bits (Some k1) = Ret (0, Some ke)
    \<and> AES_set_decrypt_key (Some uk) bits (Some k2) = Ret (0, Some kd)
    \<and> rounds ke = 2 * Suc r \<and> rounds kd = rounds ke \<and> matching_keys (rounds ke) (rd_key ke) (rd_key kd)"
proof -
  obtain ke r where ke: "AES_set_encrypt_key (Some uk) bits (Some k1) = Ret (0, Some ke)"
    "rounds ke = 2 * Suc r" using encrypt_key_returns [OF assms(1-3)] by metis
  obtain ke' where ke': "AES_set_encrypt_key (Some uk) bits (Some k2) = Ret (0, Some ke')"
    "4 * rounds ke' + 4 \<le> length (rd_key ke')"
    using encrypt_key_returns [OF assms(1,2,4)] by metis
  note ag = encrypt_key_agree [OF ke(1) ke'(1) assms(3,4)]
  let ?kd = "ke'\<lparr>rd_key := inv_mix_keys (rounds ke') 1 (invert_order 0 (4 * rounds ke') (rd_key ke'))\<rparr>"
  have "matching_keys (rounds ke) (rd_key ke) (rd_key ?kd)"
    using ag ke(2) matching_inverse_schedule [OF ke'(2)] by (auto intro: agree_matching_keys)
  moreover have "AES_set_decrypt_key (Some uk) bits (Some k2) = Ret (0, Some ?kd)"
    by (simp add: AES_set_decrypt_key_def ke'(1))
  ultimately show ?thesis using ke ag by (intro exI [of _ ke] exI [of _ ?kd] exI [of _ r]) simp
qed

text \<open>
  C2. A block encrypted under the schedule of \<open>AES_set_encrypt_key\<close> is decrypted under the
  schedule of \<open>AES_set_decrypt_key\<close> for the same user key to the block itself, for all three
  key sizes and whatever the two \<open>AES_KEY\<close> structures held before.
\<close>

theorem aes_roundtrip:
  assumes "bits = 128 \<or> bits = 192 \<or> bits = 256" "bits \<le> 8 * int (length uk)"
    and "aes_key_wf k1" "aes_key_wf k2" "length blk = 16"
  shows "\<exists>ke kd. AES_set_encrypt_key (Some uk) bits (Some k1) = Ret (0, Some ke)
    \<and> AES_set_decrypt_key (Some uk) bits (Some k2) = Ret (0, Some kd)
    \<and> run_bind (AES_encrypt blk ke) (\<lambda>c. AES_decrypt c kd) = Ret blk"
  using set_keys_match [OF assms(1-4)] AES_decrypt_encrypt_matching [OF assms(5)] by metis

theorem aes_roundtrip_witness:
  "\<exists>ke kd. AES_set_encrypt_key (Some (map of_nat [0..<32])) 256 (Some \<lparr>rd_key = replicate 60 0, rounds = 0\<rparr>) = Ret (0, Some ke)
    \<and> AES_set_decrypt_key (Some (map of_nat [0..<32])) 256 (Some \<lparr>rd_key = replicate 60 7, rounds = 3\<rparr>) = Ret (0, Some kd)
    \<and> run_bind (AES_encrypt (map of_nat [0..<16]) ke) (\<lambda>c. AES_decrypt c kd) = Ret (map of_nat [0..<16])"
  by (rule aes_roundtrip) (simp_all add: aes_key_wf_def AES_MAXNR_def)

section \<open>FIPS-197\<close>

text \<open>
  The published cipher: \<open>SubBytes\<close>, \<open>ShiftRows\<close>, \<open>MixColumns\<close> and \<open>AddRoundKey\<close> on a state of
  four columns, with the S-box the tables hold.
\<close>

definition sub_bytes :: "aes_state \<Rightarrow> aes_state" where
  "sub_bytes = map_state (\<lambda>w. word4 (sbox (byte3 w)) (sbox (byte2 w)) (sbox (byte1 w)) (sbox (byte0 w)))"

definition shift_rows :: "aes_state \<Rightarrow> aes_state" where
  "shift_rows s =
     (case s of (s0, s1, s2, s3) \<Rightarrow>
        (word4 (byte3 s0) (byte2 s1) (byte1 s2) (byte0 s3), word4 (byte3 s1) (byte2 s2) (byte1 s3) (byte0 s0),
         word4 (byte3 s2) (byte2 s3) (byte1 s0) (byte0 s1), word4 (byte3 s3) (byte2 s0) (byte1 s1) (byte0 s2)))"

definition mix_columns :: "aes_state \<Rightarrow> aes_state" where
  "mix_columns = map_state mix_column"

definition add_round_key :: "u32 list \<Rightarrow> nat \<Rightarrow> aes_state \<Rightarrow> aes_state" where
  "add_round_key w r s = xor_state s (key_block w (4 * r))"

fun fips_rounds :: "u32 list \<Rightarrow> nat \<Rightarrow> aes_state \<Rightarrow> aes_state" where
  "fips_rounds w 0 s = add_round_key w 0 s"
| "fips_rounds w (Suc r) s =
     add_round_key w (Suc r) (mix_columns (shift_rows (sub_bytes (fips_rounds w r s))))"

definition fips_cipher :: "u32 list \<Rightarrow> nat \<Rightarrow> u8 list \<Rightarrow> u8 list" where
  "fips_cipher w nr blk =
     store_block (add_round_key w nr (shift_rows (sub_bytes (fips_rounds w (nr - 1) (block_words blk)))))"

lemma sub_shift_fips: "sub_shift s = shift_rows (sub_bytes s)"
  by (simp add: sub_shift_def ss_col_def shift_rows_def sub_bytes_def map_state_def bytes_word4
      split: prod.splits)

lemma fips_rounds_enc:
  "rounds_from (enc_round w) 0 n (load_block blk w) = fips_rounds w n (block_words blk)"
proof (induction n)
  case 0
  show ?case by (simp add: load_block_words add_round_key_def)
next
  case (Suc n)
  then show ?case
    by (simp add: enc_round_spec add_round_key_def mix_columns_def sub_shift_fips del: fips_rounds.simps(1))
qed



end
