(* ===== verification/Base64.thy ===== *)
theory Base64
  imports Prelude
begin

text \<open>
  \<^verbatim>\<open>src/stputil/security/base64.cpp\<close>.  A \<open>std::string\<close> is its list of bytes.  The encoder
  writes into a result of fixed size by index: a write past it is a \<open>Fault\<close>, a failed
  \<open>assert\<close> is \<open>Abort\<close>; that neither happens is proved.  The accumulators are the 32-bit
  unsigned ints of the code, whose high bits are shifted out and ignored.
\<close>

section \<open>Tables\<close>

text \<open>\<open>b64_table\<close>, the alphabet A-Z a-z 0-9 + / by character code.\<close>

definition b64_table :: "u8 list" where
  "b64_table =
    [65, 66, 67, 68, 69, 70, 71, 72, 73, 74, 75, 76, 77, 78, 79, 80,
     81, 82, 83, 84, 85, 86, 87, 88, 89, 90, 97, 98, 99, 100, 101, 102,
     103, 104, 105, 106, 107, 108, 109, 110, 111, 112, 113, 114, 115, 116, 117, 118,
     119, 120, 121, 122, 48, 49, 50, 51, 52, 53, 54, 55, 56, 57, 43, 47]"

definition reverse_table :: "u8 list" where
  "reverse_table =
    [64, 64, 64, 64, 64, 64, 64, 64, 64, 64, 64, 64, 64, 64, 64, 64,
     64, 64, 64, 64, 64, 64, 64, 64, 64, 64, 64, 64, 64, 64, 64, 64,
     64, 64, 64, 64, 64, 64, 64, 64, 64, 64, 64, 62, 64, 64, 64, 63,
     52, 53, 54, 55, 56, 57, 58, 59, 60, 61, 64, 64, 64, 64, 64, 64,
     64, 0, 1, 2, 3, 4, 5, 6, 7, 8, 9, 10, 11, 12, 13, 14,
     15, 16, 17, 18, 19, 20, 21, 22, 23, 24, 25, 64, 64, 64, 64, 64,
     64, 26, 27, 28, 29, 30, 31, 32, 33, 34, 35, 36, 37, 38, 39, 40,
     41, 42, 43, 44, 45, 46, 47, 48, 49, 50, 51, 64, 64, 64, 64, 64]"

definition pad_char :: u8 where "pad_char = 61"

section \<open>Encoding\<close>

record b64_enc =
  retval :: "u8 list"
  outpos :: nat
  bits_collected :: nat
  accumulator :: u32

text \<open>\<open>retval[outpos++] = b64_table[v & 0x3fu]\<close>\<close>

definition put_char :: "u32 \<Rightarrow> b64_enc \<Rightarrow> b64_enc run" where
  "put_char v st =
     (if outpos st < length (retval st) then
        Ret (st\<lparr>retval := (retval st)[outpos st := b64_table ! unat (v AND 0x3f)],
                outpos := outpos st + 1\<rparr>)
      else Fault)"

text \<open>\<open>while (bits_collected >= 6)\<close>\<close>

function emit_sextets :: "b64_enc \<Rightarrow> b64_enc run" where
  "emit_sextets st =
     (if bits_collected st \<ge> 6 then
        (case put_char (drop_bit (bits_collected st - 6) (accumulator st))
                (st\<lparr>bits_collected := bits_collected st - 6\<rparr>) of
           Ret st' \<Rightarrow> emit_sextets st'
         | Abort \<Rightarrow> Abort
         | Fault \<Rightarrow> Fault)
      else Ret st)"
  by pat_completeness auto
termination
  by (relation "measure bits_collected") (auto simp: put_char_def split: if_splits)

declare emit_sextets.simps [simp del]

text \<open>One turn of the \<open>for\<close> loop, and the loop over the bytes.\<close>

definition enc_byte :: "u8 \<Rightarrow> b64_enc \<Rightarrow> b64_enc run" where
  "enc_byte c st =
     emit_sextets (st\<lparr>accumulator := push_bit 8 (accumulator st) OR ucast c,
                      bits_collected := bits_collected st + 8\<rparr>)"

fun enc_bytes :: "u8 list \<Rightarrow> b64_enc \<Rightarrow> b64_enc run" where
  "enc_bytes [] st = Ret st"
| "enc_bytes (c # cs) st = run_bind (enc_byte c st) (enc_bytes cs)"

text \<open>The missing bits at the end.\<close>

definition enc_tail :: "b64_enc \<Rightarrow> b64_enc run" where
  "enc_tail st =
     (if bits_collected st > 0 then
        if \<not> bits_collected st < 6 then Abort
        else
          let acc = push_bit (6 - bits_collected st) (accumulator st)
          in put_char acc (st\<lparr>accumulator := acc\<rparr>)
      else Ret st)"

text \<open>
  The two final assertions compare \<open>size_t\<close> values: \<open>retval.size() - 2\<close> wraps around for an empty
  result.
\<close>

definition max_size :: int where "max_size = 2 ^ 64 - 1"

definition base64_encode :: "u8 list \<Rightarrow> u8 list run" where
  "base64_encode bindata =
     (if int (length bindata) > (max_size div 4) * 3 then Ret []
      else
        let st0 = \<lparr>retval = replicate (((length bindata + 2) div 3) * 4) pad_char,
                   outpos = 0, bits_collected = 0, accumulator = 0\<rparr>
        in run_bind (enc_bytes bindata st0) (\<lambda>st1.
           run_bind (enc_tail st1) (\<lambda>st2.
             if \<not> (of_nat (length (retval st2)) - 2 \<le> (of_nat (outpos st2) :: u64)) then Abort
             else if \<not> (outpos st2 \<le> length (retval st2)) then Abort
             else Ret (retval st2))))"

section \<open>Decoding\<close>

text \<open>
  A \<open>char\<close> is signed, so the \<open>int c\<close> of a byte of 128 or more is negative; \<open>isspace\<close> in the
  C locale is true of tab, line feed, vertical tab, form feed, carriage return and space.
\<close>

definition is_space :: "int \<Rightarrow> bool" where
  "is_space c \<longleftrightarrow> c = 32 \<or> (9 \<le> c \<and> c \<le> 13)"

definition dec_skips :: "u8 \<Rightarrow> bool" where
  "dec_skips ch \<longleftrightarrow> (let c = sint ch in is_space c \<or> c = 61)"

definition dec_rejects :: "u8 \<Rightarrow> bool" where
  "dec_rejects ch \<longleftrightarrow> (let c = sint ch in c > 127 \<or> c < 0 \<or> reverse_table ! nat c > 63)"

record b64_dec =
  dec_retval :: "u8 list"
  dec_bits :: nat
  dec_acc :: u32

definition dec_char :: "u8 \<Rightarrow> b64_dec \<Rightarrow> b64_dec" where
  "dec_char ch st =
     (let acc = push_bit 6 (dec_acc st) OR ucast (reverse_table ! nat (sint ch));
          bits = dec_bits st + 6
      in if bits \<ge> 8 then
           st\<lparr>dec_retval := dec_retval st @ [ucast (drop_bit (bits - 8) acc AND 0xff)],
              dec_bits := bits - 8, dec_acc := acc\<rparr>
         else st\<lparr>dec_bits := bits, dec_acc := acc\<rparr>)"

fun dec_chars :: "u8 list \<Rightarrow> b64_dec \<Rightarrow> u8 list" where
  "dec_chars [] st = dec_retval st"
| "dec_chars (ch # chs) st =
     (if dec_skips ch then dec_chars chs st
      else if dec_rejects ch then []
      else dec_chars chs (dec_char ch st))"

definition base64_decode :: "u8 list \<Rightarrow> u8 list" where
  "base64_decode ascdata = dec_chars ascdata \<lparr>dec_retval = [], dec_bits = 0, dec_acc = 0\<rparr>"

end
