(* ===== verification/Base64_Proof.thy ===== *)
theory Base64_Proof
  imports Base64
begin

text \<open>
  The encoder computes RFC 4648 base64, group by group, and the decoder undoes it; the decoder
  ignores white space and padding, and one byte outside the alphabet makes it return the empty
  string.
\<close>

section \<open>The reference encoding\<close>

definition sextet0 :: "u8 \<Rightarrow> u8" where "sextet0 a = drop_bit 2 a"
definition sextet1 :: "u8 \<Rightarrow> u8 \<Rightarrow> u8" where "sextet1 a b = push_bit 4 (take_bit 2 a) OR drop_bit 4 b"
definition sextet2 :: "u8 \<Rightarrow> u8 \<Rightarrow> u8" where "sextet2 b c = push_bit 2 (take_bit 4 b) OR drop_bit 6 c"
definition sextet3 :: "u8 \<Rightarrow> u8" where "sextet3 c = take_bit 6 c"

definition b64_char :: "u8 \<Rightarrow> u8" where "b64_char v = b64_table ! unat v"

fun b64_spec :: "u8 list \<Rightarrow> u8 list" where
  "b64_spec [] = []"
| "b64_spec [a] = [b64_char (sextet0 a), b64_char (sextet1 a 0), pad_char, pad_char]"
| "b64_spec [a, b] =
     [b64_char (sextet0 a), b64_char (sextet1 a b), b64_char (sextet2 b 0), pad_char]"
| "b64_spec (a # b # c # xs) =
     b64_char (sextet0 a) # b64_char (sextet1 a b) # b64_char (sextet2 b c) # b64_char (sextet3 c)
       # b64_spec xs"

section \<open>The accumulator\<close>

lemma and_0x3f: "(w :: u32) AND 0x3f = take_bit 6 w"
  by (simp add: take_bit_eq_mask mask_eq_exp_minus_1)

text \<open>Shifting a byte in, and the sextet \<open>k\<close> bits from the bottom.\<close>

definition shift_in :: "u32 \<Rightarrow> u8 \<Rightarrow> u32" where
  "shift_in acc c = push_bit 8 acc OR ucast c"

definition sextet_at :: "nat \<Rightarrow> u32 \<Rightarrow> nat" where
  "sextet_at k acc = unat (drop_bit k acc AND 0x3f)"

lemma unat_ucast_u8: "unat (ucast (v :: u8) :: u32) = unat v"
  by (simp add: unsigned_ucast_eq take_bit_nat_eq_self_iff less_trans [OF unat_byte_bound])

lemma acc_bits:
  fixes a b c :: u8 and x :: u32
  shows "sextet_at 2 (shift_in x a) = unat (sextet0 a)"
    "sextet_at 4 (shift_in (shift_in x a) b) = unat (sextet1 a b)"
    "sextet_at 6 (shift_in (shift_in x b) c) = unat (sextet2 b c)"
    "sextet_at 0 (shift_in x c) = unat (sextet3 c)"
    "unat (push_bit 4 (shift_in x a) AND 0x3f) = unat (sextet1 a 0)"
    "unat (push_bit 2 (shift_in x b) AND 0x3f) = unat (sextet2 b 0)"
  unfolding sextet_at_def and_0x3f unat_ucast_u8 [symmetric] shift_in_def
  by (rule arg_cong [of _ _ unat], rule bit_word_eqI, auto simp: bit_take_bit_iff bit_drop_bit_eq
      bit_or_iff bit_push_bit_iff bit_ucast_iff sextet0_def sextet1_def sextet2_def sextet3_def bit_u8_ge)+

section \<open>The encoder writes the reference encoding\<close>

text \<open>The state after \<open>out\<close> is written with \<open>n\<close> places left.\<close>

definition enc_at :: "u8 list \<Rightarrow> nat \<Rightarrow> nat \<Rightarrow> u32 \<Rightarrow> b64_enc" where
  "enc_at out n bits acc =
     \<lparr>retval = out @ replicate n pad_char, outpos = length out, bits_collected = bits, accumulator = acc\<rparr>"

lemma put_char_at:
  "put_char v (enc_at out (Suc n) bits acc)
     = Ret (enc_at (out @ [b64_table ! unat (v AND 0x3f)]) n bits acc)"
  by (simp add: put_char_def enc_at_def list_update_append)

lemma enc_at_update:
  "enc_at out n bits acc \<lparr>bits_collected := b\<rparr> = enc_at out n b acc"
  "enc_at out n bits acc \<lparr>accumulator := x\<rparr> = enc_at out n bits x"
  "bits_collected (enc_at out n bits acc) = bits" "accumulator (enc_at out n bits acc) = acc"
  by (simp_all add: enc_at_def)

lemma emit_stop: "bits < 6 \<Longrightarrow> emit_sextets (enc_at out n bits acc) = Ret (enc_at out n bits acc)"
  by (subst emit_sextets.simps) (simp add: enc_at_update)

lemma emit_one:
  "6 \<le> bits \<Longrightarrow> emit_sextets (enc_at out (Suc n) bits acc)
     = emit_sextets (enc_at (out @ [b64_table ! sextet_at (bits - 6) acc]) n (bits - 6) acc)"
  by (subst emit_sextets.simps) (simp add: enc_at_update put_char_at sextet_at_def)

lemma enc_byte_emit:
  "enc_byte c (enc_at out n bits acc) = emit_sextets (enc_at out n (bits + 8) (shift_in acc c))"
  by (simp add: enc_byte_def enc_at_update shift_in_def)

lemmas enc_run = enc_byte_emit emit_one emit_stop acc_bits b64_char_def [symmetric]

lemma enc_bytes_spec:
  assumes "4 * ((length xs + 2) div 3) \<le> n"
  shows "\<exists>st. run_bind (enc_bytes xs (enc_at out n 0 acc)) enc_tail = Ret st
    \<and> retval st = out @ b64_spec xs @ replicate (n - 4 * ((length xs + 2) div 3)) pad_char
    \<and> length out + length (b64_spec xs) \<le> outpos st + 2 \<and> outpos st \<le> length out + length (b64_spec xs)
    \<and> length (b64_spec xs) = 4 * ((length xs + 2) div 3)"
  using assms
proof (induction xs arbitrary: out n acc rule: b64_spec.induct)
  case 1
  then show ?case by (simp add: enc_tail_def enc_at_def)
next
  case (2 a)
  then have n: "n = Suc (Suc (Suc (Suc (n - 4))))" by simp
  show ?case
    by (subst (1 2) n) (simp add: enc_run enc_tail_def enc_at_update put_char_at Let_def, simp add: enc_at_def)
next
  case (3 a b)
  then have n: "n = Suc (Suc (Suc (Suc (n - 4))))" by simp
  show ?case
    by (subst (1 2) n) (simp add: enc_run enc_tail_def enc_at_update put_char_at Let_def, simp add: enc_at_def)
next
  case (4 a b c xs)
  have d: "(length (a # b # c # xs) + 2) div 3 = Suc ((length xs + 2) div 3)" by simp
  obtain m where m: "n = Suc (Suc (Suc (Suc m)))" "4 * ((length xs + 2) div 3) \<le> m"
  proof
    show "n = Suc (Suc (Suc (Suc (n - 4))))" "4 * ((length xs + 2) div 3) \<le> n - 4"
      using 4(2) unfolding d by simp_all
  qed
  show ?case
    using 4(1) [OF m(2), of "out @ [b64_char (sextet0 a), b64_char (sextet1 a b), b64_char (sextet2 b c),
      b64_char (sextet3 c)]" "shift_in (shift_in (shift_in acc a) b) c"]
    unfolding d m(1) by (simp add: enc_run)
qed

lemma size_check:
  assumes "2 \<le> N" "int N < 2 ^ 64" "N \<le> p + 2" "p \<le> N"
  shows "(of_nat N - 2 :: u64) \<le> of_nat p"
proof -
  have "(of_nat N - 2 :: u64) = of_nat (N - 2)" using assms(1) by (simp add: of_nat_diff)
  moreover have "unat (of_nat m :: u64) = m" if "m \<le> N" for m
    using that assms(2) by (simp add: unat_of_nat take_bit_nat_eq_self_iff)
  ultimately have "unat (of_nat N - 2 :: u64) = N - 2" "unat (of_nat p :: u64) = p"
    using assms(4) by (simp_all only: diff_le_self)
  then show ?thesis using assms(3) by (simp only: word_le_nat_alt)
qed

lemma base64_encode_groups:
  assumes "xs \<noteq> []" "int (length xs) \<le> (max_size div 4) * 3"
  shows "base64_encode xs = Ret (b64_spec xs)"
proof -
  let ?n = "(length xs + 2) div 3 * 4"
  obtain st where st: "run_bind (enc_bytes xs (enc_at [] ?n 0 0)) enc_tail = Ret st"
      "retval st = b64_spec xs" "length (b64_spec xs) \<le> outpos st + 2"
      "outpos st \<le> length (b64_spec xs)" "length (b64_spec xs) = ?n"
    using enc_bytes_spec [of xs ?n "[]" 0] by (auto simp: mult.commute)
  have b: "4 \<le> ?n" "int ?n < 2 ^ 64"
    using assms by (cases xs; simp add: max_size_def)+
  have chk: "of_nat (length (retval st)) - 2 \<le> (of_nat (outpos st) :: u64)"
    unfolding st(2) by (rule size_check) (use st(3-5) b in simp_all)
  have run: "run_bind (enc_bytes xs (enc_at [] ?n 0 0)) (\<lambda>st1. run_bind (enc_tail st1) f) = f st" for f
    using st(1) by (simp flip: run_bind_assoc)
  have init: "\<lparr>retval = replicate ?n pad_char, outpos = 0, bits_collected = 0, accumulator = 0\<rparr> = enc_at [] ?n 0 0"
    by (simp add: enc_at_def)
  have lim: "\<not> int (length xs) > (max_size div 4) * 3" using assms(2) by simp
  show ?thesis
    unfolding base64_encode_def Let_def init if_not_P [OF lim] run
    using st(2,4) chk by simp
qed

text \<open>
  C31. The encoder never writes outside its result: on every non-empty string of encodable size
  it returns the RFC 4648 encoding.
\<close>

theorem base64_encode_spec:
  assumes "xs \<noteq> []" "int (length xs) \<le> (max_size div 4) * 3"
  shows "base64_encode xs = Ret (b64_spec xs)"
  by (rule base64_encode_groups [OF assms])

theorem base64_encode_spec_witness: "base64_encode [77, 97] = Ret [84, 87, 69, 61]"
  using base64_encode_spec [of "[77, 97]"]
  by (simp add: max_size_def b64_char_def b64_table_def pad_char_def
      sextet0_def sextet1_def sextet2_def)

text \<open>
  On the empty string the check \<open>outpos >= retval.size() - 2\<close> compares with \<open>SIZE_MAX - 1\<close> and
  the assertion fails.
\<close>

lemma base64_encode_empty: "base64_encode [] = Abort"
  by (simp add: base64_encode_def max_size_def enc_tail_def Let_def)

section \<open>The decoder undoes it\<close>

definition shift6 :: "u32 \<Rightarrow> u8 \<Rightarrow> u32" where
  "shift6 acc v = push_bit 6 acc OR ucast v"

definition byte_at :: "nat \<Rightarrow> u32 \<Rightarrow> u8" where
  "byte_at k acc = ucast (drop_bit k acc AND 0xff)"

lemma sextets_back:
  "byte_at 4 (shift6 (shift6 x (sextet0 a)) (sextet1 a b)) = a"
  "byte_at 2 (shift6 (shift6 x (sextet1 a b)) (sextet2 b c)) = b"
  "byte_at 0 (shift6 (shift6 x (sextet2 b c)) (sextet3 c)) = c"
proof -
  have h: "2 \<le> n \<Longrightarrow> Suc (Suc (n - 2)) = n" for n :: nat by simp
  show "byte_at 4 (shift6 (shift6 x (sextet0 a)) (sextet1 a b)) = a"
    "byte_at 2 (shift6 (shift6 x (sextet1 a b)) (sextet2 b c)) = b"
    "byte_at 0 (shift6 (shift6 x (sextet2 b c)) (sextet3 c)) = c"
    unfolding byte_at_def and_0xff shift6_def
    by (rule bit_word_eqI, auto simp: bit_take_bit_iff bit_drop_bit_eq bit_or_iff bit_push_bit_iff
        bit_ucast_iff sextet0_def sextet1_def sextet2_def sextet3_def bit_u8_ge h)+
qed

text \<open>The reverse table inverts the alphabet, no letter of which is skipped or rejected.\<close>

lemma alphabet_check:
  "list_all (\<lambda>i. \<not> dec_skips (b64_table ! i) \<and> \<not> dec_rejects (b64_table ! i) \<and>
     reverse_table ! nat (sint (b64_table ! i)) = of_nat i) [0..<64]"
  by (simp add: upt_conv_Cons dec_skips_def dec_rejects_def is_space_def Let_def b64_table_def
      reverse_table_def)

lemma b64_char_decodes:
  assumes "unat v < 64"
  shows "\<not> dec_skips (b64_char v)" "\<not> dec_rejects (b64_char v)"
    "reverse_table ! nat (sint (b64_char v)) = v"
  using alphabet_check assms by (auto simp: list_all_iff b64_char_def)

lemma sextet_bound [simp]:
  "unat (sextet0 a) < 64" "unat (sextet1 a b) < 64" "unat (sextet2 b c) < 64" "unat (sextet3 c) < 64"
proof -
  have bound: "unat v < 64" if "\<And>n. 6 \<le> n \<Longrightarrow> \<not> bit v n" for v :: u8
  proof -
    have "take_bit 6 v = v" using that by (intro bit_word_eqI) (use not_le in \<open>auto simp: bit_take_bit_iff\<close>)
    then have "unat v = take_bit 6 (unat v)" by (metis unsigned_take_bit_eq)
    then show ?thesis using take_bit_nat_less_exp [of 6 "unat v"] by simp
  qed
  show "unat (sextet0 a) < 64" "unat (sextet1 a b) < 64" "unat (sextet2 b c) < 64" "unat (sextet3 c) < 64"
    by (rule bound; simp add: sextet0_def sextet1_def sextet2_def sextet3_def bit_take_bit_iff
      bit_drop_bit_eq bit_or_iff bit_push_bit_iff bit_u8_ge)+
qed

definition dec_at :: "u8 list \<Rightarrow> nat \<Rightarrow> u32 \<Rightarrow> b64_dec" where
  "dec_at out bits acc = \<lparr>dec_retval = out, dec_bits = bits, dec_acc = acc\<rparr>"

lemma dec_chars_step:
  assumes "unat v < 64"
  shows "dec_chars (b64_char v # chs) (dec_at out bits acc) =
    (if 2 \<le> bits then dec_chars chs (dec_at (out @ [byte_at (bits - 2) (shift6 acc v)]) (bits - 2) (shift6 acc v))
     else dec_chars chs (dec_at out (bits + 6) (shift6 acc v)))"
  using b64_char_decodes [OF assms]
  by (simp add: dec_char_def dec_at_def Let_def shift6_def byte_at_def)

lemma dec_chars_pad: "dec_chars (pad_char # chs) st = dec_chars chs st"
  by (simp add: pad_char_def dec_skips_def Let_def)

lemma dec_chars_spec: "dec_chars (b64_spec xs) (dec_at out 0 acc) = out @ xs"
  by (induction xs arbitrary: out acc rule: b64_spec.induct)
    (simp_all add: dec_chars_step dec_chars_pad sextets_back del: dec_chars.simps(2),
     simp_all add: dec_at_def)

text \<open>
  C30. Decoding the encoding of a string gives the string back, for every non-empty string of
  encodable size.
\<close>

theorem base64_roundtrip:
  assumes "xs \<noteq> []" "int (length xs) \<le> (max_size div 4) * 3"
  shows "run_bind (base64_encode xs) (\<lambda>s. Ret (base64_decode s)) = Ret xs"
proof -
  have "base64_encode xs = Ret (b64_spec xs)" 
    by (rule base64_encode_groups [OF assms])
  then show ?thesis using dec_chars_spec [of xs "[]" 0] by (simp add: base64_decode_def dec_at_def)
qed

theorem base64_roundtrip_witness:
  "run_bind (base64_encode [0, 255, 16]) (\<lambda>s. Ret (base64_decode s)) = Ret [0, 255, 16]"
  by (rule base64_roundtrip) (simp_all add: max_size_def)

section \<open>Errors and bounds of the decoder\<close>

lemma dec_chars_reject:
  "ch \<in> set chs \<Longrightarrow> \<not> dec_skips ch \<Longrightarrow> dec_rejects ch \<Longrightarrow> dec_chars chs st = []"
  by (induction chs arbitrary: st) auto

lemma dec_chars_filter: "dec_chars chs st = dec_chars (filter (\<lambda>ch. \<not> dec_skips ch) chs) st"
  by (induction chs arbitrary: st) auto

lemma dec_chars_length:
  assumes "dec_bits st < 8"
  shows "8 * length (dec_chars chs st) \<le> 8 * length (dec_retval st) + dec_bits st + 6 * length chs"
  using assms
proof (induction chs arbitrary: st)
  case Nil
  then show ?case by simp
next
  case (Cons ch chs)
  have "dec_bits (dec_char ch st) < 8" using Cons.prems by (auto simp: dec_char_def Let_def)
  moreover have "8 * length (dec_retval (dec_char ch st)) + dec_bits (dec_char ch st)
      = 8 * length (dec_retval st) + dec_bits st + 6"
    by (simp add: dec_char_def Let_def)
  ultimately show ?case
    using Cons.IH [of st] Cons.IH [of "dec_char ch st"] Cons.prems by simp
qed



end
