(* ===== verification/Stp_Crypto.thy ===== *)
theory Stp_Crypto
  imports Aes_Keys Base64_Proof
begin

text \<open>
  \<^verbatim>\<open>src/stpcrypto/stp_crypto.cc\<close>: the encryption interface of the client library.  A message is
  padded to whole AES blocks with its length in the last four bytes, encrypted block by block
  with a fixed 256-bit key, and encoded in base64.

  Buffers are byte lists with their C length; reading or writing past one is a \<open>Fault\<close>.  What
  uninitialised memory holds (the \<open>AES_KEY\<close> on the stack, the byte after the decrypted data) is
  an argument.  \<open>calloc\<close> and \<open>malloc\<close> are taken to succeed.
\<close>

section \<open>Global state and helpers\<close>

record stp_globals =
  g_clnt_or_svr :: int

definition stp_globals0 :: stp_globals where
  "stp_globals0 = \<lparr>g_clnt_or_svr = -1\<rparr>"

text \<open>The key literal \<open>"12345678901234567890123456789012"\<close>, and the unused result \<open>false\<close>.\<close>

definition GetStpCryptKey :: "bool \<times> u8 list" where
  "GetStpCryptKey =
     (False, [49, 50, 51, 52, 53, 54, 55, 56, 57, 48, 49, 50, 51, 52, 53, 54,
              55, 56, 57, 48, 49, 50, 51, 52, 53, 54, 55, 56, 57, 48, 49, 50])"

definition ReadUint32 :: "u8 list \<Rightarrow> nat \<Rightarrow> u32" where
  "ReadUint32 buf i =
     push_bit 24 (ucast (buf ! i)) OR push_bit 16 (ucast (buf ! (i + 1))) OR
     push_bit 8 (ucast (buf ! (i + 2))) OR ucast (buf ! (i + 3))"

definition WriteUint32 :: "u8 list \<Rightarrow> nat \<Rightarrow> u32 \<Rightarrow> u8 list run" where
  "WriteUint32 buf i data =
     (if i + 4 \<le> length buf then
        Ret (buf[i := ucast (drop_bit 24 data), i + 1 := ucast (drop_bit 16 data AND 0xFF),
                 i + 2 := ucast (drop_bit 8 data AND 0xFF), i + 3 := ucast (data AND 0xFF)])
      else Fault)"

text \<open>The switch of \<open>InitStpCrypto\<close> only computes the result; \<open>g_clnt_or_svr\<close> is not assigned.\<close>

definition InitStpCrypto :: "int \<Rightarrow> stp_globals \<Rightarrow> int \<times> stp_globals" where
  "InitStpCrypto clnt_or_svr g =
     (let res = (if clnt_or_svr = 0 then 0 else if clnt_or_svr = 1 then 0 else -1) in (res, g))"

text \<open>The loop over the blocks of a buffer, with the block function as an argument.\<close>

fun crypt_blocks :: "(u8 list \<Rightarrow> u8 list run) \<Rightarrow> nat \<Rightarrow> u8 list \<Rightarrow> u8 list run" where
  "crypt_blocks f 0 data = Ret []"
| "crypt_blocks f (Suc n) data =
     run_bind (f data) (\<lambda>c. run_bind (crypt_blocks f n (drop 16 data)) (\<lambda>cs. Ret (c @ cs)))"

section \<open>Encryption\<close>

text \<open>\<open>remain\<close>, \<open>blocks\<close> and \<open>encrypt_len\<close> are 32-bit unsigned and wrap around.\<close>

definition encrypt_block_count :: "u32 \<Rightarrow> u32" where
  "encrypt_block_count plain_len =
     (let remain = plain_len mod 16;
          blocks = (plain_len + 15) div 16
      in if remain > 12 \<or> remain = 0 then blocks + 1 else blocks)"

definition pad_plain :: "u8 list \<Rightarrow> u32 \<Rightarrow> u8 list run" where
  "pad_plain plain plain_len =
     (let encrypt_len = unat (encrypt_block_count plain_len * 16)
      in if length plain < unat plain_len \<or> encrypt_len < unat plain_len \<or> encrypt_len < 4 then Fault
         else WriteUint32 (take (unat plain_len) plain @ replicate (encrypt_len - unat plain_len) 0)
                (encrypt_len - 4) plain_len)"

text \<open>
  Outputs: the return code, and what \<open>*cipher\<close> and \<open>cipher_len\<close> are set to (\<open>None\<close>: not assigned).
\<close>

definition EncryptPlain ::
    "stp_globals \<Rightarrow> AES_KEY \<Rightarrow> u8 list option \<Rightarrow> u32 \<Rightarrow> (int \<times> (u8 list \<times> u32) option) run" where
  "EncryptPlain g aesKey plain plain_len =
     (case plain of
        None \<Rightarrow> Ret (-1, None)
      | Some p \<Rightarrow>
          if plain_len \<le> 0 then Ret (-1, None)
          else if g_clnt_or_svr g = -1 then Ret (-1, None)
          else
            run_bind (pad_plain p plain_len) (\<lambda>pData.
            run_bind (AES_set_encrypt_key (Some (snd GetStpCryptKey)) 256 (Some aesKey)) (\<lambda>(st, k).
            case k of None \<Rightarrow> Fault | Some ek \<Rightarrow>
            run_bind (crypt_blocks (\<lambda>b. AES_encrypt b ek) (unat (encrypt_block_count plain_len)) pData) (\<lambda>strEnc.
            run_bind (base64_encode strEnc) (\<lambda>strDec.
              let cipher_len = (of_nat (length strDec) :: u32)
              in Ret (0, Some (take (unat cipher_len) strDec @ [0], cipher_len)))))))"

section \<open>Decryption\<close>

text \<open>
  \<open>junk\<close> is the uninitialised byte at \<open>pTmp[nLen]\<close>.  Outputs: the return code, what \<open>*plain\<close> and
  what \<open>plain_len\<close> are set to.
\<close>

definition DecryptCipher ::
    "AES_KEY \<Rightarrow> u8 \<Rightarrow> u8 list option \<Rightarrow> u32 \<Rightarrow> (int \<times> u8 list option \<times> u32 option) run" where
  "DecryptCipher aesKey junk cipher cipher_len =
     (case cipher of
        None \<Rightarrow> Ret (-1, None, None)
      | Some c \<Rightarrow>
          if cipher_len \<le> 0 then Ret (-1, None, None)
          else if length c < unat cipher_len then Fault
          else
            let strResult = base64_decode (take (unat cipher_len) c);
                nLen = (of_nat (length strResult) :: u32)
            in if nLen = 0 then Ret (-2, None, None)
               else if nLen mod 16 \<noteq> 0 then Ret (-3, None, None)
               else
                 run_bind (AES_set_decrypt_key (Some (snd GetStpCryptKey)) 256 (Some aesKey)) (\<lambda>(st, k).
                 case k of None \<Rightarrow> Fault | Some dk \<Rightarrow>
                 run_bind (crypt_blocks (\<lambda>b. AES_decrypt b dk) (unat (nLen div 16)) strResult) (\<lambda>out.
                   let pTmp = out @ [junk];
                       plain_len = ReadUint32 pTmp (unat nLen - 4)
                   in if plain_len > nLen then Ret (-4, None, Some plain_len)
                      else if unat plain_len < length pTmp
                        then Ret (0, Some (pTmp[unat plain_len := 0]), Some plain_len)
                      else Fault)))"

section \<open>A block cipher in ECB mode\<close>

text \<open>
  What the message layer needs of the block cipher: with a matching pair of keys, every block is
  encrypted to 16 bytes that decrypt to it, whatever follows them in the buffer.
\<close>

locale block_cipher =
  fixes enc dec :: "u8 list \<Rightarrow> 'k \<Rightarrow> u8 list run"
    and pair :: "'k \<Rightarrow> 'k \<Rightarrow> bool"
  assumes encrypts: "pair ke kd \<Longrightarrow> 16 \<le> length blk \<Longrightarrow>
      \<exists>c. length c = 16 \<and> enc blk ke = Ret c \<and> (\<forall>rest. dec (c @ rest) kd = Ret (take 16 blk))"
    and decrypts: "pair ke kd \<Longrightarrow> 16 \<le> length blk \<Longrightarrow> \<exists>p. length p = 16 \<and> dec blk kd = Ret p"
begin

lemma blocks_roundtrip:
  assumes "pair ke kd" "16 * n \<le> length data"
  shows "\<exists>c. length c = 16 * n \<and> crypt_blocks (\<lambda>b. enc b ke) n data = Ret c
    \<and> (\<forall>rest. crypt_blocks (\<lambda>b. dec b kd) n (c @ rest) = Ret (take (16 * n) data))"
  using assms(2)
proof (induction n arbitrary: data)
  case 0
  show ?case by simp
next
  case (Suc n)
  have len: "16 * n \<le> length (drop 16 data)" using Suc.prems by simp
  obtain c where c: "length c = 16" "enc data ke = Ret c" "\<And>rest. dec (c @ rest) kd = Ret (take 16 data)"
    using encrypts [OF assms(1), of data] Suc.prems by auto
  obtain cs where cs: "length cs = 16 * n" "crypt_blocks (\<lambda>b. enc b ke) n (drop 16 data) = Ret cs"
    "\<And>rest. crypt_blocks (\<lambda>b. dec b kd) n (cs @ rest) = Ret (take (16 * n) (drop 16 data))"
    using Suc.IH [OF len] by auto
  have "take (16 * Suc n) data = take 16 data @ take (16 * n) (drop 16 data)"
    by (simp add: take_add)
  then show ?case using c cs by (intro exI [of _ "c @ cs"]) simp
qed

lemma blocks_decrypt:
  assumes "pair ke kd" "16 * n \<le> length data"
  shows "\<exists>p. length p = 16 * n \<and> crypt_blocks (\<lambda>b. dec b kd) n data = Ret p"
  using assms(2)
proof (induction n arbitrary: data)
  case 0
  show ?case by simp
next
  case (Suc n)
  have len: "16 * n \<le> length (drop 16 data)" using Suc.prems by simp
  obtain p where "length p = 16" "dec data kd = Ret p"
    using decrypts [OF assms(1), of data] Suc.prems by auto
  moreover obtain ps where "length ps = 16 * n" "crypt_blocks (\<lambda>b. dec b kd) n (drop 16 data) = Ret ps"
    using Suc.IH [OF len] by auto
  ultimately show ?case by simp
qed

end

text \<open>AES with matching schedules is such a cipher.\<close>

definition aes_pair :: "AES_KEY \<Rightarrow> AES_KEY \<Rightarrow> bool" where
  "aes_pair ke kd \<longleftrightarrow> (\<exists>r. rounds ke = 2 * Suc r) \<and> rounds kd = rounds ke
     \<and> matching_keys (rounds ke) (rd_key ke) (rd_key kd)"

lemma block_words_prefix:
  assumes "16 \<le> length blk"
  shows "block_words (take 16 blk @ rest) = block_words blk"
  using assms by (simp add: block_words_def GETU32_def nth_append)

lemma AES_decrypt_prefix:
  "length c = 16 \<Longrightarrow> aes_pair ke kd \<Longrightarrow> AES_decrypt (c @ rest) kd = AES_decrypt c kd"
  using block_words_prefix [of c rest]
  by (auto simp: aes_pair_def AES_decrypt_rounds load_block_words)

interpretation aes: block_cipher AES_encrypt AES_decrypt aes_pair
proof
  fix ke kd :: AES_KEY and blk :: "u8 list"
  assume p: "aes_pair ke kd" and blk: "16 \<le> length blk"
  from p obtain r where r: "rounds ke = 2 * Suc r" "rounds kd = rounds ke"
    by (auto simp: aes_pair_def)
  show "\<exists>p. length p = 16 \<and> AES_decrypt blk kd = Ret p"
    using AES_decrypt_rounds [OF blk, of kd r] r by simp
  obtain c where c: "length c = 16" "AES_encrypt blk ke = Ret c"
    by (metis AES_encrypt_rounds [OF blk r(1)] length_store_block)
  have "AES_encrypt (take 16 blk) ke = Ret c"
    using c(2) AES_encrypt_rounds [OF blk r(1)] AES_encrypt_rounds [of "take 16 blk" ke r] r(1) blk
      block_words_prefix [OF blk, of "[]"] by (simp add: load_block_words)
  then have "AES_decrypt c kd = Ret (take 16 blk)"
    using AES_decrypt_encrypt_matching [of "take 16 blk" ke r kd] p r blk by (simp add: aes_pair_def)
  then show "\<exists>c. length c = 16 \<and> AES_encrypt blk ke = Ret c
      \<and> (\<forall>rest. AES_decrypt (c @ rest) kd = Ret (take 16 blk))"
    using c AES_decrypt_prefix [OF c(1) p] by auto
qed

end
