(* ===== verification/Stp_Crypto_Proof.thy ===== *)
theory Stp_Crypto_Proof
  imports Stp_Crypto
begin

text \<open>
  Properties of the encryption interface: decryption gives the message back, the exact length
  bound below which padding stays inside its buffer, the decryptor's results on arbitrary input,
  and the fact that \<open>EncryptPlain\<close> is never enabled by \<open>InitStpCrypto\<close>.
\<close>

section \<open>Padding\<close>

definition padded_len :: "nat \<Rightarrow> nat" where
  "padded_len n =
     16 * ((n + 15) div 16 + (if n mod 16 > 12 \<or> n mod 16 = 0 then 1 else 0))"

lemma padded_len_bounds: "0 < n \<Longrightarrow> n + 4 \<le> padded_len n \<and> padded_len n \<le> n + 19 \<and> padded_len n mod 16 = 0"
  unfolding padded_len_def by (auto; presburger)

lemma unat_block_count:
  "unat (encrypt_block_count L) =
     ((unat L + 15) mod 2 ^ 32 div 16 + (if unat L mod 16 > 12 \<or> unat L mod 16 = 0 then 1 else 0))"
proof -
  have r: "L mod 16 > 12 \<longleftrightarrow> unat L mod 16 > 12" "L mod 16 = 0 \<longleftrightarrow> unat L mod 16 = 0"
    by (simp_all add: word_less_nat_alt unat_mod flip: unat_eq_0)
  have d: "unat ((L + 15) div 16) = (unat L + 15) mod 2 ^ 32 div 16"
    by (simp add: unat_div unat_word_ariths)
  moreover have "(unat L + 15) mod 2 ^ 32 div 16 < 2 ^ 28" by (simp add: div_less_iff_less_mult)
  ultimately have s: "unat ((L + 15) div 16 + 1) = (unat L + 15) mod 2 ^ 32 div 16 + 1"
    by (simp add: unat_word_ariths)
  show ?thesis by (simp add: encrypt_block_count_def Let_def r d s)
qed

lemma unat_encrypt_len:
  assumes "unat L \<le> 2 ^ 32 - 20" "0 < L"
  shows "unat (encrypt_block_count L * 16) = padded_len (unat L)"
    "16 * unat (encrypt_block_count L) = padded_len (unat L)" "padded_len (unat L) < 2 ^ 32"
proof -
  have n: "0 < unat L" using assms(2) by (simp add: word_less_nat_alt)
  have "(unat L + 15) mod 2 ^ 32 = unat L + 15" using assms(1) by simp
  then show e: "16 * unat (encrypt_block_count L) = padded_len (unat L)"
    unfolding unat_block_count padded_len_def by simp
  show l: "padded_len (unat L) < 2 ^ 32"
    using padded_len_bounds [OF n] assms(1) by simp
  show "unat (encrypt_block_count L * 16) = padded_len (unat L)"
    using e l by (simp add: unat_word_ariths mult.commute)
qed

lemma short_encrypt_len:
  assumes "unat L > 2 ^ 32 - 20"
  shows "unat (encrypt_block_count L * 16) < unat L"
proof -
  have "unat L = 4294967277 \<or> unat L = 4294967278 \<or> unat L = 4294967279 \<or> unat L =
    4294967280 \<or> unat L = 4294967281 \<or> unat L = 4294967282 \<or> unat L = 4294967283 \<or>
    unat L = 4294967284 \<or> unat L = 4294967285 \<or> unat L = 4294967286 \<or> unat L =
    4294967287 \<or> unat L = 4294967288 \<or> unat L = 4294967289 \<or> unat L = 4294967290 \<or>
    unat L = 4294967291 \<or> unat L = 4294967292 \<or> unat L = 4294967293 \<or> unat L =
    4294967294 \<or> unat L = 4294967295"
    using assms unat_u32_bound [of L] by (simp; arith)
  then have "unat (encrypt_block_count L * 16) \<le> 16"
    unfolding unat_word_ariths unat_block_count by (elim disjE) simp_all
  then show ?thesis using assms by simp
qed

lemma ReadUint32_Write:
  assumes "i + 4 \<le> length buf" "WriteUint32 buf i v = Ret buf'"
  shows "ReadUint32 (buf' @ rest) i = v" "length buf' = length buf" "take i buf' = take i buf"
proof -
  have b: "ucast (drop_bit 16 v AND 0xFF) = byte2 v" "ucast (drop_bit 8 v AND 0xFF) = byte1 v"
    "ucast (v AND 0xFF) = byte0 v" "ucast (drop_bit 24 v) = byte3 v"
    unfolding and_0xff by (rule bit_word_eqI, simp add: bit_bytes bit_ucast_iff bit_take_bit_iff bit_drop_bit_eq)+
  have buf': "buf' = buf[i := byte3 v, i + 1 := byte2 v, i + 2 := byte1 v, i + 3 := byte0 v]"
    using assms unfolding WriteUint32_def b by simp
  have "ReadUint32 (buf' @ rest) i = word4 (byte3 v) (byte2 v) (byte1 v) (byte0 v)"
    using assms(1) unfolding buf' ReadUint32_def word4_or by (simp add: nth_append)
  then show "ReadUint32 (buf' @ rest) i = v" by (simp add: word4_bytes)
  show "length buf' = length buf" "take i buf' = take i buf" unfolding buf' by simp_all
qed

lemma pad_plain_ok:
  assumes "0 < L" "unat L \<le> length p" "unat L \<le> 2 ^ 32 - 20"
  shows "\<exists>d. pad_plain p L = Ret d \<and> length d = padded_len (unat L) \<and> take (unat L) d = take (unat L) p
    \<and> (\<forall>rest. ReadUint32 (d @ rest) (padded_len (unat L) - 4) = L)"
proof -
  let ?n = "unat L" and ?E = "padded_len (unat L)"
  have n: "0 < ?n" using assms(1) by (simp add: word_less_nat_alt)
  let ?b = "take ?n p @ replicate (?E - ?n) 0"
  have len: "length ?b = ?E" using assms(2) padded_len_bounds [OF n] by simp
  obtain d where d: "WriteUint32 ?b (?E - 4) L = Ret d"
    using len padded_len_bounds [OF n] by (simp add: WriteUint32_def)
  have i: "?E - 4 + 4 \<le> length ?b" using len padded_len_bounds [OF n] by simp
  note w = ReadUint32_Write [OF i d]
  have le: "?n \<le> ?E - 4" using padded_len_bounds [OF n] by linarith
  have "take ?n d = take ?n (take (?E - 4) d)" using le by (simp add: min_absorb1)
  also have "\<dots> = take ?n p" unfolding w(3) take_take min_absorb1 [OF le] using assms(2) by simp
  finally show ?thesis
    using w(1,2) len d padded_len_bounds [OF n] assms
    by (simp add: pad_plain_def unat_encrypt_len [OF assms(3,1)] Let_def)
qed

section \<open>Keys\<close>

lemma program_keys:
  assumes "aes_key_wf k1" "aes_key_wf k2"
  obtains ke kd where "AES_set_encrypt_key (Some (snd GetStpCryptKey)) 256 (Some k1) = Ret (0, Some ke)"
    "AES_set_decrypt_key (Some (snd GetStpCryptKey)) 256 (Some k2) = Ret (0, Some kd)" "aes_pair ke kd"
proof -
  let ?uk = "snd GetStpCryptKey"
  have b: "256 = (128 :: int) \<or> 256 = (192 :: int) \<or> 256 = (256 :: int)"
    "256 \<le> 8 * int (length ?uk)" by (simp_all add: GetStpCryptKey_def)
  show thesis
    using set_keys_match [OF b assms] that by (auto simp: aes_pair_def)
qed

section \<open>The round trip\<close>

lemma length_b64_spec: "length (b64_spec xs) = 4 * ((length xs + 2) div 3)"
  by (induction xs rule: b64_spec.induct) (simp_all, presburger)

text \<open>Base64 of a buffer short enough for a 32-bit length.\<close>

lemma base64_u32:
  assumes "0 < length xs" "length xs \<le> 3221225469"
  shows "base64_encode xs = Ret (b64_spec xs)" "base64_decode (b64_spec xs) = xs"
    "unat (of_nat (length (b64_spec xs)) :: u32) = length (b64_spec xs)"
proof -
  have s: "xs \<noteq> []" "int (length xs) \<le> (max_size div 4) * 3"
    using assms by (auto simp: max_size_def)
  show e: "base64_encode xs = Ret (b64_spec xs)" by (rule base64_encode_groups [OF s])
  show "base64_decode (b64_spec xs) = xs"
    using dec_chars_spec [of xs "[]" 0] by (simp add: base64_decode_def dec_at_def)
  have "length (b64_spec xs) < 2 ^ 32" using assms(2) by (simp add: length_b64_spec)
  then show "unat (of_nat (length (b64_spec xs)) :: u32) = length (b64_spec xs)"
    by (simp add: unat_of_nat take_bit_nat_eq_self_iff)
qed

text \<open>
  C3. The message layer round trip: with encryption enabled, every non-empty message of at most
  3221225450 bytes is encrypted to a NUL-terminated base64 string of the returned length, and
  decrypting that string returns 0, the length of the message and a buffer that starts with the
  message followed by a NUL.
\<close>

theorem crypto_roundtrip:
  assumes "g_clnt_or_svr g \<noteq> -1" "0 < L" "unat L \<le> length p" "unat L \<le> 3221225450"
    and "aes_key_wf k1" "aes_key_wf k2"
  shows "\<exists>cipher clen buf. EncryptPlain g k1 (Some p) L = Ret (0, Some (cipher, clen))
    \<and> length cipher = unat clen + 1 \<and> cipher ! unat clen = 0
    \<and> DecryptCipher k2 junk (Some cipher) clen = Ret (0, Some buf, Some L)
    \<and> take (unat L) buf = take (unat L) p \<and> buf ! unat L = 0"
proof -
  let ?n = "unat L" let ?E = "padded_len ?n" let ?B = "unat (encrypt_block_count L)"
  have n: "0 < ?n" using assms(2) by (simp add: word_less_nat_alt)
  have small: "?n \<le> 2 ^ 32 - 20" using assms(4) by simp
  note E = padded_len_bounds [OF n] unat_encrypt_len [OF small assms(2)]
  obtain d where d: "pad_plain p L = Ret d" "length d = ?E" "take ?n d = take ?n p"
      "\<And>rest. ReadUint32 (d @ rest) (?E - 4) = L"
    using pad_plain_ok [OF assms(2,3) small] by auto
  obtain ke kd where k: "AES_set_encrypt_key (Some (snd GetStpCryptKey)) 256 (Some k1) = Ret (0, Some ke)"
      "AES_set_decrypt_key (Some (snd GetStpCryptKey)) 256 (Some k2) = Ret (0, Some kd)" "aes_pair ke kd"
    by (rule program_keys [OF assms(5,6)])
  have len: "16 * ?B \<le> length d" using E(3) d(2) by simp
  obtain c where c: "length c = ?E" "crypt_blocks (\<lambda>b. AES_encrypt b ke) ?B d = Ret c"
      "crypt_blocks (\<lambda>b. AES_decrypt b kd) ?B c = Ret d"
    using aes.blocks_roundtrip [OF k(3) len] E(3) d(2) by (metis append_Nil2 order_refl take_all)
  have cl: "0 < length c" "length c \<le> 3221225469" using c(1) E(1) assms(4) by simp_all
  note b64 = base64_u32 [OF cl]
  let ?clen = "of_nat (length (b64_spec c)) :: u32"
  have enc: "EncryptPlain g k1 (Some p) L = Ret (0, Some (b64_spec c @ [0], ?clen))"
    using assms(1) n by (simp add: EncryptPlain_def d(1) k(1) c(2) b64 Let_def word_le_nat_alt)
  have nLen: "unat (of_nat (length c) :: u32) = ?E"
    using E(4) unfolding c(1) by (simp add: unat_of_nat take_bit_nat_eq_self_iff)
  define nl where "nl = (of_nat (length c) :: u32)"
  have nl: "unat nl = ?E" using nLen by (simp add: nl_def)
  have "unat (nl div 16) = ?B" "unat (nl mod 16) = 0" "unat nl \<noteq> 0" "\<not> unat nl < ?n"
    using E(1,3) by (simp_all add: unat_div unat_mod nl)
  then have div: "unat (nl div 16) = ?B" "nl mod 16 = 0" "nl \<noteq> 0" "\<not> nl < L"
    by (simp_all add: word_less_nat_alt unat_eq_0)
  have "3 \<le> length c + 2" using cl(1) by linarith
  then have "0 < length (b64_spec c)" unfolding length_b64_spec by (simp add: div_greater_zero_iff)
  then have "unat ?clen \<noteq> 0" using b64(3) by simp
  then have clen: "\<not> ?clen \<le> 0" by (simp add: word_le_nat_alt)
  have "DecryptCipher k2 junk (Some (b64_spec c @ [0])) ?clen = Ret (0, Some ((d @ [junk])[?n := 0]), Some L)"
    using clen div d(2,4) E(1)
    by (simp add: DecryptCipher_def b64 k(2) c(3) nl Let_def flip: nl_def)
  moreover have "take ?n ((d @ [junk])[?n := 0]) = take ?n p" "(d @ [junk])[?n := 0] ! ?n = 0"
    using d(2,3) E(1) by simp_all
  ultimately show ?thesis using enc b64(3) by (intro exI conjI) (assumption | simp add: nth_append)+
qed


definition zero_key :: AES_KEY where
  "zero_key = \<lparr>rd_key = replicate 60 0, rounds = 0\<rparr>"

lemma zero_key_wf: "aes_key_wf zero_key"
  by (simp add: aes_key_wf_def zero_key_def AES_MAXNR_def)

theorem crypto_roundtrip_witness:
  "\<exists>cipher clen buf. EncryptPlain \<lparr>g_clnt_or_svr = 1\<rparr> zero_key (Some [1, 2, 3]) 2 = Ret (0, Some (cipher, clen))
    \<and> length cipher = unat clen + 1 \<and> cipher ! unat clen = 0
    \<and> DecryptCipher zero_key 7 (Some cipher) clen = Ret (0, Some buf, Some 2)
    \<and> take 2 buf = take 2 [1, 2, 3] \<and> buf ! 2 = 0"
  using crypto_roundtrip [of "\<lparr>g_clnt_or_svr = 1\<rparr>" 2 "[1, 2, 3]" zero_key zero_key 7] zero_key_wf
  by simp

section \<open>Memory safety\<close>

lemma EncryptPlain_enabled_ret:
  assumes "g_clnt_or_svr g \<noteq> -1" "0 < L" "unat L \<le> length p" "unat L \<le> 2 ^ 32 - 20" "aes_key_wf k1"
  obtains d ke c where "length c = padded_len (unat L)" "EncryptPlain g k1 (Some p) L =
    run_bind (base64_encode c) (\<lambda>strDec. let cipher_len = (of_nat (length strDec) :: u32)
      in Ret (0, Some (take (unat cipher_len) strDec @ [0], cipher_len)))"
proof -
  note E = unat_encrypt_len [OF assms(4,2)]
  obtain d where d: "pad_plain p L = Ret d" "length d = padded_len (unat L)"
    using pad_plain_ok [OF assms(2,3,4)] by auto
  obtain ke kd where k: "AES_set_encrypt_key (Some (snd GetStpCryptKey)) 256 (Some k1) = Ret (0, Some ke)"
      "aes_pair ke kd"
    by (rule program_keys [OF assms(5,5)])
  have "16 * unat (encrypt_block_count L) \<le> length d" using E(2) d(2) by simp
  from aes.blocks_roundtrip [OF k(2) this] E(2) obtain c where
    "length c = padded_len (unat L)" "crypt_blocks (\<lambda>b. AES_encrypt b ke) (unat (encrypt_block_count L)) d = Ret c"
    by auto
  moreover have "\<not> L \<le> 0" using assms(2) by simp
  ultimately show thesis using assms(1) by (intro that) (simp_all add: EncryptPlain_def d(1) k(1))
qed

lemma encrypt_plain_bound:
  assumes "g_clnt_or_svr g \<noteq> -1" "0 < L" "unat L \<le> length p" "aes_key_wf k1"
  shows "EncryptPlain g k1 (Some p) L = Fault \<longleftrightarrow> 2 ^ 32 - 20 < unat L"
proof (cases "2 ^ 32 - 20 < unat L")
  case True
  have "pad_plain p L = Fault"
    using short_encrypt_len [OF True] by (simp add: pad_plain_def Let_def)
  moreover have "\<not> L \<le> 0" using assms(2) by simp
  ultimately show ?thesis using True assms(1) by (simp add: EncryptPlain_def)
next
  case False
  have n: "0 < unat L" using assms(2) by (simp add: word_less_nat_alt)
  from False have le: "unat L \<le> 2 ^ 32 - 20" by simp
  obtain c where "length c = padded_len (unat L)" "EncryptPlain g k1 (Some p) L =
    run_bind (base64_encode c) (\<lambda>strDec. let cipher_len = (of_nat (length strDec) :: u32)
      in Ret (0, Some (take (unat cipher_len) strDec @ [0], cipher_len)))"
    by (rule EncryptPlain_enabled_ret [OF assms(1,2,3) le assms(4)])
  moreover have "length c \<le> 2 ^ 32" "0 < length c"
    using calculation(1) padded_len_bounds [OF n] False by simp_all
  then have "c \<noteq> []" "int (length c) \<le> (max_size div 4) * 3" by (auto simp: max_size_def)
  then have "base64_encode c = Ret (b64_spec c)" by (rule base64_encode_groups)
  ultimately show ?thesis using False by (simp only: run_bind.simps Let_def) simp
qed

text \<open>
  C34. The exact length bound of the encryptor: on a buffer of at least \<open>plain_len\<close> bytes it leaves its
  buffers if and only if \<open>plain_len\<close> is above 4294967276, where the 32-bit computation of the padded
  length wraps around and \<open>memcpy\<close> writes past the block that \<open>calloc\<close> returned.
\<close>

theorem encrypt_plain_overflow:
  assumes "g_clnt_or_svr g \<noteq> -1" "0 < L" "unat L \<le> length p" "aes_key_wf k1"
  shows "EncryptPlain g k1 (Some p) L = Fault \<longleftrightarrow> 4294967276 < unat L"
  using encrypt_plain_bound [OF assms] by simp

theorem encrypt_plain_overflow_witness:
  "EncryptPlain \<lparr>g_clnt_or_svr = 0\<rparr> zero_key (Some [9]) 1 \<noteq> Fault"
  using encrypt_plain_overflow [of "\<lparr>g_clnt_or_svr = 0\<rparr>" 1 "[9]" zero_key] zero_key_wf by simp

lemma DecryptCipher_cases:
  assumes "unat clen \<le> length c" "aes_key_wf k"
  shows "DecryptCipher k junk (Some c) clen \<in> {Ret (-1, None, None), Ret (-2, None, None), Ret (-3, None, None)}
    \<or> (\<exists>L n. n = length (base64_decode (take (unat clen) c)) mod 2 ^ 32 \<and> n mod 16 = 0 \<and>
        (n < unat L \<and> DecryptCipher k junk (Some c) clen = Ret (-4, None, Some L) \<or>
        (\<exists>buf. unat L \<le> n \<and> length buf = n + 1 \<and> buf ! unat L = 0 \<and>
          DecryptCipher k junk (Some c) clen = Ret (0, Some buf, Some L))))"
proof -
  let ?s = "base64_decode (take (unat clen) c)"
  define nl where "nl = (of_nat (length ?s) :: u32)"
  have n: "unat nl = length ?s mod 2 ^ 32" by (simp add: nl_def unat_of_nat take_bit_eq_mod)
  obtain ke kd where k: "AES_set_decrypt_key (Some (snd GetStpCryptKey)) 256 (Some k) = Ret (0, Some kd)"
      "aes_pair ke kd"
    by (rule program_keys [OF assms(2,2)])
  show ?thesis
  proof (cases "clen = 0 \<or> nl = 0 \<or> nl mod 16 \<noteq> 0")
    case True
    have "DecryptCipher k junk (Some c) clen \<in> {Ret (-1, None, None), Ret (-2, None, None), Ret (-3, None, None)}"
      unfolding DecryptCipher_def option.case Let_def nl_def [symmetric]
      using True assms(1) by (elim disjE) simp_all
    then show ?thesis ..
  next
    case False
    have m: "unat nl mod 16 = 0" using False unat_mod [of nl 16] by simp
    then have d: "16 * unat (nl div 16) = unat nl" by (simp add: unat_div) presburger
    have "16 * unat (nl div 16) \<le> length ?s" unfolding d n by simp
    from aes.blocks_decrypt [OF k(2) this] obtain out where
      out: "length out = unat nl" "crypt_blocks (\<lambda>b. AES_decrypt b kd) (unat (nl div 16)) ?s = Ret out"
      using d by auto
    define L where "L = ReadUint32 (out @ [junk]) (unat nl - 4)"
    have "DecryptCipher k junk (Some c) clen = (if L > nl then Ret (-4, None, Some L)
        else if unat L < length (out @ [junk]) then Ret (0, Some ((out @ [junk])[unat L := 0]), Some L) else Fault)"
      using False assms(1) by (simp add: DecryptCipher_def Let_def k(1) out(2) L_def word_le_nat_alt unat_eq_0 flip: nl_def)
    moreover have "L > nl \<longleftrightarrow> unat nl < unat L" by (simp add: word_less_nat_alt)
    ultimately show ?thesis using n m out(1) by (intro disjI2 exI [of _ L] exI [of _ "unat nl"]) auto
  qed
qed

text \<open>
  C33. The decryptor is safe on arbitrary input: for every string of at least \<open>cipher_len\<close> bytes it
  returns, with one of its four error codes or with 0 and a buffer that holds the \<open>plain_len\<close>
  bytes it reports and their terminating NUL; it never aborts or leaves its buffers.
\<close>

theorem decrypt_cipher_safe:
  assumes "unat clen \<le> length c" "aes_key_wf k"
  shows "\<exists>code plain plen. DecryptCipher k junk (Some c) clen = Ret (code, plain, plen)
    \<and> code \<in> {0, -1, -2, -3, -4}
    \<and> (plain \<noteq> None \<longleftrightarrow> code = 0)
    \<and> (code = 0 \<longrightarrow> (\<exists>buf L. plain = Some buf \<and> plen = Some L \<and> unat L < length buf \<and> buf ! unat L = 0))"
  using DecryptCipher_cases [OF assms, of junk] by fastforce

theorem decrypt_cipher_safe_witness:
  "\<exists>code plain plen. DecryptCipher zero_key 0 (Some [65, 65, 61, 61]) 4 = Ret (code, plain, plen)
    \<and> code \<in> {0, -1, -2, -3, -4}"
  using decrypt_cipher_safe [of 4 "[65, 65, 61, 61]" zero_key 0] zero_key_wf by auto

section \<open>Enabling encryption\<close>

lemma init_keeps_globals: "snd (InitStpCrypto r g) = g"
  by (simp add: InitStpCrypto_def Let_def)

text \<open>
  C35. Whatever roles the library is initialised with, and however often, encryption stays disabled:
  \<open>InitStpCrypto\<close> reports success for the roles 0 and 1 but does not store the role, so every later
  \<open>EncryptPlain\<close> returns -1 and assigns no output.
\<close>

theorem encrypt_never_enabled:
  "EncryptPlain (fold (\<lambda>r g. snd (InitStpCrypto r g)) roles stp_globals0) k p L = Ret (-1, None)"
proof -
  have "fold (\<lambda>r g. snd (InitStpCrypto r g)) roles stp_globals0 = stp_globals0"
    by (induction roles) (simp_all add: init_keeps_globals)
  then show ?thesis by (simp add: EncryptPlain_def stp_globals0_def split: option.splits)
qed

end
