(* ===== verification/Shm.thy ===== *)
theory Shm
  imports Prelude
begin

text \<open>
  \<^verbatim>\<open>src/stputil/shm.cc\<close>, \<^verbatim>\<open>shm.h\<close>: the wrapper of the System V shared memory calls, and the
  memory the program reaches through it.

  A pointer is \<open>NULL\<close>, a non-null address of no object (\<open>BadPtr\<close>, such as the \<open>(void*)-1\<close> that a failed
  \<open>shmat\<close> returns), or an offset into an attached segment.  The operating system is not part of the code: its calls are a parameter, a record of
  functions over the state \<open>'os\<close> of the system, and the theorems state what they need of it.
  Integers are stored little-endian.
\<close>

section \<open>Memory\<close>

datatype ptr = Null | BadPtr | Ptr int nat

type_synonym mem = "int \<Rightarrow> u8 list option"

fun ptr_add :: "ptr \<Rightarrow> nat \<Rightarrow> ptr" where
  "ptr_add (Ptr b off) n = Ptr b (off + n)"
| "ptr_add Null n = (if n = 0 then Null else BadPtr)"
| "ptr_add BadPtr n = BadPtr"

definition overwrite :: "nat \<Rightarrow> 'a list \<Rightarrow> 'a list \<Rightarrow> 'a list" where
  "overwrite off d xs = take off xs @ d @ drop (off + length d) xs"

fun mem_store :: "ptr \<Rightarrow> u8 list \<Rightarrow> mem \<Rightarrow> mem run" where
  "mem_store (Ptr b off) d m =
     (case m b of
        None \<Rightarrow> Fault
      | Some bytes \<Rightarrow> if off + length d \<le> length bytes then Ret (m(b \<mapsto> overwrite off d bytes)) else Fault)"
| "mem_store _ d m = Fault"

text \<open>Characters stored one after the other, as the loops over a \<open>char\<close> array do.\<close>

fun store_chars :: "ptr \<Rightarrow> u8 list \<Rightarrow> mem \<Rightarrow> mem run" where
  "store_chars p [] m = Ret m"
| "store_chars p (c # cs) m = run_bind (mem_store p [c] m) (store_chars (ptr_add p 1) cs)"

text \<open>The C string at a pointer: the bytes before the first NUL.\<close>

fun mem_cstr :: "ptr \<Rightarrow> mem \<Rightarrow> u8 list run" where
  "mem_cstr (Ptr b off) m =
     (case m b of
        None \<Rightarrow> Fault
      | Some bytes \<Rightarrow> if 0 \<in> set (drop off bytes) then Ret (takeWhile (\<lambda>c. c \<noteq> 0) (drop off bytes)) else Fault)"
| "mem_cstr _ m = Fault"

definition le32 :: "int \<Rightarrow> u8 list" where
  "le32 v = (let w = (word_of_int v :: u32) in [byte0 w, byte1 w, byte2 w, byte3 w])"

definition le64 :: "int \<Rightarrow> u8 list" where
  "le64 v = le32 v @ le32 (v div 2 ^ 32)"

definition read32 :: "u8 list \<Rightarrow> u32" where
  "read32 bs = word4 (bs ! 3) (bs ! 2) (bs ! 1) (bs ! 0)"

definition read_int :: "u8 list \<Rightarrow> int" where "read_int bs = sint (read32 bs)"

definition read_int64 :: "u8 list \<Rightarrow> int" where
  "read_int64 bs = uint (read32 bs) + 2 ^ 32 * sint (read32 (drop 4 bs))"

definition in_s32 :: "int \<Rightarrow> bool" where "in_s32 v \<longleftrightarrow> - (2 ^ 31) \<le> v \<and> v < 2 ^ 31"
definition in_s64 :: "int \<Rightarrow> bool" where "in_s64 v \<longleftrightarrow> - (2 ^ 63) \<le> v \<and> v < 2 ^ 63"

lemma length_le32 [simp]: "length (le32 v) = 4" by (simp add: le32_def Let_def)
lemma length_le64 [simp]: "length (le64 v) = 8" by (simp add: le64_def)

lemma read32_le32 [layout]: "read32 (le32 v @ rest) = word_of_int v"
  by (simp add: read32_def le32_def Let_def word4_bytes)

lemma read_int_le32 [layout]: "in_s32 v \<Longrightarrow> read_int (le32 v) = v"
  using read32_le32 [of v "[]"]
  by (simp add: read_int_def in_s32_def signed_of_int signed_take_bit_int_eq_self_iff)

lemma read_int64_le64 [layout]: "in_s64 v \<Longrightarrow> read_int64 (le64 v) = v"
proof -
  assume v: "in_s64 v"
  have "- (2 ^ 63) div 2 ^ 32 \<le> v div 2 ^ 32" "v div 2 ^ 32 \<le> (2 ^ 63 - 1) div 2 ^ 32"
    using v by (intro zdiv_mono1; simp add: in_s64_def)+
  then have h: "in_s32 (v div 2 ^ 32)" by (simp add: in_s32_def)
  have "read_int64 (le64 v) = v mod 2 ^ 32 + 2 ^ 32 * (v div 2 ^ 32)"
    using read_int_le32 [OF h]
    by (simp add: read_int64_def le64_def read32_le32 uint_word_of_int_eq take_bit_eq_mod read_int_def)
  then show ?thesis by simp
qed

text \<open>Splicing.\<close>

lemma length_overwrite [simp]: "off + length d \<le> length xs \<Longrightarrow> length (overwrite off d xs) = length xs"
  by (simp add: overwrite_def)

lemma overwrite_app [layout]: "length a = off \<Longrightarrow> length b = length d \<Longrightarrow> overwrite off d (a @ b @ c) = a @ d @ c"
  by (simp add: overwrite_def)

lemma take_drop_overwrite_same [layout]:
  "off + length d \<le> length xs \<Longrightarrow> take (length d) (drop off (overwrite off d xs)) = d"
  by (simp add: overwrite_def)

lemma take_drop_overwrite_other [layout]:
  assumes "i + n \<le> off \<or> off + length d \<le> i" "off + length d \<le> length xs"
  shows "take n (drop i (overwrite off d xs)) = take n (drop i xs)"
  using assms(1)
proof
  assume "i + n \<le> off"
  then have "take n (drop i (overwrite off d xs)) = take n (take (off - i) (drop i xs))"
    using assms(2) by (simp add: overwrite_def drop_take)
  then show ?thesis using \<open>i + n \<le> off\<close> by (simp add: min_absorb1)
next
  assume i: "off + length d \<le> i"
  then have "drop i (overwrite off d xs) = drop (i - (off + length d)) (drop (off + length d) xs)"
    using assms(2) by (simp add: overwrite_def)
  also have "\<dots> = drop i xs" using i by simp
  finally show ?thesis by simp
qed

lemma overwrite_adjacent:
  assumes "off + length c + length d \<le> length xs"
  shows "overwrite (off + length c) d (overwrite off c xs) = overwrite off (c @ d) xs"
  using assms by (simp add: overwrite_def add.assoc add.commute [of "length d"])

lemma overwrite_same: "length c = length d \<Longrightarrow> off + length d \<le> length xs \<Longrightarrow> overwrite off c (overwrite off d xs) = overwrite off c xs"
  by (simp add: overwrite_def)

lemma overwrite_prefix:
  "length c \<le> length d \<Longrightarrow> off + length d \<le> length xs \<Longrightarrow>
     overwrite off c (overwrite off d xs) = overwrite off (c @ drop (length c) d) xs"
  by (simp add: overwrite_def)

lemma overwrite_skip: "length a \<le> off \<Longrightarrow> overwrite off d (a @ ys) = a @ overwrite (off - length a) d ys"
  by (simp add: overwrite_def)

lemma overwrite_Cons: "0 < off \<Longrightarrow> overwrite off d (x # ys) = x # overwrite (off - 1) d ys"
  using overwrite_skip [of "[x]" off d ys] by simp

lemma overwrite_here: "length b = length d \<Longrightarrow> overwrite 0 d (b @ c) = d @ c"
  by (simp add: overwrite_def)

lemma store_chars_block:
  assumes "m b = Some bytes" "off + length cs \<le> length bytes"
  shows "store_chars (Ptr b off) cs m = Ret (if cs = [] then m else m(b \<mapsto> overwrite off cs bytes))"
  using assms
proof (induction cs arbitrary: off m bytes)
  case Nil
  then show ?case by simp
next
  case (Cons c cs)
  let ?m = "m(b \<mapsto> overwrite off [c] bytes)"
  have "store_chars (Ptr b (off + 1)) cs ?m =
      Ret (if cs = [] then ?m else ?m(b \<mapsto> overwrite (off + 1) cs (overwrite off [c] bytes)))"
    by (rule Cons.IH) (use Cons.prems in simp_all)
  moreover have "overwrite (off + 1) cs (overwrite off [c] bytes) = overwrite off (c # cs) bytes"
    using overwrite_adjacent [of off "[c]" cs bytes] Cons.prems by simp
  moreover have "overwrite (off + 1) [] (overwrite off [c] bytes) = overwrite off [c] bytes"
    by (simp add: overwrite_def)
  ultimately show ?case using Cons.prems by (cases cs) (simp_all add: fun_eq_iff)
qed

section \<open>The system calls and their wrapper\<close>

text \<open>
  \<open>sys_shmget key sz flags\<close> returns an id (-1 on failure) and \<open>errno\<close>; \<open>sys_shmat id\<close> a pointer and
  \<open>errno\<close>, mapping the segment into the memory; \<open>sys_rmid id\<close> is \<open>shmctl(id, IPC_RMID)\<close>.
\<close>

record 'os shm_api =
  sys_shmget :: "int \<Rightarrow> nat \<Rightarrow> int \<Rightarrow> 'os \<Rightarrow> (int \<times> int) \<times> 'os"
  sys_shmat :: "int \<Rightarrow> 'os \<times> mem \<Rightarrow> (ptr \<times> int) \<times> 'os \<times> mem"
  sys_rmid :: "int \<Rightarrow> 'os \<Rightarrow> 'os"

record 'os world =
  w_mem :: mem
  w_errno :: int
  w_os :: 'os

record SharedMemoryOper =
  shmaddr :: ptr
  oper_shmid :: int

definition new_SharedMemoryOper :: SharedMemoryOper where
  "new_SharedMemoryOper = \<lparr>shmaddr = Null, oper_shmid = -1\<rparr>"

definition IPC_CREAT :: int where "IPC_CREAT = 512"
definition IPC_EXCL :: int where "IPC_EXCL = 1024"
definition EEXIST :: int where "EEXIST = 17"

definition shm_get ::
    "'os shm_api \<Rightarrow> int \<Rightarrow> nat \<Rightarrow> int \<Rightarrow> SharedMemoryOper \<times> 'os world \<Rightarrow> int \<times> SharedMemoryOper \<times> 'os world" where
  "shm_get api key sz flg s =
     (case s of (oper, w) \<Rightarrow>
        (case sys_shmget api key sz flg (w_os w) of ((sid, err), os') \<Rightarrow>
           (sid, oper\<lparr>oper_shmid := sid\<rparr>,
            w\<lparr>w_os := os', w_errno := if sid = -1 then err else w_errno w\<rparr>)))"

definition shm_at ::
    "'os shm_api \<Rightarrow> int \<Rightarrow> SharedMemoryOper \<times> 'os world \<Rightarrow> ptr \<times> SharedMemoryOper \<times> 'os world" where
  "shm_at api sid s =
     (case s of (oper, w) \<Rightarrow>
        (case sys_shmat api sid (w_os w, w_mem w) of ((p, err), os', m') \<Rightarrow>
           (p, oper\<lparr>shmaddr := p\<rparr>,
            w\<lparr>w_os := os', w_mem := m', w_errno := if p = BadPtr then err else w_errno w\<rparr>)))"

definition shm_rmid :: "'os shm_api \<Rightarrow> int \<Rightarrow> 'os world \<Rightarrow> 'os world" where
  "shm_rmid api sid w = w\<lparr>w_os := sys_rmid api sid (w_os w)\<rparr>"

text \<open>\<open>SharedMemoryOper::shmdt\<close> calls itself, not the system call.\<close>

partial_function (option) shm_dt :: "ptr \<Rightarrow> 'os world \<Rightarrow> (int \<times> 'os world) option" where
  "shm_dt p w = shm_dt p w"

lemma shm_dt_loops: "shm_dt p w = None"
proof -
  have "shm_dt p w = Some r \<Longrightarrow> False" for r
    by (rule shm_dt.raw_induct [where P = "\<lambda>_ _ _. False"])
  then show ?thesis by (cases "shm_dt p w") auto
qed

end
