(* ===== verification/Idx_Mgr.thy ===== *)
theory Idx_Mgr
  imports Prelude
begin

text \<open>
  \<^verbatim>\<open>src/stpcomm/stp_idx_mgr.cc\<close>: the pool of free key slots of a crypto group.

  \<open>mgr_idx_set\<close> is a \<open>std::set<int>\<close>: its elements in ascending order without repetition, so that
  \<open>*begin()\<close> is the head.  The contract of the pool is a locale over its set of free indices; the
  code's operations are an instance of it, and the allocation properties are proved once for the
  contract.
\<close>

section \<open>The pool\<close>

record StpIdxMgr =
  mgr_max_idx :: int
  mgr_idx_set :: "int list"

text \<open>The constructor: \<open>abort()\<close> outside 1 to 100000, else a loop that inserts 0 to \<open>max_idx - 1\<close>.\<close>

definition new_StpIdxMgr :: "int \<Rightarrow> StpIdxMgr run" where
  "new_StpIdxMgr max_idx =
     (if max_idx > 100000 \<or> max_idx \<le> 0 then Abort
      else Ret \<lparr>mgr_max_idx = max_idx, mgr_idx_set = fold List.insort_insert [0..max_idx - 1] []\<rparr>)"

definition PopIdx :: "StpIdxMgr \<Rightarrow> int \<times> StpIdxMgr" where
  "PopIdx m =
     (case mgr_idx_set m of
        [] \<Rightarrow> (-1, m)
      | index # _ \<Rightarrow> (index, m\<lparr>mgr_idx_set := remove1 index (mgr_idx_set m)\<rparr>))"

text \<open>The guard joins its two tests with \<open>&&\<close>.\<close>

definition PushIdx :: "int \<Rightarrow> StpIdxMgr \<Rightarrow> bool \<times> StpIdxMgr" where
  "PushIdx idx m =
     (if int (length (mgr_idx_set m)) \<ge> mgr_max_idx m \<and> idx < 0 then (False, m)
      else (True, m\<lparr>mgr_idx_set := List.insort_insert idx (mgr_idx_set m)\<rparr>))"

definition max_idx :: "StpIdxMgr \<Rightarrow> int" where "max_idx m = mgr_max_idx m"

section \<open>The contract of an index pool\<close>

datatype pool_op = Pop | Push int

text \<open>
  \<open>pool_trace\<close> runs a sequence of operations and records the indices held by the callers: a pop adds
  the index it returned, a push takes one away.  A caller pushes only an index that is held.
\<close>

fun pool_trace :: "('p \<Rightarrow> int \<times> 'p) \<Rightarrow> (int \<Rightarrow> 'p \<Rightarrow> bool \<times> 'p) \<Rightarrow> pool_op list \<Rightarrow> 'p \<times> int list \<Rightarrow> 'p \<times> int list" where
  "pool_trace pop push [] s = s"
| "pool_trace pop push (Pop # ops) (p, held) =
     (let (i, p') = pop p in pool_trace pop push ops (p', if i < 0 then held else i # held))"
| "pool_trace pop push (Push i # ops) (p, held) =
     (if i \<in> set held then pool_trace pop push ops (snd (push i p), remove1 i held)
      else pool_trace pop push ops (p, held))"

text \<open>Popping \<open>n\<close> times.\<close>

fun pop_many :: "('p \<Rightarrow> int \<times> 'p) \<Rightarrow> nat \<Rightarrow> 'p \<Rightarrow> int list \<times> 'p" where
  "pop_many pop 0 p = ([], p)"
| "pop_many pop (Suc n) p = (let (i, p') = pop p; (is, p'') = pop_many pop n p' in (i # is, p''))"

locale index_pool =
  fixes free :: "'p \<Rightarrow> int set"
    and wf :: "'p \<Rightarrow> bool"
    and pop :: "'p \<Rightarrow> int \<times> 'p"
    and push :: "int \<Rightarrow> 'p \<Rightarrow> bool \<times> 'p"
  assumes finite_free: "wf p \<Longrightarrow> finite (free p)"
    and pop_empty: "wf p \<Longrightarrow> free p = {} \<Longrightarrow> pop p = (-1, p)"
    and pop_least: "wf p \<Longrightarrow> free p \<noteq> {} \<Longrightarrow> fst (pop p) = Min (free p)"
    and pop_free: "wf p \<Longrightarrow> free p \<noteq> {} \<Longrightarrow> free (snd (pop p)) = free p - {fst (pop p)}"
    and pop_wf: "wf p \<Longrightarrow> wf (snd (pop p))"
    and push_free: "wf p \<Longrightarrow> 0 \<le> i \<Longrightarrow> push i p = (True, snd (push i p)) \<and> free (snd (push i p)) = insert i (free p)"
    and push_wf: "wf p \<Longrightarrow> wf (snd (push i p))"
begin

lemma pop_in_free: "wf p \<Longrightarrow> free p \<noteq> {} \<Longrightarrow> fst (pop p) \<in> free p"
  using pop_least finite_free Min_in by metis

text \<open>The free and the held indices stay a partition of the indices the pool started with.\<close>

definition owned :: "int set \<Rightarrow> 'p \<times> int list \<Rightarrow> bool" where
  "owned U s \<longleftrightarrow> wf (fst s) \<and> distinct (snd s) \<and> free (fst s) \<inter> set (snd s) = {}
     \<and> free (fst s) \<union> set (snd s) = U"

lemma owned_pop:
  assumes "owned U (p, held)" "\<forall>i\<in>U. 0 \<le> i" "pop p = (i, p')"
  shows "owned U (p', if i < 0 then held else i # held)"
proof (cases "free p = {}")
  case True
  then show ?thesis using assms pop_empty [of p] by (auto simp: owned_def)
next
  case False
  have "wf p" using assms(1) by (simp add: owned_def)
  note p = pop_in_free [OF this False] pop_free [OF this False] pop_wf [OF this]
  have "0 \<le> i" using p(1) assms by (auto simp: owned_def)
  then show ?thesis using assms(1,3) p by (auto simp: owned_def)
qed

lemma owned_push:
  assumes "owned U (p, held)" "\<forall>i\<in>U. 0 \<le> i" "i \<in> set held"
  shows "owned U (snd (push i p), remove1 i held)"
proof -
  have "wf p" "0 \<le> i" using assms by (auto simp: owned_def)
  then show ?thesis using assms(1,3) push_free [of p i] push_wf [of p i] by (auto simp: owned_def)
qed

lemma trace_owned:
  "owned U s \<Longrightarrow> \<forall>i\<in>U. 0 \<le> i \<Longrightarrow> owned U (pool_trace pop push ops s)"
proof (induction ops arbitrary: s)
  case Nil
  then show ?case by simp
next
  case (Cons x ops)
  obtain p held where s: "s = (p, held)" by fastforce
  obtain i p' where i: "pop p = (i, p')" by fastforce
  show ?case
    using Cons.IH Cons.prems owned_pop [OF _ Cons.prems(2) i, of held] owned_push [of U p held]
    by (cases x) (auto simp: s i)
qed

text \<open>Popping from a fresh pool hands out the free indices in ascending order, then -1.\<close>

lemma pop_many_sorted:
  assumes "wf p" "n \<le> card (free p)"
  shows "fst (pop_many pop n p) = take n (sorted_list_of_set (free p))
    \<and> wf (snd (pop_many pop n p)) \<and> card (free (snd (pop_many pop n p))) = card (free p) - n"
  using assms
proof (induction n arbitrary: p)
  case 0
  then show ?case by simp
next
  case (Suc n)
  have ne: "free p \<noteq> {}" using Suc.prems by auto
  note fin = finite_free [OF Suc.prems(1)]
  obtain i p' where i: "pop p = (i, p')" by fastforce
  have e: "i = Min (free p)" "free p' = free p - {i}" "wf p'"
    using pop_least [OF Suc.prems(1) ne] pop_free [OF Suc.prems(1) ne] pop_wf [OF Suc.prems(1)] i by simp_all
  have "i \<in> free p" using Min_in [OF fin ne] e(1) by simp
  then have c: "card (free p') = card (free p) - 1" using fin by (simp add: e(2))
  have "sorted_list_of_set (free p) = i # sorted_list_of_set (free p')"
    using sorted_list_of_set_nonempty [OF fin ne] by (simp add: e)
  then show ?case using Suc.IH [OF e(3)] c Suc.prems(2) i by (cases "pop_many pop n p'") simp
qed

lemma pop_exhausted:
  assumes "wf p"
  shows "fst (pop (snd (pop_many pop (card (free p)) p))) = -1"
proof -
  have "wf (snd (pop_many pop (card (free p)) p))" "card (free (snd (pop_many pop (card (free p)) p))) = 0"
    using pop_many_sorted [OF assms order_refl] by simp_all
  then show ?thesis using finite_free pop_empty by (metis card_eq_0_iff fst_conv)
qed

end

section \<open>The code's pool is such a pool\<close>

definition pool_wf :: "StpIdxMgr \<Rightarrow> bool" where
  "pool_wf m \<longleftrightarrow> sorted (mgr_idx_set m) \<and> distinct (mgr_idx_set m)"

definition pool_free :: "StpIdxMgr \<Rightarrow> int set" where
  "pool_free m = set (mgr_idx_set m)"

interpretation idx: index_pool pool_free pool_wf PopIdx PushIdx
proof
  fix p :: StpIdxMgr and i :: int
  assume wf: "pool_wf p"
  show "finite (pool_free p)" by (simp add: pool_free_def)
  show "pool_wf (snd (PopIdx p))"
    using wf by (auto simp: PopIdx_def pool_wf_def split: list.split)
  show "pool_wf (snd (PushIdx i p))"
    using wf by (auto simp: PushIdx_def pool_wf_def sorted_insort_insert distinct_insort_insert)
  show "PushIdx i p = (True, snd (PushIdx i p)) \<and> pool_free (snd (PushIdx i p)) = insert i (pool_free p)"
    if "0 \<le> i" using that by (auto simp: PushIdx_def pool_free_def set_insort_insert)
  show "PopIdx p = (-1, p)" if "pool_free p = {}"
    using that by (simp add: PopIdx_def pool_free_def)
  assume "pool_free p \<noteq> {}"
  then obtain j js where j: "mgr_idx_set p = j # js" by (auto simp: pool_free_def neq_Nil_conv)
  then show "fst (PopIdx p) = Min (pool_free p)"
    using wf by (auto simp: PopIdx_def pool_free_def pool_wf_def intro: Min_eqI [symmetric])
  show "pool_free (snd (PopIdx p)) = pool_free p - {fst (PopIdx p)}"
    using j wf by (auto simp: PopIdx_def pool_free_def pool_wf_def)
qed

lemma fold_insort_upto:
  "fold List.insort_insert xs ys = zs \<Longrightarrow> sorted ys \<Longrightarrow> distinct ys \<Longrightarrow>
     set zs = set xs \<union> set ys \<and> sorted zs \<and> distinct zs"
  by (induction xs arbitrary: ys) (auto simp: set_insort_insert sorted_insort_insert distinct_insort_insert)

lemma new_pool:
  assumes "0 < n" "n \<le> 100000"
  obtains m where "new_StpIdxMgr n = Ret m" "pool_wf m" "pool_free m = {0..<n}" "max_idx m = n"
proof -
  let ?m = "\<lparr>mgr_max_idx = n, mgr_idx_set = fold List.insort_insert [0..n - 1] []\<rparr>"
  have f: "set (fold List.insort_insert [0..n - 1] []) = set [0..n - 1] \<union> set []
      \<and> sorted (fold List.insort_insert [0..n - 1] []) \<and> distinct (fold List.insort_insert [0..n - 1] [])"
    by (rule fold_insort_upto [OF refl]) simp_all
  then have "pool_wf ?m" by (simp add: pool_wf_def)
  moreover have "set [0..n - 1] \<union> set [] = {0..<n}" by auto
  then have "pool_free ?m = {0..<n}" using f by (simp only: pool_free_def StpIdxMgr.select_convs)
  ultimately show thesis using assms by (intro that [of ?m]) (simp_all add: new_StpIdxMgr_def max_idx_def)
qed

lemma new_pool_aborts: "new_StpIdxMgr n = Abort \<longleftrightarrow> n \<le> 0 \<or> 100000 < n"
  by (auto simp: new_StpIdxMgr_def)

lemma max_idx_pop [simp]: "max_idx (snd (PopIdx m)) = max_idx m"
  by (simp add: PopIdx_def max_idx_def split: list.split)

lemma max_idx_push [simp]: "max_idx (snd (PushIdx i m)) = max_idx m"
  by (simp add: PushIdx_def max_idx_def)

section \<open>Properties\<close>

text \<open>
  C9. No key slot is handed out twice: starting from a fresh pool of \<open>n\<close> indices, after any sequence
  of pops and of pushes of held indices, the indices held by the callers are pairwise distinct,
  none of them is free, and together with the free ones they are exactly 0 to \<open>n - 1\<close>.
\<close>

theorem pool_no_double_allocation:
  assumes "new_StpIdxMgr n = Ret m" "pool_trace PopIdx PushIdx ops (m, []) = (m', held)"
  shows "distinct held \<and> set held \<inter> pool_free m' = {} \<and> set held \<union> pool_free m' = {0..<n}"
proof -
  have "0 < n" "n \<le> 100000" using assms(1) by (auto simp: new_StpIdxMgr_def split: if_splits)
  then have "idx.owned {0..<n} (m, [])"
    using new_pool [of n] assms(1) by (metis Int_empty_right Un_empty_right distinct.simps(1) empty_set
        fst_conv idx.owned_def run.inject snd_conv)
  then have "idx.owned {0..<n} (m', held)"
    using idx.trace_owned [of "{0..<n}" "(m, [])" ops] assms(2) by simp
  then show ?thesis by (auto simp: idx.owned_def)
qed

theorem pool_no_double_allocation_witness:
  "distinct [2 :: int, 0] \<and> set [2, 0] \<inter> pool_free \<lparr>mgr_max_idx = 3, mgr_idx_set = [1]\<rparr> = {}
    \<and> set [2, 0] \<union> pool_free \<lparr>mgr_max_idx = 3, mgr_idx_set = [1]\<rparr> = {0..<3}"
proof (rule pool_no_double_allocation)
  show "new_StpIdxMgr 3 = Ret \<lparr>mgr_max_idx = 3, mgr_idx_set = [0, 1, 2]\<rparr>"
    by (simp add: new_StpIdxMgr_def upto.simps List.insort_insert_key_def)
  show "pool_trace PopIdx PushIdx [Pop, Pop, Pop, Push 1] (\<lparr>mgr_max_idx = 3, mgr_idx_set = [0, 1, 2]\<rparr>, []) =
      (\<lparr>mgr_max_idx = 3, mgr_idx_set = [1]\<rparr>, [2, 0])"
    by (simp add: PopIdx_def PushIdx_def List.insort_insert_key_def)
qed

text \<open>
  A fresh pool of \<open>n\<close> indices (which exists exactly for \<open>n\<close> from 1 to 100000) hands out 0, 1, ...,
  \<open>n - 1\<close> in this order, and then -1.
\<close>

theorem pool_pops_in_order:
  assumes "new_StpIdxMgr n = Ret m"
  shows "fst (pop_many PopIdx (nat n) m) = [0..n - 1] \<and> fst (PopIdx (snd (pop_many PopIdx (nat n) m))) = -1"
proof -
  have "0 < n" "n \<le> 100000" using assms by (auto simp: new_StpIdxMgr_def split: if_splits)
  then have m: "pool_wf m" "pool_free m = {0..<n}" using new_pool [of n] assms by (metis run.inject)+
  have s: "set [0..n - 1] = {0..<n}" by auto
  have "sorted_list_of_set {0..<n} = [0..n - 1]"
    unfolding s [symmetric] by (rule sorted_list_of_set.idem_if_sorted_distinct) simp_all
  then show ?thesis
    using idx.pop_many_sorted [OF m(1), of "nat n"] idx.pop_exhausted [OF m(1)] by (simp add: m(2))
qed

theorem pool_pops_in_order_witness:
  "fst (pop_many PopIdx (nat 2) \<lparr>mgr_max_idx = 2, mgr_idx_set = [0, 1]\<rparr>) = [0..2 - 1]"
  using pool_pops_in_order [of 2 "\<lparr>mgr_max_idx = 2, mgr_idx_set = [0, 1]\<rparr>"]
  by (simp add: new_StpIdxMgr_def upto.simps List.insort_insert_key_def)

text \<open>
  \<open>PushIdx\<close> does not keep the pool within its range: a pool that is not full accepts every index,
  negative or beyond \<open>max_idx\<close>, and a negative one below all free indices is what the next \<open>PopIdx\<close>
  returns.
\<close>

theorem push_accepts_any_index:
  assumes "pool_wf m" "int (card (pool_free m)) < max_idx m"
  shows "fst (PushIdx i m) \<and> i \<in> pool_free (snd (PushIdx i m))
    \<and> ((\<forall>j\<in>pool_free m. i < j) \<longrightarrow> fst (PopIdx (snd (PushIdx i m))) = i)"
proof -
  have "int (length (mgr_idx_set m)) < mgr_max_idx m"
    using assms by (simp add: pool_wf_def pool_free_def max_idx_def distinct_card)
  then have p: "PushIdx i m = (True, m\<lparr>mgr_idx_set := List.insort_insert i (mgr_idx_set m)\<rparr>)"
    by (simp add: PushIdx_def)
  then have f: "pool_free (snd (PushIdx i m)) = insert i (pool_free m)"
    by (simp add: pool_free_def set_insort_insert)
  have "Min (insert i (pool_free m)) = i" if "\<forall>j\<in>pool_free m. i < j"
    using that by (intro Min_eqI) (auto simp: pool_free_def)
  then show ?thesis
    using idx.pop_least [OF idx.push_wf [OF assms(1), of i]] p f by auto
qed

theorem push_accepts_any_index_witness:
  "fst (PopIdx (snd (PushIdx (-5) \<lparr>mgr_max_idx = 2, mgr_idx_set = [1]\<rparr>))) = -5"
  using push_accepts_any_index [of "\<lparr>mgr_max_idx = 2, mgr_idx_set = [1]\<rparr>" "-5"]
  by (simp add: pool_wf_def pool_free_def max_idx_def)

end
