(* ===== verification/Crypto_Detail.thy ===== *)
theory Crypto_Detail
  imports Shm Idx_Mgr
begin

text \<open>
  \<^verbatim>\<open>src/stpcomm/stp_crypto_detail.cc\<close>: the packed 64-byte key slot \<open>CryptoItem\<close> and the crypto group, a
  shared memory segment of such slots with the pool of its free indices.

  \<open>random()\<close> is a parameter: the stream of its results after \<open>srandom(seed)\<close>.  The log lines, which
  also print the key, are not modelled.
\<close>

section \<open>The key slot\<close>

record CryptoItem =
  ci_group :: int
  ci_idx :: int
  ci_key :: "u8 list"
  ci_use_crypto :: bool
  ci_expires :: int
  ci_zero :: "u8 list"

definition sizeof_CryptoItem :: nat where "sizeof_CryptoItem = 64"

definition item_bytes :: "CryptoItem \<Rightarrow> u8 list" where
  "item_bytes it =
     le32 (ci_group it) @ le32 (ci_idx it) @ ci_key it @ [if ci_use_crypto it then 1 else 0] @
     le64 (ci_expires it) @ ci_zero it"

definition read_item :: "u8 list \<Rightarrow> CryptoItem" where
  "read_item bs =
     \<lparr>ci_group = read_int (take 4 bs), ci_idx = read_int (take 4 (drop 4 bs)), ci_key = take 36 (drop 8 bs),
      ci_use_crypto = (bs ! 44 \<noteq> 0), ci_expires = read_int64 (take 8 (drop 45 bs)),
      ci_zero = take 11 (drop 53 bs)\<rparr>"

definition item_wf :: "CryptoItem \<Rightarrow> bool" where
  "item_wf it \<longleftrightarrow> in_s32 (ci_group it) \<and> in_s32 (ci_idx it) \<and> length (ci_key it) = 36
     \<and> in_s64 (ci_expires it) \<and> length (ci_zero it) = 11"

lemma length_item_bytes: "item_wf it \<Longrightarrow> length (item_bytes it) = sizeof_CryptoItem"
  by (simp add: item_wf_def item_bytes_def sizeof_CryptoItem_def)

lemma read_item_bytes: "item_wf it \<Longrightarrow> read_item (item_bytes it) = it"
  by (simp add: item_wf_def item_bytes_def read_item_def layout nth_append)

text \<open>Assignments to the fields of \<open>*item\<close>, at the offsets of the packed layout.\<close>

definition set_item_group :: "ptr \<Rightarrow> int \<Rightarrow> mem \<Rightarrow> mem run" where
  "set_item_group item v = mem_store item (le32 v)"

definition set_item_idx :: "ptr \<Rightarrow> int \<Rightarrow> mem \<Rightarrow> mem run" where
  "set_item_idx item v = mem_store (ptr_add item 4) (le32 v)"

definition item_key_addr :: "ptr \<Rightarrow> ptr" where "item_key_addr item = ptr_add item 8"

definition set_item_use_crypto :: "ptr \<Rightarrow> bool \<Rightarrow> mem \<Rightarrow> mem run" where
  "set_item_use_crypto item v = mem_store (ptr_add item 44) [if v then 1 else 0]"

definition set_item_expires :: "ptr \<Rightarrow> int \<Rightarrow> mem \<Rightarrow> mem run" where
  "set_item_expires item v = mem_store (ptr_add item 45) (le64 v)"

text \<open>\<open>key_tab\<close>: 0-9, a-z, A-Z.\<close>

definition key_tab :: "u8 list" where
  "key_tab =
    [48, 49, 50, 51, 52, 53, 54, 55, 56, 57,
     97, 98, 99, 100, 101, 102, 103, 104, 105, 106, 107, 108, 109, 110, 111, 112, 113, 114, 115,
     116, 117, 118, 119, 120, 121, 122,
     65, 66, 67, 68, 69, 70, 71, 72, 73, 74, 75, 76, 77, 78, 79, 80, 81, 82, 83, 84, 85, 86, 87,
     88, 89, 90]"

definition random_key :: "(u32 \<Rightarrow> nat \<Rightarrow> nat) \<Rightarrow> int \<Rightarrow> u8 list" where
  "random_key rnd now = map (\<lambda>i. key_tab ! (rnd (word_of_int now) i mod length key_tab)) [0..<32]"

definition GenerateRandomKey :: "(u32 \<Rightarrow> nat \<Rightarrow> nat) \<Rightarrow> int \<Rightarrow> ptr \<Rightarrow> mem \<Rightarrow> mem run" where
  "GenerateRandomKey rnd now item m =
     run_bind (mem_store (item_key_addr item) (replicate 36 0) m)
       (store_chars (item_key_addr item) (random_key rnd now))"

lemma length_random_key [simp]: "length (random_key rnd now) = 32"
  by (simp add: random_key_def)

lemma key_tab_chars: "c \<in> set key_tab \<Longrightarrow> c \<noteq> 0 \<and> c < 128"
  by (auto simp: key_tab_def)

lemma random_key_chars: "c \<in> set (random_key rnd now) \<Longrightarrow> c \<in> set key_tab"
proof -
  assume "c \<in> set (random_key rnd now)"
  then obtain i where c: "c = key_tab ! (rnd (word_of_int now) i mod length key_tab)"
    by (auto simp: random_key_def)
  have "0 < length key_tab" by (simp add: key_tab_def)
  then show ?thesis unfolding c by (intro nth_mem mod_less_divisor)
qed

text \<open>The effect of the assignments on a segment.\<close>

lemma split_item:
  assumes "off + 64 \<le> length seg"
  obtains pre g i k u e z post where "seg = pre @ g @ i @ k @ u @ e @ z @ post" "length pre = off"
    "length g = 4" "length i = 4" "length k = 36" "length u = 1" "length e = 8" "length z = 11"
    "z = ci_zero (read_item (drop off seg))"
proof (rule that)
  let ?f = "\<lambda>n a. take n (drop (off + a) seg)"
  show "seg = take off seg @ ?f 4 0 @ ?f 4 4 @ ?f 36 8 @ ?f 1 44 @ ?f 8 45 @ ?f 11 53 @ drop (off + 64) seg"
  proof -
    have c: "take n (drop a seg) @ drop (n + a) seg = drop a seg" for n a
      by (metis append_take_drop_id drop_drop)
    show ?thesis
      using c [of 11 "off + 53"] c [of 8 "off + 45"] c [of 1 "off + 44"] c [of 36 "off + 8"]
        c [of 4 "off + 4"] c [of 4 off] by (simp add: add.commute)
  qed
  show "?f 11 53 = ci_zero (read_item (drop off seg))"
    by (simp add: read_item_def add.commute)
qed (use assms in simp_all)

lemma GenerateRandomKey_at:
  assumes "m b = Some seg" "off + 36 \<le> length seg"
  shows "run_bind (mem_store (Ptr b off) (replicate 36 0) m) (store_chars (Ptr b off) (random_key rnd now)) =
    Ret (m(b \<mapsto> overwrite off (random_key rnd now @ replicate 4 0) seg))"
proof -
  have s: "mem_store (Ptr b off) (replicate 36 0) m = Ret (m(b \<mapsto> overwrite off (replicate 36 0) seg))"
    using assms by simp
  have ne: "random_key rnd now \<noteq> []" using length_random_key [of rnd now] by (metis list.size(3) zero_neq_numeral)
  have "store_chars (Ptr b off) (random_key rnd now) (m(b \<mapsto> overwrite off (replicate 36 0) seg))
      = Ret (m(b \<mapsto> overwrite off (random_key rnd now) (overwrite off (replicate 36 0) seg)))"
    using store_chars_block [of "m(b \<mapsto> overwrite off (replicate 36 0) seg)" b _ off "random_key rnd now"]
      assms ne by simp
  then show ?thesis using s assms by (simp add: overwrite_prefix)
qed

lemma GenerateRandomKey_block:
  assumes "m b = Some seg" "off + 64 \<le> length seg"
  shows "GenerateRandomKey rnd now (Ptr b off) m =
    Ret (m(b \<mapsto> overwrite (off + 8) (random_key rnd now @ replicate 4 0) seg))"
  using GenerateRandomKey_at [of m b seg "off + 8" rnd now] assms
  by (simp add: GenerateRandomKey_def item_key_addr_def)

text \<open>The C string in the key field: the 32 characters, since four NUL bytes follow.\<close>

lemma takeWhile_key: "takeWhile (\<lambda>c. c \<noteq> 0) (random_key rnd now @ replicate 4 0 @ rest) = random_key rnd now"
  using random_key_chars key_tab_chars by (subst takeWhile_append2) (auto simp: takeWhile_eq_Nil_iff)

section \<open>The crypto group\<close>

record CryptoGroup =
  cg_key :: int
  cg_group :: int
  cg_oper :: SharedMemoryOper
  cg_shmid :: int
  cg_addr :: ptr
  cg_mgr :: StpIdxMgr

text \<open>The constructor leaves \<open>shmid\<close> and \<open>shm_addr\<close> uninitialised: their values are an argument.\<close>

definition new_CryptoGroup :: "int \<times> ptr \<Rightarrow> int \<Rightarrow> int \<Rightarrow> int \<Rightarrow> CryptoGroup run" where
  "new_CryptoGroup junk g mi key =
     run_bind (new_StpIdxMgr mi) (\<lambda>mgr.
       Ret \<lparr>cg_key = key, cg_group = g, cg_oper = new_SharedMemoryOper, cg_shmid = fst junk,
            cg_addr = snd junk, cg_mgr = mgr\<rparr>)"

definition GetCryptoItemByIdx :: "int \<Rightarrow> CryptoGroup \<Rightarrow> ptr" where
  "GetCryptoItemByIdx idx cg =
     (if idx < 0 \<or> idx > max_idx (cg_mgr cg) then Null
      else ptr_add (cg_addr cg) (sizeof_CryptoItem * nat idx))"

text \<open>After the \<open>do ... while (false)\<close>, which every failure leaves by \<open>break\<close>.\<close>

definition attach_failed :: "'os shm_api \<Rightarrow> CryptoGroup \<times> 'os world \<Rightarrow> ptr \<times> CryptoGroup \<times> 'os world" where
  "attach_failed api s =
     (case s of (cg, w) \<Rightarrow> (Null, cg, if cg_shmid cg \<noteq> -1 then shm_rmid api (cg_shmid cg) w else w))"

definition group_shmget ::
    "'os shm_api \<Rightarrow> nat \<Rightarrow> int \<Rightarrow> CryptoGroup \<times> 'os world \<Rightarrow> CryptoGroup \<times> 'os world" where
  "group_shmget api sz flg s =
     (case s of (cg, w) \<Rightarrow>
        (case shm_get api (cg_key cg) sz flg (cg_oper cg, w) of (sid, oper, w') \<Rightarrow>
           (cg\<lparr>cg_shmid := sid, cg_oper := oper\<rparr>, w')))"

definition group_shmat :: "'os shm_api \<Rightarrow> CryptoGroup \<times> 'os world \<Rightarrow> ptr \<times> CryptoGroup \<times> 'os world" where
  "group_shmat api s =
     (case s of (cg, w) \<Rightarrow>
        (case shm_at api (cg_shmid cg) (cg_oper cg, w) of (p, oper, w') \<Rightarrow> (p, cg\<lparr>cg_oper := oper\<rparr>, w')))"

definition TryAttachShm ::
    "'os shm_api \<Rightarrow> nat \<Rightarrow> CryptoGroup \<times> 'os world \<Rightarrow> ptr \<times> CryptoGroup \<times> 'os world" where
  "TryAttachShm api sz s =
     (if cg_key (fst s) = -1 then attach_failed api s
      else
        let s = group_shmget api sz (IPC_CREAT OR IPC_EXCL OR 438) s
        in if cg_shmid (fst s) \<noteq> -1 then attach_failed api s
           else if w_errno (snd s) \<noteq> EEXIST then attach_failed api s
           else
             let s = group_shmget api sz (IPC_CREAT OR 438) s
             in if cg_shmid (fst s) = -1 then attach_failed api s
                else
                  let (addr, s) = group_shmat api s
                  in if addr \<noteq> Null then (addr, s) else attach_failed api s)"

definition CreateShm ::
    "'os shm_api \<Rightarrow> nat \<Rightarrow> CryptoGroup \<times> 'os world \<Rightarrow> bool \<times> CryptoGroup \<times> 'os world" where
  "CreateShm api sz s =
     (if cg_key (fst s) = -1 then (False, s)
      else
        let s = group_shmget api sz (IPC_CREAT OR 438) s
        in if cg_shmid (fst s) = -1 then (False, s)
           else
             let (addr, (cg, w)) = group_shmat api s; cg = cg\<lparr>cg_addr := addr\<rparr>
             in if addr = Null then (False, cg, shm_rmid api (cg_shmid cg) w)
                else (True, cg, w))"

end
