(* ===== verification/Json_Value.thy ===== *)
theory Json_Value
  imports Prelude Complex_Main "HOL-Library.Monad_Syntax"
begin

text \<open>
  The part of \<^verbatim>\<open>src/stputil/json/jsoncpp.cc\<close> the program calls on a parsed document: member
  lookup with a default and the conversions, and the wrapper \<^verbatim>\<open>src/stputil/json_parser.cc\<close>.

  A failed \<open>JSON_ASSERT_MESSAGE\<close> throws: the result is \<open>None\<close>.  A double is its real value (the
  reader produces no infinity or NaN), an object is the list of its members.
\<close>

section \<open>Values\<close>

datatype json =
    NullValue
  | IntValue int
  | UIntValue int
  | RealValue real
  | StringValue "u8 list"
  | BooleanValue bool
  | ArrayValue "json list"
  | ObjectValue "(u8 list \<times> json) list"

definition minInt :: int where "minInt = - (2 ^ 31)"
definition maxInt :: int where "maxInt = 2 ^ 31 - 1"
definition maxUInt64 :: int where "maxUInt64 = 2 ^ 64 - 1"

definition IsIntegral :: "real \<Rightarrow> bool" where
  "IsIntegral d \<longleftrightarrow> d = of_int \<lfloor>d\<rfloor>"

text \<open>Conversion of a double to an integer type drops the fraction.\<close>

definition trunc_real :: "real \<Rightarrow> int" where
  "trunc_real d = (if d < 0 then - \<lfloor>- d\<rfloor> else \<lfloor>d\<rfloor>)"

definition InRange :: "real \<Rightarrow> int \<Rightarrow> int \<Rightarrow> bool" where
  "InRange d lo hi \<longleftrightarrow> d \<ge> of_int lo \<and> d \<le> of_int hi"

definition isInt :: "json \<Rightarrow> bool" where
  "isInt v =
     (case v of
        IntValue i \<Rightarrow> i \<ge> minInt \<and> i \<le> maxInt
      | UIntValue u \<Rightarrow> u \<le> maxInt
      | RealValue d \<Rightarrow> d \<ge> of_int minInt \<and> d \<le> of_int maxInt \<and> IsIntegral d
      | _ \<Rightarrow> False)"

text \<open>\<open>maxUInt64\<close> rounds to \<open>2^64\<close> as a double, hence the strict comparison.\<close>

definition isUInt64 :: "json \<Rightarrow> bool" where
  "isUInt64 v =
     (case v of
        IntValue i \<Rightarrow> i \<ge> 0
      | UIntValue u \<Rightarrow> True
      | RealValue d \<Rightarrow> d \<ge> 0 \<and> d < 2 ^ 64 \<and> IsIntegral d
      | _ \<Rightarrow> False)"

definition asInt :: "json \<Rightarrow> int option" where
  "asInt v =
     (case v of
        IntValue i \<Rightarrow> if isInt v then Some i else None
      | UIntValue u \<Rightarrow> if isInt v then Some u else None
      | RealValue d \<Rightarrow> if InRange d minInt maxInt then Some (trunc_real d) else None
      | NullValue \<Rightarrow> Some 0
      | BooleanValue b \<Rightarrow> Some (if b then 1 else 0)
      | _ \<Rightarrow> None)"

text \<open>
  In \<open>asUInt64\<close> the range of a double is checked against \<open>maxUInt64\<close> converted to double, that is \<open>2^64\<close>
  included; the conversion of \<open>2^64\<close> itself is undefined, and the parameter \<open>ovf\<close> its result.
\<close>

definition asUInt64 :: "int \<Rightarrow> json \<Rightarrow> int option" where
  "asUInt64 ovf v =
     (case v of
        IntValue i \<Rightarrow> if isUInt64 v then Some i else None
      | UIntValue u \<Rightarrow> Some u
      | RealValue d \<Rightarrow> if d \<ge> 0 \<and> d \<le> 2 ^ 64 then Some (if d = 2 ^ 64 then ovf else trunc_real d) else None
      | NullValue \<Rightarrow> Some 0
      | BooleanValue b \<Rightarrow> Some (if b then 1 else 0)
      | _ \<Rightarrow> None)"

definition asBool :: "json \<Rightarrow> bool option" where
  "asBool v =
     (case v of
        BooleanValue b \<Rightarrow> Some b
      | NullValue \<Rightarrow> Some False
      | IntValue i \<Rightarrow> Some (i \<noteq> 0)
      | UIntValue u \<Rightarrow> Some (u \<noteq> 0)
      | RealValue d \<Rightarrow> Some (d \<noteq> 0)
      | _ \<Rightarrow> None)"

text \<open>The result of \<open>asCString\<close> is read as a C string, up to its first NUL.\<close>

definition asCString :: "json \<Rightarrow> u8 list option" where
  "asCString v = (case v of StringValue s \<Rightarrow> Some (takeWhile (\<lambda>c. c \<noteq> 0) s) | _ \<Rightarrow> None)"

definition find_member :: "json \<Rightarrow> u8 list \<Rightarrow> json option option" where
  "find_member v key =
     (case v of
        NullValue \<Rightarrow> Some None
      | ObjectValue ms \<Rightarrow> Some (map_of ms key)
      | _ \<Rightarrow> None)"

definition get_member :: "json \<Rightarrow> u8 list \<Rightarrow> json \<Rightarrow> json option" where
  "get_member v key dflt =
     (case find_member v key of
        None \<Rightarrow> None
      | Some None \<Rightarrow> Some dflt
      | Some (Some x) \<Rightarrow> Some x)"

section \<open>JsonParser\<close>

definition GetInteger :: "json \<Rightarrow> u8 list \<Rightarrow> int \<Rightarrow> int option" where
  "GetInteger doc key d = Option.bind (get_member doc key (IntValue d)) asInt"

definition GetUint64 :: "int \<Rightarrow> json \<Rightarrow> u8 list \<Rightarrow> int \<Rightarrow> int option" where
  "GetUint64 ovf doc key d = Option.bind (get_member doc key (UIntValue d)) (asUInt64 ovf)"

definition GetBoolean :: "json \<Rightarrow> u8 list \<Rightarrow> bool \<Rightarrow> bool option" where
  "GetBoolean doc key d = Option.bind (get_member doc key (BooleanValue d)) asBool"

definition GetString :: "json \<Rightarrow> u8 list \<Rightarrow> u8 list \<Rightarrow> u8 list option" where
  "GetString doc key d = Option.bind (get_member doc key (StringValue d)) asCString"

text \<open>\<open>GetInteger\<close> returns a value of type \<open>int\<close> whenever it returns.\<close>

lemma asInt_range: "asInt v = Some i \<Longrightarrow> (\<And>u. v = UIntValue u \<Longrightarrow> 0 \<le> u) \<Longrightarrow> minInt \<le> i \<and> i \<le> maxInt"
proof (cases v)
  case (RealValue d)
  assume "asInt v = Some i"
  with RealValue have d: "of_int minInt \<le> d" "d \<le> of_int maxInt" "i = trunc_real d"
    by (simp_all add: asInt_def InRange_def split: if_splits)
  show ?thesis
  proof (cases "d < 0")
    case True
    define n where "n = \<lfloor>- d\<rfloor>"
    have "n \<le> - minInt" using d(1) by (simp add: n_def floor_le_iff)
    moreover have "0 \<le> n" using True by (simp add: n_def)
    moreover have "i = - n" using True d(3) by (simp add: trunc_real_def n_def)
    ultimately show ?thesis by (simp add: minInt_def maxInt_def)
  next
    case False
    have "\<lfloor>d\<rfloor> \<le> maxInt" using d(2) by (simp add: floor_le_iff)
    moreover have "0 \<le> \<lfloor>d\<rfloor>" using False by simp
    ultimately show ?thesis using False d(3) by (simp add: trunc_real_def minInt_def)
  qed
qed (auto simp: asInt_def isInt_def minInt_def maxInt_def split: if_splits)

end
