(* ===== verification/Config_Parser.thy ===== *)
theory Config_Parser
  imports Json_Value
begin

text \<open>
  \<^verbatim>\<open>src/stpserver/config_parser.cc\<close> and \<^verbatim>\<open>src/stpclient/config_parser.cc\<close>: the two configurations,
  read from the parsed document.  Opening and parsing the file is \<open>JsonParser::Parse\<close>, whose outcome
  is an argument: \<open>None\<close> when it returns false.  An exception of a conversion is \<open>None\<close>.
\<close>

section \<open>The server\<close>

record svr_config =
  svr_port :: "16 word"
  event_thread_cnt :: int
  max_group :: int
  cfg_max_idx :: int
  path :: "u8 list"
  flag :: int
  token_expires :: int
  db_addr :: "u8 list"
  db_user :: "u8 list"
  db_passwd :: "u8 list"
  db_port :: int
  database :: "u8 list"

definition svr_ParseProfile :: "json option \<Rightarrow> svr_config \<Rightarrow> (bool \<times> svr_config) option" where
  "svr_ParseProfile parsed cfg =
     (case parsed of
        None \<Rightarrow> Some (False, cfg)
      | Some doc \<Rightarrow>
          do {
            port \<leftarrow> GetInteger doc (str ''svr_port'') 9999;
            threads \<leftarrow> GetInteger doc (str ''event_thread_cnt'') 3;
            groups \<leftarrow> GetInteger doc (str ''max_group'') 4;
            idxs \<leftarrow> GetInteger doc (str ''max_idx'') 100;
            pth \<leftarrow> GetString doc (str ''path'') (str '''');
            flg \<leftarrow> GetInteger doc (str ''max_idx'') 100;
            texp \<leftarrow> GetInteger doc (str ''token_expires'') 7200;
            addr \<leftarrow> GetString doc (str ''db_addr'') (str ''127.0.0.1'');
            user \<leftarrow> GetString doc (str ''db_user'') (str ''root'');
            passwd \<leftarrow> GetString doc (str ''db_passwd'') (str ''root'');
            dport \<leftarrow> GetInteger doc (str ''db_port'') 3306;
            dbase \<leftarrow> GetString doc (str ''database'') (str ''stp'');
            Some (True, \<lparr>svr_port = word_of_int port, event_thread_cnt = threads, max_group = groups,
              cfg_max_idx = idxs, path = pth, flag = flg, token_expires = texp, db_addr = addr,
              db_user = user, db_passwd = passwd, db_port = dport, database = dbase\<rparr>)
          })"

section \<open>The client\<close>

record clnt_config =
  clnt_svr_ip :: "u8 list"
  clnt_svr_port :: "16 word"
  clnt_path :: "u8 list"
  clnt_flag :: int
  clnt_stp_guid :: int
  clnt_max_idx :: int

definition clnt_ParseProfile :: "int \<Rightarrow> json option \<Rightarrow> clnt_config \<Rightarrow> (bool \<times> clnt_config) option" where
  "clnt_ParseProfile ovf parsed cfg =
     (case parsed of
        None \<Rightarrow> Some (False, cfg)
      | Some doc \<Rightarrow>
          do {
            ip \<leftarrow> GetString doc (str ''svr_ip'') (str ''127.0.0.1'');
            port \<leftarrow> GetInteger doc (str ''svr_port'') 9999;
            pth \<leftarrow> GetString doc (str ''path'') (str '''');
            flg \<leftarrow> GetInteger doc (str ''max_idx'') 100;
            guid \<leftarrow> GetUint64 ovf doc (str ''stp_guid'') 0;
            idxs \<leftarrow> GetInteger doc (str ''max_idx'') 1;
            Some (True, \<lparr>clnt_svr_ip = ip, clnt_svr_port = word_of_int port, clnt_path = pth,
              clnt_flag = flg, clnt_stp_guid = guid, clnt_max_idx = idxs\<rparr>)
          })"

section \<open>Properties\<close>

lemmas option_binds = Option.bind_eq_Some_conv

lemma svr_flag: "svr_ParseProfile (Some doc) cfg = Some (True, cfg') \<Longrightarrow> flag cfg' = cfg_max_idx cfg'"
  by (auto simp: svr_ParseProfile_def option_binds)

lemma svr_reads:
  "svr_ParseProfile (Some doc) cfg = Some (True, cfg') \<Longrightarrow>
     GetInteger doc (str ''max_idx'') 100 = Some (cfg_max_idx cfg') \<and>
     GetInteger doc (str ''max_group'') 4 = Some (max_group cfg') \<and>
     GetInteger doc (str ''token_expires'') 7200 = Some (token_expires cfg')"
  by (auto simp: svr_ParseProfile_def option_binds)

text \<open>
  The \<open>flag\<close> of the server's configuration is always its \<open>max_idx\<close>: the member \<open>flag\<close> of the document
  is not read, so two documents that differ only there give the same configuration.
\<close>

theorem svr_flag_ignored:
  assumes "svr_ParseProfile (Some (ObjectValue ms)) cfg = Some (True, cfg')"
  shows "flag cfg' = cfg_max_idx cfg'
    \<and> svr_ParseProfile (Some (ObjectValue ((str ''flag'', v) # ms))) cfg = Some (True, cfg')"
proof -
  have "get_member (ObjectValue ((str ''flag'', v) # ms)) key d = get_member (ObjectValue ms) key d"
    if "key \<noteq> str ''flag''" for key d
    using that by (simp add: get_member_def find_member_def)
  then have "GetInteger (ObjectValue ((str ''flag'', v) # ms)) key d = GetInteger (ObjectValue ms) key d"
    "GetString (ObjectValue ((str ''flag'', v) # ms)) key s = GetString (ObjectValue ms) key s"
    if "key \<noteq> str ''flag''" for key d s
    using that by (simp_all add: GetInteger_def GetString_def)
  moreover have "length key \<noteq> 4 \<Longrightarrow> str key \<noteq> str ''flag''" for key
    by (auto simp: str_def dest: arg_cong [where f = length])
  moreover have "str ''path'' \<noteq> str ''flag''" by (simp add: str_def)
  ultimately have "svr_ParseProfile (Some (ObjectValue ((str ''flag'', v) # ms))) cfg =
      svr_ParseProfile (Some (ObjectValue ms)) cfg"
    by (simp add: svr_ParseProfile_def)
  then show ?thesis using svr_flag [OF assms] assms by simp
qed

definition svr_config0 :: svr_config where
  "svr_config0 = \<lparr>svr_port = 0, event_thread_cnt = 0, max_group = 0, cfg_max_idx = 0, path = [],
     flag = 0, token_expires = 0, db_addr = [], db_user = [], db_passwd = [], db_port = 0, database = []\<rparr>"

text \<open>The shipped \<^verbatim>\<open>stpsvr.json\<close> spells the key \<open>max_idx_\<close>: the default 100 is used whatever it holds.\<close>

definition empty_document_config :: svr_config where
  "empty_document_config = \<lparr>svr_port = 9999, event_thread_cnt = 3, max_group = 4, cfg_max_idx = 100,
     path = [], flag = 100, token_expires = 7200, db_addr = str ''127.0.0.1'', db_user = str ''root'',
     db_passwd = str ''root'', db_port = 3306, database = str ''stp''\<rparr>"

lemma str_no_nul: "0 \<notin> set (map of_char s :: u8 list) \<Longrightarrow> takeWhile (\<lambda>c. c \<noteq> 0) (str s) = str s"
  by (auto simp: str_def takeWhile_eq_all_conv)

lemma parse_empty: "svr_ParseProfile (Some (ObjectValue [])) svr_config0 = Some (True, empty_document_config)"
  by (simp add: svr_ParseProfile_def GetInteger_def GetString_def get_member_def find_member_def asInt_def
      isInt_def minInt_def maxInt_def asCString_def empty_document_config_def str_def)

theorem svr_flag_ignored_witness:
  "svr_ParseProfile (Some (ObjectValue [(str ''flag'', IntValue 1)])) svr_config0 = Some (True, empty_document_config)"
  using svr_flag_ignored [OF parse_empty] by blast

end
