(* ===== verification/Negotiate.thy ===== *)
theory Negotiate
  imports Crypto_Detail Config_Parser "HOL-Library.AList"
begin

text \<open>
  \<^verbatim>\<open>src/stpcomm/stp_crypto_negotiate.cc\<close>: the server's table of crypto groups and the negotiation of a
  key.  \<open>std::map\<close> is an association list; \<open>operator[]\<close> inserts a default-constructed group for a
  missing key.  The reference \<open>cg\<close> into the map is the key it was taken at.  \<open>ftok\<close>, the shared
  memory calls, \<open>random()\<close> and the values of uninitialised fields are a parameter; the two readings
  of \<open>time(NULL)\<close> are arguments.
\<close>

record 'os env =
  env_shm :: "'os shm_api"
  env_ftok :: "u8 list \<Rightarrow> int \<Rightarrow> int"
  env_random :: "u32 \<Rightarrow> nat \<Rightarrow> nat"
  env_junk :: "int \<times> ptr"

record negotiate =
  shm_map :: "(int \<times> CryptoGroup) list"
  cur_group :: int
  initialized :: bool

definition negotiate0 :: negotiate where
  "negotiate0 = \<lparr>shm_map = [], cur_group = 0, initialized = False\<rparr>"

definition put_group :: "int \<Rightarrow> CryptoGroup \<Rightarrow> negotiate \<Rightarrow> negotiate" where
  "put_group k cg n = n\<lparr>shm_map := AList.update k cg (shm_map n)\<rparr>"

text \<open>\<open>shm_map_.insert(make_pair(k, cg))\<close> keeps an existing entry.\<close>

definition insert_group :: "int \<Rightarrow> CryptoGroup \<Rightarrow> negotiate \<Rightarrow> negotiate" where
  "insert_group k cg n = (if map_of (shm_map n) k = None then put_group k cg n else n)"

text \<open>\<open>shm_map_[k]\<close>\<close>

definition group_at :: "'os env \<Rightarrow> int \<Rightarrow> negotiate \<Rightarrow> (CryptoGroup \<times> negotiate) run" where
  "group_at env k n =
     (case map_of (shm_map n) k of
        Some cg \<Rightarrow> Ret (cg, n)
      | None \<Rightarrow> run_bind (new_CryptoGroup (env_junk env) (-1) (-1) (-1)) (\<lambda>cg. Ret (cg, put_group k cg n)))"

definition segment_size :: "svr_config \<Rightarrow> nat" where
  "segment_size cfg = nat (cfg_max_idx cfg) * sizeof_CryptoItem"

section \<open>Init\<close>

text \<open>The loop that attaches the segments that already exist.\<close>

fun init_groups :: "'os env \<Rightarrow> svr_config \<Rightarrow> int list \<Rightarrow> negotiate \<times> 'os world \<Rightarrow> (negotiate \<times> 'os world) run" where
  "init_groups env cfg [] s = Ret s"
| "init_groups env cfg (i # is) (n, w) =
     run_bind (new_CryptoGroup (env_junk env) i (cfg_max_idx cfg) (env_ftok env (path cfg) i)) (\<lambda>cg.
       case TryAttachShm (env_shm env) (segment_size cfg) (cg, w) of (addr, cg, w) \<Rightarrow>
         init_groups env cfg is
           (if addr \<noteq> Null then (insert_group i (cg\<lparr>cg_addr := addr\<rparr>) n)\<lparr>cur_group := i\<rparr> else n, w))"

definition Init :: "'os env \<Rightarrow> svr_config \<Rightarrow> negotiate \<times> 'os world \<Rightarrow> (bool \<times> negotiate \<times> 'os world) run" where
  "Init env cfg s =
     (case s of (n, w) \<Rightarrow>
        if initialized n then Ret (True, n, w)
        else
          run_bind (init_groups env cfg [0..max_group cfg - 1] (n\<lparr>shm_map := []\<rparr>, w)) (\<lambda>(n, w).
            if shm_map n = [] then
              run_bind (new_CryptoGroup (env_junk env) 0 (cfg_max_idx cfg) (env_ftok env (path cfg) 0)) (\<lambda>cg.
                case CreateShm (env_shm env) (segment_size cfg) (cg, w) of (ok, cg, w) \<Rightarrow>
                  if \<not> ok then Ret (False, n, w)
                  else Ret (True, (insert_group 0 cg (n\<lparr>cur_group := 0\<rparr>))\<lparr>initialized := True\<rparr>, w))
            else Ret (True, n\<lparr>initialized := True\<rparr>, w)))"

section \<open>CryptoNegotiate\<close>

text \<open>
  The branch of a first negotiation.  \<open>Inl\<close>: the function returns false; \<open>Inr\<close>: it goes on with these
  values of \<open>group\<close> and \<open>idx\<close>.  \<open>k\<close> is the key \<open>cg\<close> refers to.
\<close>

definition first_negotiation ::
    "'os env \<Rightarrow> svr_config \<Rightarrow> int \<Rightarrow> CryptoGroup \<Rightarrow> int \<times> int \<Rightarrow> negotiate \<times> 'os world \<Rightarrow>
     (negotiate \<times> 'os world + (int \<times> int) \<times> negotiate \<times> 'os world) run" where
  "first_negotiation env cfg k cg args s =
     (case (args, s) of ((grp, idx), (n, w)) \<Rightarrow>
        case PopIdx (cg_mgr cg) of (unused_idx, mgr) \<Rightarrow>
          let n = put_group k (cg\<lparr>cg_mgr := mgr\<rparr>) n
          in if unused_idx \<noteq> -1 then Ret (Inr ((grp, idx), n, w))
             else
               let n = n\<lparr>cur_group := cur_group n + 1\<rparr>
               in run_bind (group_at env (cur_group n) n) (\<lambda>(cg, n).
                    let cg = cg\<lparr>cg_group := grp\<rparr>
                    in case PopIdx (cg_mgr cg) of (unused_idx, mgr) \<Rightarrow>
                       case CreateShm (env_shm env) (segment_size cfg) (cg\<lparr>cg_mgr := mgr\<rparr>, w) of (ok, cg, w) \<Rightarrow>
                         if \<not> ok then
                           Ret (Inl (put_group k (cg\<lparr>cg_group := -1\<rparr>) (n\<lparr>cur_group := cur_group n - 1\<rparr>), w))
                         else
                           run_bind (mem_store (GetCryptoItemByIdx unused_idx cg) (replicate sizeof_CryptoItem 0) (w_mem w))
                             (\<lambda>m. Ret (Inr ((cur_group n, unused_idx), put_group k cg n, w\<lparr>w_mem := m\<rparr>)))))"

text \<open>The assignments to the slot, and the key read back from it.\<close>

definition fill_item ::
    "'os env \<Rightarrow> int \<Rightarrow> ptr \<Rightarrow> int \<Rightarrow> int \<Rightarrow> int \<Rightarrow> mem \<Rightarrow> (u8 list \<times> mem) run" where
  "fill_item env now item grp idx expires m =
     run_bind (set_item_group item grp m) (\<lambda>m.
     run_bind (set_item_idx item idx m) (\<lambda>m.
     run_bind (set_item_use_crypto item True m) (\<lambda>m.
     run_bind (set_item_expires item expires m) (\<lambda>m.
     run_bind (GenerateRandomKey (env_random env) now item m) (\<lambda>m.
     run_bind (mem_cstr (item_key_addr item) m) (\<lambda>key. Ret (key, m)))))))"

record nego_args =
  a_group :: int
  a_idx :: int
  a_expires :: int
  a_key :: "u8 list"

definition negotiate_item ::
    "'os env \<Rightarrow> svr_config \<Rightarrow> int \<times> int \<Rightarrow> int \<Rightarrow> nego_args \<Rightarrow> negotiate \<times> 'os world \<Rightarrow>
     (bool \<times> nego_args \<times> negotiate \<times> 'os world) run" where
  "negotiate_item env cfg now k a s =
     (case s of (n, w) \<Rightarrow>
        case map_of (shm_map n) k of
          None \<Rightarrow> Fault
        | Some cg \<Rightarrow>
            let item = GetCryptoItemByIdx (a_idx a) cg
            in if item = Null then Ret (False, a, n, w)
               else
                 let a = a\<lparr>a_expires := fst now + token_expires cfg\<rparr>
                 in run_bind (fill_item env (snd now) item (a_group a) (a_idx a) (a_expires a) (w_mem w)) (\<lambda>(key, m).
                      Ret (True, a\<lparr>a_key := key\<rparr>, n, w\<lparr>w_mem := m\<rparr>)))"

definition CryptoNegotiate ::
    "'os env \<Rightarrow> svr_config \<Rightarrow> int \<times> int \<Rightarrow> nego_args \<Rightarrow> negotiate \<times> 'os world \<Rightarrow>
     (bool \<times> nego_args \<times> negotiate \<times> 'os world) run" where
  "CryptoNegotiate env cfg now a s =
     (case s of (n, w) \<Rightarrow>
        if cur_group n < 0 \<or> cur_group n \<ge> max_group cfg then Ret (False, a, n, w)
        else
          let k = cur_group n
          in run_bind (group_at env k n) (\<lambda>(cg, n).
               if cg_group cg = -1 then Ret (False, a, n, w)
               else if a_group a = -1 \<or> a_idx a = -1 then
                 run_bind (first_negotiation env cfg k cg (a_group a, a_idx a) (n, w)) (\<lambda>r.
                   case r of
                     Inl s \<Rightarrow> Ret (False, a, s)
                   | Inr (args, s) \<Rightarrow>
                       negotiate_item env cfg now k (a\<lparr>a_group := fst args, a_idx := snd args\<rparr>) s)
               else negotiate_item env cfg now k a (n, w)))"

end
