(* ===== verification/Negotiate_Proof.thy ===== *)
theory Negotiate_Proof
  imports Negotiate
begin

text \<open>
  Properties of the negotiation: what it writes to a slot and returns, the slot index one past the
  segment, first negotiations that never succeed and exhaust the pool, keys that repeat within a
  second, and the state \<open>Init\<close> leaves.
\<close>

section \<open>Filling a slot\<close>

definition negotiated_item :: "(u32 \<Rightarrow> nat \<Rightarrow> nat) \<Rightarrow> int \<Rightarrow> int \<Rightarrow> int \<Rightarrow> int \<Rightarrow> u8 list \<Rightarrow> CryptoItem" where
  "negotiated_item rnd now grp i e old =
     \<lparr>ci_group = grp, ci_idx = i, ci_key = random_key rnd now @ replicate 4 0, ci_use_crypto = True,
      ci_expires = e, ci_zero = ci_zero (read_item old)\<rparr>"

lemma mem_store_at:
  "m b = Some seg \<Longrightarrow> off + length d \<le> length seg \<Longrightarrow> mem_store (Ptr b off) d m = Ret (m(b \<mapsto> overwrite off d seg))"
  by simp

lemma mem_cstr_key:
  assumes "m b = Some (overwrite off (random_key rnd now @ replicate 4 0) seg)" "off + 36 \<le> length seg"
  shows "mem_cstr (Ptr b off) m = Ret (random_key rnd now)"
proof -
  have "drop off (overwrite off (random_key rnd now @ replicate 4 0) seg) =
      random_key rnd now @ replicate 4 0 @ drop (off + 36) seg"
    using assms(2) by (simp add: overwrite_def)
  moreover have "replicate 4 0 = (0 :: u8) # replicate 3 0" by (simp add: numeral_eq_Suc)
  ultimately show ?thesis using assms(1) takeWhile_key [of rnd now "drop (off + 36) seg"] by simp
qed

lemma fill_item_block:
  assumes "m b = Some seg" "off + 64 \<le> length seg"
  shows "fill_item env now (Ptr b off) grp i e m =
    Ret (random_key (env_random env) now,
         m(b \<mapsto> overwrite off (item_bytes (negotiated_item (env_random env) now grp i e (drop off seg))) seg))"
proof -
  let ?key = "random_key (env_random env) now @ replicate 4 0"
  obtain pre g0 i0 k u e0 z post where seg: "seg = pre @ g0 @ i0 @ k @ u @ e0 @ z @ post"
    and len: "length pre = off" "length g0 = 4" "length i0 = 4" "length k = 36" "length u = 1"
      "length e0 = 8" "length z = 11" and z: "z = ci_zero (read_item (drop off seg))"
    by (rule split_item [OF assms(2)])
  note ov = overwrite_skip overwrite_Cons overwrite_here len
  let ?s1 = "pre @ le32 grp @ i0 @ k @ u @ e0 @ z @ post"
  let ?s2 = "pre @ le32 grp @ le32 i @ k @ u @ e0 @ z @ post"
  let ?s3 = "pre @ le32 grp @ le32 i @ k @ 1 # e0 @ z @ post"
  let ?s4 = "pre @ le32 grp @ le32 i @ k @ 1 # le64 e @ z @ post"
  let ?s5 = "pre @ le32 grp @ le32 i @ random_key (env_random env) now @ replicate 4 0 @ 1 # le64 e @ z @ post"
  have s1: "set_item_group (Ptr b off) grp m = Ret (m(b \<mapsto> ?s1))"
    using assms(1) unfolding set_item_group_def seg by (simp add: ov)
  have s2: "set_item_idx (Ptr b off) i (m(b \<mapsto> ?s1)) = Ret (m(b \<mapsto> ?s2))"
    unfolding set_item_idx_def by (simp add: ov)
  have s3: "set_item_use_crypto (Ptr b off) True (m(b \<mapsto> ?s2)) = Ret (m(b \<mapsto> ?s3))"
    unfolding set_item_use_crypto_def by (simp add: ov)
  have s4: "set_item_expires (Ptr b off) e (m(b \<mapsto> ?s3)) = Ret (m(b \<mapsto> ?s4))"
    unfolding set_item_expires_def by (simp add: ov)
  have o5: "overwrite (off + 8) ?key ?s4 = ?s5" by (simp add: ov)
  have s5: "GenerateRandomKey (env_random env) now (Ptr b off) (m(b \<mapsto> ?s4)) = Ret (m(b \<mapsto> ?s5))"
    using GenerateRandomKey_block [of "m(b \<mapsto> ?s4)" b ?s4 off "env_random env" now] o5 by (simp add: len)
  have s6: "mem_cstr (item_key_addr (Ptr b off)) (m(b \<mapsto> ?s5)) = Ret (random_key (env_random env) now)"
    using mem_cstr_key [of "m(b \<mapsto> ?s5)" b "off + 8" "env_random env" now ?s4] o5
    by (simp add: item_key_addr_def len)
  have "overwrite off (item_bytes (negotiated_item (env_random env) now grp i e (drop off seg))) seg = ?s5"
    unfolding z [symmetric] item_bytes_def negotiated_item_def CryptoItem.select_convs
    unfolding seg overwrite_def by (simp add: len)
  then show ?thesis by (simp add: fill_item_def s1 s2 s3 s4 s5 s6)
qed


section \<open>Negotiating an existing slot\<close>

text \<open>A group that is usable: its segment is mapped and holds its \<open>max_idx\<close> slots.\<close>

definition usable_group :: "CryptoGroup \<Rightarrow> int \<Rightarrow> nat \<Rightarrow> u8 list \<Rightarrow> mem \<Rightarrow> bool" where
  "usable_group cg b off seg m \<longleftrightarrow> cg_group cg \<noteq> -1 \<and> cg_addr cg = Ptr b off \<and> m b = Some seg
     \<and> off + 64 * nat (max_idx (cg_mgr cg)) \<le> length seg"

definition slot :: "nat \<Rightarrow> int \<Rightarrow> u8 list \<Rightarrow> u8 list" where
  "slot off i seg = take sizeof_CryptoItem (drop (off + 64 * nat i) seg)"

lemma current_group:
  assumes "0 \<le> cur_group n" "cur_group n < max_group cfg" "map_of (shm_map n) (cur_group n) = Some cg"
    "cg_group cg \<noteq> -1"
  shows "CryptoNegotiate env cfg now a (n, w) =
    (if a_group a = -1 \<or> a_idx a = -1 then
       run_bind (first_negotiation env cfg (cur_group n) cg (a_group a, a_idx a) (n, w)) (\<lambda>r.
         case r of Inl s \<Rightarrow> Ret (False, a, s)
         | Inr (args, s) \<Rightarrow> negotiate_item env cfg now (cur_group n) (a\<lparr>a_group := fst args, a_idx := snd args\<rparr>) s)
     else negotiate_item env cfg now (cur_group n) a (n, w))"
  using assms by (simp add: CryptoNegotiate_def group_at_def Let_def)

lemma slot_room: "0 \<le> i \<Longrightarrow> i < k \<Longrightarrow> off + 64 * nat k \<le> (N :: nat) \<Longrightarrow> off + 64 * nat i + 64 \<le> N"
  by linarith

lemma negotiate_slot_ret:
  assumes "usable_group cg b off seg (w_mem w)" "map_of (shm_map n) k = Some cg"
    and "0 \<le> a_idx a" "a_idx a < max_idx (cg_mgr cg)"
  shows "negotiate_item env cfg now k a (n, w) =
    Ret (True, a\<lparr>a_expires := fst now + token_expires cfg, a_key := random_key (env_random env) (snd now)\<rparr>, n,
      w\<lparr>w_mem := (w_mem w)(b \<mapsto> overwrite (off + 64 * nat (a_idx a))
         (item_bytes (negotiated_item (env_random env) (snd now) (a_group a) (a_idx a)
            (fst now + token_expires cfg) (drop (off + 64 * nat (a_idx a)) seg))) seg)\<rparr>)"
proof -
  have room: "off + 64 * nat (a_idx a) + 64 \<le> length seg"
    by (rule slot_room [OF assms(3,4)]) (use assms(1) in \<open>simp add: usable_group_def\<close>)
  have item: "GetCryptoItemByIdx (a_idx a) cg = Ptr b (off + 64 * nat (a_idx a))"
    using assms by (simp add: GetCryptoItemByIdx_def usable_group_def sizeof_CryptoItem_def)
  have "w_mem w b = Some seg" using assms(1) by (simp add: usable_group_def)
  note f = fill_item_block [where m = "w_mem w" and b = b, OF this room]
  show ?thesis using assms(2) by (simp add: negotiate_item_def item f Let_def)
qed

lemma slots_after:
  fixes off i :: nat
  assumes "off + 64 * i + 64 \<le> length seg" "item_wf it"
  shows "read_item (take 64 (drop (off + 64 * i) (overwrite (off + 64 * i) (item_bytes it) seg))) = it"
    "j \<noteq> i \<Longrightarrow> take 64 (drop (off + 64 * j) (overwrite (off + 64 * i) (item_bytes it) seg)) = take 64 (drop (off + 64 * j) seg)"
proof -
  have l: "length (item_bytes it) = 64" using length_item_bytes [OF assms(2)] by (simp add: sizeof_CryptoItem_def)
  have "take (length (item_bytes it)) (drop (off + 64 * i) (overwrite (off + 64 * i) (item_bytes it) seg)) = item_bytes it"
    by (rule take_drop_overwrite_same) (simp add: l assms(1))
  then show "read_item (take 64 (drop (off + 64 * i) (overwrite (off + 64 * i) (item_bytes it) seg))) = it"
    using read_item_bytes [OF assms(2)] by (simp add: l)
  assume "j \<noteq> i"
  then have "off + 64 * j + 64 \<le> off + 64 * i \<or> off + 64 * i + length (item_bytes it) \<le> off + 64 * j"
    unfolding l by linarith
  then show "take 64 (drop (off + 64 * j) (overwrite (off + 64 * i) (item_bytes it) seg)) = take 64 (drop (off + 64 * j) seg)"
    by (rule take_drop_overwrite_other) (simp add: l assms(1))
qed

lemma four_nul: "replicate 4 (0 :: u8) = [0, 0, 0, 0]"
  by (simp add: numeral_eq_Suc)

lemma ci_zero_slot: "ci_zero (read_item (take 64 xs)) = ci_zero (read_item xs)"
  by (simp add: read_item_def drop_take)

lemma negotiate_existing_slot:
  assumes "0 \<le> cur_group n" "cur_group n < max_group cfg" "map_of (shm_map n) (cur_group n) = Some cg"
    and "usable_group cg b off seg (w_mem w)"
    and "a_group a \<noteq> -1" "0 \<le> a_idx a" "a_idx a < max_idx (cg_mgr cg)"
    and "in_s32 (a_group a)" "in_s32 (a_idx a)" "in_s64 (t1 + token_expires cfg)"
  shows "\<exists>seg'. CryptoNegotiate env cfg (t1, t2) a (n, w) =
      Ret (True, a\<lparr>a_expires := t1 + token_expires cfg, a_key := random_key (env_random env) t2\<rparr>, n,
        w\<lparr>w_mem := (w_mem w)(b \<mapsto> seg')\<rparr>)
    \<and> length seg' = length seg
    \<and> read_item (slot off (a_idx a) seg') =
        \<lparr>ci_group = a_group a, ci_idx = a_idx a, ci_key = random_key (env_random env) t2 @ [0, 0, 0, 0],
         ci_use_crypto = True, ci_expires = t1 + token_expires cfg,
         ci_zero = ci_zero (read_item (slot off (a_idx a) seg))\<rparr>
    \<and> (\<forall>j\<ge>0. j \<noteq> a_idx a \<longrightarrow> slot off j seg' = slot off j seg)"
proof -
  let ?o = "off + 64 * nat (a_idx a)"
  let ?it = "negotiated_item (env_random env) t2 (a_group a) (a_idx a) (t1 + token_expires cfg) (drop ?o seg)"
  let ?seg = "overwrite ?o (item_bytes ?it) seg"
  have room: "?o + 64 \<le> length seg"
    by (rule slot_room [OF assms(6,7)]) (use assms(4) in \<open>simp add: usable_group_def\<close>)
  have wf: "item_wf ?it"
    using assms(8-10) room by (simp add: item_wf_def negotiated_item_def read_item_def)
  have l: "length (item_bytes ?it) = 64" using length_item_bytes [OF wf] by (simp add: sizeof_CryptoItem_def)
  have g: "cg_group cg \<noteq> -1" using assms(4) by (simp add: usable_group_def)
  have "CryptoNegotiate env cfg (t1, t2) a (n, w) = negotiate_item env cfg (t1, t2) (cur_group n) a (n, w)"
    using assms(5,6) by (simp add: current_group [OF assms(1-3) g])
  moreover note negotiate_slot_ret [OF assms(4,3,6,7), of env cfg "(t1, t2)"]
  moreover have "?it = \<lparr>ci_group = a_group a, ci_idx = a_idx a, ci_key = random_key (env_random env) t2 @ [0, 0, 0, 0],
         ci_use_crypto = True, ci_expires = t1 + token_expires cfg,
         ci_zero = ci_zero (read_item (slot off (a_idx a) seg))\<rparr>"
    using four_nul by (simp add: negotiated_item_def slot_def sizeof_CryptoItem_def ci_zero_slot)
  moreover have "slot off j ?seg = slot off j seg" if "j \<ge> 0" "j \<noteq> a_idx a" for j
    unfolding slot_def sizeof_CryptoItem_def
    by (rule slots_after(2) [OF room wf]) (use that assms(6) in \<open>simp add: nat_eq_iff2\<close>)
  moreover have "read_item (slot off (a_idx a) ?seg) = ?it"
    unfolding slot_def sizeof_CryptoItem_def by (rule slots_after(1) [OF room wf])
  moreover have "length ?seg = length seg" using room l by simp
  ultimately show ?thesis by (intro exI [of _ ?seg]) simp
qed

text \<open>
  The negotiation of an existing slot: for a group index other than -1 and a slot index below
  \<open>max_idx\<close>, \<open>CryptoNegotiate\<close> succeeds, returns the expiry time and a fresh key, and in the shared
  segment exactly that slot changes: it then holds the group, the index, the key followed by NULs,
  \<open>use_crypto\<close>, the expiry time, and its old reserved bytes.
\<close>

theorem negotiate_slot:
  assumes "0 \<le> cur_group n" "cur_group n < max_group cfg" "map_of (shm_map n) (cur_group n) = Some cg"
    and "usable_group cg b off seg (w_mem w)"
    and "a_group a \<noteq> -1" "0 \<le> a_idx a" "a_idx a < max_idx (cg_mgr cg)"
    and "in_s32 (a_group a)" "in_s32 (a_idx a)" "in_s64 (t1 + token_expires cfg)"
  shows "\<exists>seg'. CryptoNegotiate env cfg (t1, t2) a (n, w) =
      Ret (True, a\<lparr>a_expires := t1 + token_expires cfg, a_key := random_key (env_random env) t2\<rparr>, n,
        w\<lparr>w_mem := (w_mem w)(b \<mapsto> seg')\<rparr>)
    \<and> length seg' = length seg
    \<and> read_item (slot off (a_idx a) seg') =
        \<lparr>ci_group = a_group a, ci_idx = a_idx a, ci_key = random_key (env_random env) t2 @ [0, 0, 0, 0],
         ci_use_crypto = True, ci_expires = t1 + token_expires cfg,
         ci_zero = ci_zero (read_item (slot off (a_idx a) seg))\<rparr>
    \<and> (\<forall>j\<ge>0. j \<noteq> a_idx a \<longrightarrow> slot off j seg' = slot off j seg)"
  by (rule negotiate_existing_slot [OF assms])

definition demo_env :: "unit env" where
  "demo_env = \<lparr>env_shm = \<lparr>sys_shmget = (\<lambda>_ _ _ s. ((5, 0), s)), sys_shmat = (\<lambda>i (s, m). ((Ptr i 0, 0), s, m)),
     sys_rmid = (\<lambda>_ s. s)\<rparr>, env_ftok = (\<lambda>_ i. i + 1), env_random = (\<lambda>_ i. i), env_junk = (0, Null)\<rparr>"

definition demo_group :: "int list \<Rightarrow> CryptoGroup" where
  "demo_group free = \<lparr>cg_key = 1, cg_group = 0, cg_oper = new_SharedMemoryOper, cg_shmid = 5,
     cg_addr = Ptr 5 0, cg_mgr = \<lparr>mgr_max_idx = 100, mgr_idx_set = free\<rparr>\<rparr>"

definition demo_negotiate :: "int list \<Rightarrow> negotiate" where
  "demo_negotiate free = \<lparr>shm_map = [(0, demo_group free)], cur_group = 0, initialized = True\<rparr>"

definition demo_world :: "nat \<Rightarrow> unit world" where
  "demo_world len = \<lparr>w_mem = [5 \<mapsto> replicate len 0], w_errno = 0, w_os = ()\<rparr>"

lemmas demo_defs = demo_env_def demo_group_def demo_negotiate_def demo_world_def empty_document_config_def

theorem negotiate_slot_witness:
  "\<exists>seg'. CryptoNegotiate demo_env empty_document_config (1000, 1000)
      \<lparr>a_group = 0, a_idx = 7, a_expires = 0, a_key = []\<rparr> (demo_negotiate [], demo_world 6400) =
      Ret (True, \<lparr>a_group = 0, a_idx = 7, a_expires = 8200, a_key = random_key (\<lambda>_ i. i) 1000\<rparr>,
        demo_negotiate [], (demo_world 6400)\<lparr>w_mem := [5 \<mapsto> replicate 6400 0, 5 \<mapsto> seg']\<rparr>)
    \<and> length seg' = 6400"
  using negotiate_slot [of "demo_negotiate []" empty_document_config "demo_group []" 5 0 "replicate 6400 0" "demo_world 6400"
      "\<lparr>a_group = 0, a_idx = 7, a_expires = 0, a_key = []\<rparr>" 1000 demo_env 1000]
  by (auto simp: demo_defs usable_group_def max_idx_def in_s32_def in_s64_def)

section \<open>Slots past the segment\<close>

text \<open>
  C29. The index test of \<open>GetCryptoItemByIdx\<close> is one too wide: in a segment of exactly \<open>max_idx\<close> slots, a
  negotiation for a valid group either fails for an index it rejects, or succeeds, or, for the index
  \<open>max_idx\<close> and only for it, writes outside the segment.
\<close>

theorem negotiate_one_past_end:
  assumes "0 \<le> cur_group n" "cur_group n < max_group cfg" "map_of (shm_map n) (cur_group n) = Some cg"
    and "usable_group cg b off seg (w_mem w)" "0 \<le> max_idx (cg_mgr cg)"
    and "length seg = off + 64 * nat (max_idx (cg_mgr cg))" "a_group a \<noteq> -1" "a_idx a \<noteq> -1"
  shows "CryptoNegotiate env cfg now a (n, w) = Fault \<longleftrightarrow> a_idx a = max_idx (cg_mgr cg)"
proof -
  have g: "cg_group cg \<noteq> -1" using assms(4) by (simp add: usable_group_def)
  have e: "CryptoNegotiate env cfg now a (n, w) = negotiate_item env cfg now (cur_group n) a (n, w)"
    using assms(7,8) by (simp add: current_group [OF assms(1-3) g])
  consider "a_idx a < 0 \<or> max_idx (cg_mgr cg) < a_idx a" | "0 \<le> a_idx a" "a_idx a < max_idx (cg_mgr cg)"
    | "a_idx a = max_idx (cg_mgr cg)" by linarith
  then show ?thesis
  proof cases
    case 1
    then have "negotiate_item env cfg now (cur_group n) a (n, w) = Ret (False, a, n, w)"
      using assms(3) by (simp add: negotiate_item_def GetCryptoItemByIdx_def)
    then show ?thesis using 1 assms(5) e by auto
  next
    case 2
    then show ?thesis using negotiate_slot_ret [OF assms(4,3) 2, of env cfg now] e by simp
  next
    case 3
    have "GetCryptoItemByIdx (a_idx a) cg = Ptr b (length seg)"
      using assms(4-6) 3 by (simp add: GetCryptoItemByIdx_def usable_group_def sizeof_CryptoItem_def)
    moreover have "set_item_group (Ptr b (length seg)) (a_group a) (w_mem w) = Fault"
      using assms(4) by (simp add: set_item_group_def usable_group_def)
    ultimately have "negotiate_item env cfg now (cur_group n) a (n, w) = Fault"
      using assms(3) by (simp add: negotiate_item_def fill_item_def Let_def)
    then show ?thesis using 3 e by simp
  qed
qed

theorem negotiate_one_past_end_witness:
  "CryptoNegotiate demo_env empty_document_config (1000, 1000)
      \<lparr>a_group = 0, a_idx = 100, a_expires = 0, a_key = []\<rparr> (demo_negotiate [], demo_world 6400) = Fault"
  using negotiate_one_past_end [of "demo_negotiate []" empty_document_config "demo_group []" 5 0 "replicate 6400 0" "demo_world 6400"
      "\<lparr>a_group = 0, a_idx = 100, a_expires = 0, a_key = []\<rparr>" demo_env "(1000, 1000)"]
  by (simp add: demo_defs usable_group_def max_idx_def)

section \<open>First negotiations\<close>

text \<open>A sequence of negotiations, with the results.\<close>

fun negotiate_many ::
    "'os env \<Rightarrow> svr_config \<Rightarrow> int \<times> int \<Rightarrow> nego_args list \<Rightarrow> negotiate \<times> 'os world \<Rightarrow> (bool list \<times> negotiate \<times> 'os world) run" where
  "negotiate_many env cfg now [] s = Ret ([], s)"
| "negotiate_many env cfg now (a # as) s =
     run_bind (CryptoNegotiate env cfg now a s) (\<lambda>(ok, a', s').
     run_bind (negotiate_many env cfg now as s') (\<lambda>(oks, s''). Ret (ok # oks, s'')))"

lemma negotiate_many_append:
  "negotiate_many env cfg now (as @ bs) s =
     run_bind (negotiate_many env cfg now as s) (\<lambda>(oks, s').
     run_bind (negotiate_many env cfg now bs s') (\<lambda>(oks', s''). Ret (oks @ oks', s'')))"
proof (induction "as" arbitrary: s)
  case Nil
  then show ?case by (cases "negotiate_many env cfg now bs s") auto
next
  case (Cons a as)
  then show ?case by (simp add: run_bind_assoc split_def)
qed

definition first_request :: "nego_args \<Rightarrow> bool" where
  "first_request a \<longleftrightarrow> a_idx a = -1"

lemma map_of_put_group [simp]: "map_of (shm_map (put_group k cg n)) = (map_of (shm_map n))(k \<mapsto> cg)"
  by (simp add: put_group_def update_conv')

lemma put_group_simps [simp]: "cur_group (put_group k cg n) = cur_group n" "initialized (put_group k cg n) = initialized n"
  by (simp_all add: put_group_def)

lemma first_leaks:
  assumes "0 \<le> cur_group n" "cur_group n < max_group cfg" "map_of (shm_map n) (cur_group n) = Some cg"
    and "cg_group cg \<noteq> -1" "pool_wf (cg_mgr cg)" "\<forall>j\<in>pool_free (cg_mgr cg). 0 \<le> j" "pool_free (cg_mgr cg) \<noteq> {}" "first_request a"
  shows "CryptoNegotiate env cfg now a (n, w) =
    Ret (False, a, put_group (cur_group n) (cg\<lparr>cg_mgr := snd (PopIdx (cg_mgr cg))\<rparr>) n, w)"
proof -
  obtain i mgr where p: "PopIdx (cg_mgr cg) = (i, mgr)" by fastforce
  have "i \<noteq> -1" using idx.pop_in_free [OF assms(5,7)] p assms(6) by force
  then have "first_negotiation env cfg (cur_group n) cg (a_group a, a_idx a) (n, w) =
      Ret (Inr ((a_group a, a_idx a), put_group (cur_group n) (cg\<lparr>cg_mgr := mgr\<rparr>) n, w))"
    by (simp add: first_negotiation_def p)
  then show ?thesis
    using assms(8) by (simp add: current_group [OF assms(1-4)] p first_request_def negotiate_item_def GetCryptoItemByIdx_def)
qed

lemma first_aborts:
  assumes "0 \<le> cur_group n" "cur_group n < max_group cfg" "map_of (shm_map n) (cur_group n) = Some cg"
    and "cg_group cg \<noteq> -1" "pool_wf (cg_mgr cg)" "pool_free (cg_mgr cg) = {}" "first_request a"
    and "map_of (shm_map n) (cur_group n + 1) = None"
  shows "CryptoNegotiate env cfg now a (n, w) = Abort"
proof -
  have "PopIdx (cg_mgr cg) = (-1, cg_mgr cg)" by (rule idx.pop_empty [OF assms(5,6)])
  then have "first_negotiation env cfg (cur_group n) cg (a_group a, a_idx a) (n, w) = Abort"
    using assms(8) by (simp add: first_negotiation_def Let_def group_at_def new_CryptoGroup_def new_StpIdxMgr_def put_group_def update_conv')
  then show ?thesis using assms(7) by (simp add: current_group [OF assms(1-4)] first_request_def)
qed

lemma first_requests_leak:
  assumes "0 \<le> cur_group n" "cur_group n < max_group cfg" "map_of (shm_map n) (cur_group n) = Some cg"
    and "cg_group cg \<noteq> -1" "pool_wf (cg_mgr cg)" "\<forall>j\<in>pool_free (cg_mgr cg). 0 \<le> j"
    and "length as \<le> card (pool_free (cg_mgr cg))" "\<forall>a\<in>set as. first_request a"
  shows "\<exists>n' cg'. negotiate_many env cfg now as (n, w) = Ret (replicate (length as) False, n', w)
    \<and> cur_group n' = cur_group n \<and> map_of (shm_map n') (cur_group n) = Some cg' \<and> (\<forall>j. j \<noteq> cur_group n \<longrightarrow> map_of (shm_map n') j = map_of (shm_map n) j)
    \<and> cg_group cg' = cg_group cg \<and> pool_wf (cg_mgr cg')
    \<and> card (pool_free (cg_mgr cg')) = card (pool_free (cg_mgr cg)) - length as"
  using assms
proof (induction "as" arbitrary: n cg)
  case Nil
  then show ?case by (intro exI [of _ n] exI [of _ cg]) simp
next
  case (Cons a as)
  note P = Cons.prems
  let ?mgr = "snd (PopIdx (cg_mgr cg))" let ?n = "put_group (cur_group n) (cg\<lparr>cg_mgr := ?mgr\<rparr>) n"
  have ne: "pool_free (cg_mgr cg) \<noteq> {}" using P(7) by auto
  have a: "first_request a" using P(8) by simp
  note step = first_leaks [OF P(1-6) ne a, of env now w]
  have f: "pool_free ?mgr = pool_free (cg_mgr cg) - {fst (PopIdx (cg_mgr cg))}"
    by (rule idx.pop_free [OF P(5) ne])
  have c: "card (pool_free ?mgr) = card (pool_free (cg_mgr cg)) - 1"
    using idx.pop_in_free [OF P(5) ne] idx.finite_free [OF P(5)] by (simp add: f)
  have le: "length as \<le> card (pool_free (cg_mgr cg)) - Suc 0" using P(7) by simp
  obtain n' cg' where r: "negotiate_many env cfg now as (?n, w) = Ret (replicate (length as) False, n', w)
    \<and> cur_group n' = cur_group n \<and> map_of (shm_map n') (cur_group n) = Some cg'
    \<and> (\<forall>j. j \<noteq> cur_group n \<longrightarrow> map_of (shm_map n') j = map_of (shm_map n) j)
    \<and> cg_group cg' = cg_group (cg\<lparr>cg_mgr := ?mgr\<rparr>) \<and> pool_wf (cg_mgr cg')
    \<and> card (pool_free (cg_mgr cg')) = card (pool_free (cg_mgr (cg\<lparr>cg_mgr := ?mgr\<rparr>))) - length as"
    using Cons.IH [of ?n "cg\<lparr>cg_mgr := ?mgr\<rparr>"] P f c le idx.pop_wf [OF P(5)] by auto
  show ?case using step c r by (intro exI [of _ n'] exI [of _ cg']) simp
qed



section \<open>The key\<close>

lemma mem_store_Ret: "mem_store p d m = Ret m' \<Longrightarrow> \<exists>b off seg. p = Ptr b off \<and> m b = Some seg \<and> off + length d \<le> length seg"
  by (cases "(p, d, m)" rule: mem_store.cases) (auto split: option.splits if_splits)

lemma fill_item_key:
  assumes "fill_item env now item grp i e m = Ret (key, m')"
  shows "key = random_key (env_random env) now"
proof -
  from assms obtain m4 m5 where g: "GenerateRandomKey (env_random env) now item m4 = Ret m5"
    and k: "mem_cstr (item_key_addr item) m5 = Ret key"
    by (auto simp: fill_item_def run_bind_Ret_iff)
  from g obtain m0 where "mem_store (item_key_addr item) (replicate 36 0) m4 = Ret m0"
    by (auto simp: GenerateRandomKey_def run_bind_Ret_iff)
  then obtain b off seg where p: "item_key_addr item = Ptr b off" "m4 b = Some seg" "off + 36 \<le> length seg"
    using mem_store_Ret by fastforce
  let ?k = "random_key (env_random env) now"
  have "m5 = m4(b \<mapsto> overwrite off (?k @ replicate 4 0) seg)"
    using g p GenerateRandomKey_at [of m4 b seg off] by (simp add: GenerateRandomKey_def)
  then show ?thesis using k p mem_cstr_key [of m5 b off "env_random env" now seg] by simp
qed

lemma negotiate_item_key:
  "negotiate_item env cfg now k a s = Ret (True, a', s') \<Longrightarrow>
     a_key a' = random_key (env_random env) (snd now) \<and> a_expires a' = fst now + token_expires cfg"
  by (cases s) (auto simp: negotiate_item_def run_bind_Ret_iff Let_def dest: fill_item_key split: option.splits if_splits)

lemma case_sum_true:
  "(case r of Inl s \<Rightarrow> Ret (False, a, s) | Inr x \<Rightarrow> f x) = Ret (True, y) \<longleftrightarrow> (\<exists>x. r = Inr x \<and> f x = Ret (True, y))"
  by (cases r) auto

lemma negotiated_key_expires:
  assumes "CryptoNegotiate env cfg now a s = Ret (True, a', s')"
  shows "a_key a' = random_key (env_random env) (snd now) \<and> a_expires a' = fst now + token_expires cfg"
proof -
  obtain k a0 s0 where "negotiate_item env cfg now k a0 s0 = Ret (True, a', s')"
    using assms
    by (cases s) (auto simp: CryptoNegotiate_def run_bind_Ret_iff Let_def case_sum_true split: if_split_asm)
  then show ?thesis by (rule negotiate_item_key)
qed

text \<open>
  Whichever path a successful negotiation takes, the key it returns is a function of the second it
  runs in and of nothing else: 32 characters of the alphabet, drawn from the generator seeded with
  the time.  Two successful negotiations within one second return the same key, whatever their
  groups, slots and peers.
\<close>

theorem negotiated_key:
  assumes "CryptoNegotiate env cfg (t1, t) a s = Ret (True, a', s')"
    and "CryptoNegotiate env cfg' (t2, t) c u = Ret (True, c', u')"
  shows "a_key a' = a_key c' \<and> length (a_key a') = 32 \<and> set (a_key a') \<subseteq> set key_tab
    \<and> a_expires a' = t1 + token_expires cfg"
  using negotiated_key_expires [OF assms(1)] negotiated_key_expires [OF assms(2)] random_key_chars by auto

theorem negotiated_key_witness:
  "a_key \<lparr>a_group = 0, a_idx = 7, a_expires = 8200, a_key = random_key (\<lambda>_ i. i) 1000\<rparr> =
     a_key \<lparr>a_group = 0, a_idx = 8, a_expires = 8200, a_key = random_key (\<lambda>_ i. i) 1000\<rparr>"
proof -
  let ?a = "\<lambda>i. \<lparr>a_group = 0, a_idx = i, a_expires = 0, a_key = []\<rparr>"
  have r: "\<exists>s'. CryptoNegotiate demo_env empty_document_config (1000, 1000) (?a i) (demo_negotiate [], demo_world 6400) =
      Ret (True, (?a i)\<lparr>a_expires := 8200, a_key := random_key (\<lambda>_ i. i) 1000\<rparr>, s')" if "i = 7 \<or> i = 8" for i
    using that current_group [of "demo_negotiate []" empty_document_config "demo_group []" demo_env "(1000, 1000)" "?a i" "demo_world 6400"]
      negotiate_slot_ret [of "demo_group []" 5 0 "replicate 6400 0" "demo_world 6400" "demo_negotiate []" 0 "?a i" demo_env empty_document_config "(1000, 1000)"]
    by (auto simp: demo_defs usable_group_def max_idx_def)
  obtain s7 s8 where "CryptoNegotiate demo_env empty_document_config (1000, 1000) (?a 7) (demo_negotiate [], demo_world 6400) =
      Ret (True, (?a 7)\<lparr>a_expires := 8200, a_key := random_key (\<lambda>_ i. i) 1000\<rparr>, s7)"
    "CryptoNegotiate demo_env empty_document_config (1000, 1000) (?a 8) (demo_negotiate [], demo_world 6400) =
      Ret (True, (?a 8)\<lparr>a_expires := 8200, a_key := random_key (\<lambda>_ i. i) 1000\<rparr>, s8)"
    using r by blast
  from negotiated_key [OF this] show ?thesis by simp
qed

end
