(* ===== verification/Init_Proof.thy ===== *)
theory Init_Proof
  imports Negotiate_Proof
begin

text \<open>
  What \<open>Init\<close> leaves: a current group with a full pool, for every segment that was found; and what
  becomes of a failing \<open>shmat\<close>.
\<close>

section \<open>Attaching\<close>

lemma group_shmget_fields [simp]:
  "cg_group (fst (group_shmget api sz flg (cg, w))) = cg_group cg"
  "cg_mgr (fst (group_shmget api sz flg (cg, w))) = cg_mgr cg"
  "cg_key (fst (group_shmget api sz flg (cg, w))) = cg_key cg"
  by (simp_all add: group_shmget_def split: prod.splits)

lemma group_shmat_fields [simp]:
  "cg_group (fst (snd (group_shmat api (cg, w)))) = cg_group cg"
  "cg_mgr (fst (snd (group_shmat api (cg, w)))) = cg_mgr cg"
  "cg_key (fst (snd (group_shmat api (cg, w)))) = cg_key cg"
  by (simp_all add: group_shmat_def split: prod.splits)

definition same_identity :: "CryptoGroup \<Rightarrow> CryptoGroup \<Rightarrow> bool" where
  "same_identity cg cg' \<longleftrightarrow> cg_group cg' = cg_group cg \<and> cg_mgr cg' = cg_mgr cg \<and> cg_key cg' = cg_key cg"

lemma same_identity_shmget: "group_shmget api sz flg (cg, w) = (cg', w') \<Longrightarrow> same_identity cg cg'"
  unfolding same_identity_def by (metis fst_conv group_shmget_fields)

lemma same_identity_shmat: "group_shmat api (cg, w) = (p, cg', w') \<Longrightarrow> same_identity cg cg'"
  unfolding same_identity_def by (metis fst_conv snd_conv group_shmat_fields)

lemma same_identity_trans: "same_identity a b \<Longrightarrow> same_identity b c \<Longrightarrow> same_identity a c"
  by (simp add: same_identity_def)

lemma same_identity_refl: "same_identity a a"
  by (simp add: same_identity_def)

lemma TryAttachShm_identity:
  assumes "TryAttachShm api sz (cg, w) = (p, cg', w')"
  shows "same_identity cg cg'"
proof -
  obtain c1 w1 where c1: "group_shmget api sz (IPC_CREAT OR IPC_EXCL OR 438) (cg, w) = (c1, w1)" by fastforce
  obtain c2 w2 where c2: "group_shmget api sz (IPC_CREAT OR 438) (c1, w1) = (c2, w2)" by fastforce
  obtain q c3 w3 where c3: "group_shmat api (c2, w2) = (q, c3, w3)" by (metis prod_cases3)
  have "same_identity cg c1" "same_identity cg c2" "same_identity cg c3"
    using same_identity_shmget [OF c1] same_identity_shmget [OF c2] same_identity_shmat [OF c3]
      same_identity_trans by blast+
  then show ?thesis
    using assms c1 c2 c3 by (auto simp: TryAttachShm_def attach_failed_def Let_def same_identity_refl split: if_splits)
qed

lemma CreateShm_identity:
  assumes "CreateShm api sz (cg, w) = (ok, cg', w')"
  shows "same_identity cg cg'" "ok \<Longrightarrow> cg_addr cg' \<noteq> Null"
proof -
  obtain c1 w1 where c1: "group_shmget api sz (IPC_CREAT OR 438) (cg, w) = (c1, w1)" by fastforce
  obtain p c2 w2 where c2: "group_shmat api (c1, w1) = (p, c2, w2)" by (metis prod_cases3)
  have i: "same_identity cg c1" "same_identity cg c2"
    using same_identity_shmget [OF c1] same_identity_shmat [OF c2] same_identity_trans by blast+
  then show "same_identity cg cg'"
    using assms c1 c2 by (auto simp: CreateShm_def Let_def same_identity_refl same_identity_def split: if_splits)
  show "cg_addr cg' \<noteq> Null" if ok
    using assms c1 c2 that by (auto simp: CreateShm_def Let_def split: if_splits)
qed

section \<open>Init\<close>

definition fresh_group :: "'os env \<Rightarrow> svr_config \<Rightarrow> int \<Rightarrow> CryptoGroup \<Rightarrow> bool" where
  "fresh_group env cfg k cg \<longleftrightarrow> cg_group cg = k \<and> cg_key cg = env_ftok env (path cfg) k \<and> cg_addr cg \<noteq> Null
     \<and> pool_wf (cg_mgr cg) \<and> pool_free (cg_mgr cg) = {0..<cfg_max_idx cfg} \<and> max_idx (cg_mgr cg) = cfg_max_idx cfg"

definition fresh_groups :: "'os env \<Rightarrow> svr_config \<Rightarrow> negotiate \<Rightarrow> bool" where
  "fresh_groups env cfg n \<longleftrightarrow> (\<forall>k cg. map_of (shm_map n) k = Some cg \<longrightarrow> fresh_group env cfg k cg)
     \<and> (shm_map n \<noteq> [] \<longrightarrow> (\<exists>cg. map_of (shm_map n) (cur_group n) = Some cg))"

lemma new_group_fresh:
  assumes "new_CryptoGroup junk k (cfg_max_idx cfg) key = Ret cg"
  shows "cg_group cg = k" "cg_key cg = key" "pool_wf (cg_mgr cg)" "pool_free (cg_mgr cg) = {0..<cfg_max_idx cfg}"
    "max_idx (cg_mgr cg) = cfg_max_idx cfg"
proof -
  obtain mgr where m: "new_StpIdxMgr (cfg_max_idx cfg) = Ret mgr" and cg: "cg_mgr cg = mgr" "cg_group cg = k" "cg_key cg = key"
    using assms by (auto simp: new_CryptoGroup_def run_bind_Ret_iff)
  have "0 < cfg_max_idx cfg" "cfg_max_idx cfg \<le> 100000"
    using m by (auto simp: new_StpIdxMgr_def split: if_splits)
  then show "cg_group cg = k" "cg_key cg = key" "pool_wf (cg_mgr cg)" "pool_free (cg_mgr cg) = {0..<cfg_max_idx cfg}"
    "max_idx (cg_mgr cg) = cfg_max_idx cfg"
    using new_pool m cg by (metis run.inject)+
qed

lemma shm_map_insert [simp]: "shm_map (insert_group k cg n) \<noteq> []"
  by (cases "shm_map n") (auto simp: insert_group_def put_group_def)

lemma map_of_insert:
  "map_of (shm_map (insert_group k cg n)) j =
     (if j = k \<and> map_of (shm_map n) k = None then Some cg else map_of (shm_map n) j)"
  by (simp add: insert_group_def)

lemma insert_fresh:
  assumes "fresh_groups env cfg n" "fresh_group env cfg k cg"
  shows "fresh_groups env cfg ((insert_group k cg n)\<lparr>cur_group := k\<rparr>)"
  using assms by (auto simp: fresh_groups_def map_of_insert)

lemma init_groups_fresh:
  "init_groups env cfg is (n, w) = Ret (n', w') \<Longrightarrow> fresh_groups env cfg n \<Longrightarrow> fresh_groups env cfg n'"
proof (induction "is" arbitrary: n w)
  case Nil
  then show ?case by simp
next
  case (Cons i "is")
  obtain cg where cg: "new_CryptoGroup (env_junk env) i (cfg_max_idx cfg) (env_ftok env (path cfg) i) = Ret cg"
    using Cons.prems(1) by (auto simp: run_bind_Ret_iff)
  obtain addr cg' w1 where t: "TryAttachShm (env_shm env) (segment_size cfg) (cg, w) = (addr, cg', w1)"
    by (metis prod_cases3)
  let ?n = "if addr \<noteq> Null then (insert_group i (cg'\<lparr>cg_addr := addr\<rparr>) n)\<lparr>cur_group := i\<rparr> else n"
  have "init_groups env cfg is (?n, w1) = Ret (n', w')"
    using Cons.prems(1) by (simp add: cg t)
  moreover have "fresh_groups env cfg ?n"
  proof (cases "addr = Null")
    case False
    have "fresh_group env cfg i (cg'\<lparr>cg_addr := addr\<rparr>)"
      using new_group_fresh [OF cg] TryAttachShm_identity [OF t] False
      by (simp add: fresh_group_def same_identity_def)
    then show ?thesis using insert_fresh [OF Cons.prems(2)] False by simp
  qed (use Cons.prems(2) in simp)
  ultimately show ?case by (rule Cons.IH)
qed

lemma init_fresh:
  assumes "\<not> initialized n" "Init env cfg (n, w) = Ret (True, n', w')"
  shows "initialized n' \<and> fresh_groups env cfg n' \<and> shm_map n' \<noteq> []"
proof -
  obtain n1 w1 where g: "init_groups env cfg [0..max_group cfg - 1] (n\<lparr>shm_map := []\<rparr>, w) = Ret (n1, w1)"
    using assms by (auto simp: Init_def run_bind_Ret_iff)
  have f: "fresh_groups env cfg n1"
    by (rule init_groups_fresh [OF g]) (simp add: fresh_groups_def)
  show ?thesis
  proof (cases "shm_map n1 = []")
    case False
    then have "n' = n1\<lparr>initialized := True\<rparr>" using assms g by (simp add: Init_def)
    then show ?thesis using f False by (simp add: fresh_groups_def)
  next
    case True
    obtain cg where cg: "new_CryptoGroup (env_junk env) 0 (cfg_max_idx cfg) (env_ftok env (path cfg) 0) = Ret cg"
      using assms g True by (auto simp: Init_def run_bind_Ret_iff)
    obtain ok cg' w2 where c: "CreateShm (env_shm env) (segment_size cfg) (cg, w1) = (ok, cg', w2)"
      by (metis prod_cases3)
    have ok: ok and n': "n' = (insert_group 0 cg' (n1\<lparr>cur_group := 0\<rparr>))\<lparr>initialized := True\<rparr>"
      using assms g True cg c by (auto simp: Init_def split: if_splits)
    have "fresh_group env cfg 0 cg'"
      using new_group_fresh [OF cg] CreateShm_identity [OF c] ok by (simp add: fresh_group_def same_identity_def)
    moreover have "map_of (shm_map n') = [0 \<mapsto> cg']" "shm_map n' \<noteq> []"
      unfolding n' using True by (auto simp: fun_eq_iff map_of_insert)
    ultimately show ?thesis by (simp add: fresh_groups_def n' insert_group_def)
  qed
qed

lemma init_groups_abort:
  "cfg_max_idx cfg \<le> 0 \<or> 100000 < cfg_max_idx cfg \<Longrightarrow>
     init_groups env cfg is s = (if is = [] then Ret s else Abort)"
  by (cases "is"; cases s) (auto simp: new_CryptoGroup_def new_StpIdxMgr_def)

lemma init_groups_ret:
  assumes "0 < cfg_max_idx cfg" "cfg_max_idx cfg \<le> 100000"
  shows "\<exists>s'. init_groups env cfg is s = Ret s'"
proof (induction "is" arbitrary: s)
  case Nil
  then show ?case by simp
next
  case (Cons i "is")
  have "\<exists>cg. new_CryptoGroup (env_junk env) i (cfg_max_idx cfg) (env_ftok env (path cfg) i) = Ret cg"
    using assms by (simp add: new_CryptoGroup_def new_StpIdxMgr_def)
  then show ?case using Cons by (cases s) (auto split: prod.splits)
qed

text \<open>
  C37. After a successful \<open>Init\<close> the current group is in the table, and every group of the table carries
  its own number and key, a non-null address and a full pool of \<open>max_idx\<close> free indices, whether its
  segment was created or already existed: the slots clients hold in an existing segment are free
  again after a restart of the server.
\<close>

theorem init_restores_full_pools:
  assumes "\<not> initialized n" "Init env cfg (n, w) = Ret (True, n', w')"
  shows "initialized n' \<and> (\<exists>cg. map_of (shm_map n') (cur_group n') = Some cg)
    \<and> (\<forall>k cg. map_of (shm_map n') k = Some cg \<longrightarrow>
         cg_group cg = k \<and> cg_key cg = env_ftok env (path cfg) k \<and> cg_addr cg \<noteq> Null
         \<and> max_idx (cg_mgr cg) = cfg_max_idx cfg \<and> pool_free (cg_mgr cg) = {0..<cfg_max_idx cfg})"
  using init_fresh [OF assms] by (auto simp: fresh_groups_def fresh_group_def)

definition one_group_config :: svr_config where
  "one_group_config = empty_document_config\<lparr>max_group := 1, cfg_max_idx := 2\<rparr>"

lemma init_demo:
  "Init demo_env one_group_config (negotiate0, demo_world 128) =
     Ret (True, \<lparr>shm_map = [(0, \<lparr>cg_key = 1, cg_group = 0, cg_oper = \<lparr>shmaddr = Ptr 5 0, oper_shmid = 5\<rparr>, cg_shmid = 5,
        cg_addr = Ptr 5 0, cg_mgr = \<lparr>mgr_max_idx = 2, mgr_idx_set = [0, 1]\<rparr>\<rparr>)], cur_group = 0, initialized = True\<rparr>,
        demo_world 128)"
  by (simp add: Init_def negotiate0_def demo_env_def demo_world_def one_group_config_def empty_document_config_def
      upto.simps new_CryptoGroup_def new_StpIdxMgr_def new_SharedMemoryOper_def TryAttachShm_def group_shmget_def
      shm_get_def attach_failed_def shm_rmid_def CreateShm_def group_shmat_def shm_at_def insert_group_def
      put_group_def List.insort_insert_key_def)

theorem init_restores_full_pools_witness:
  "pool_free (cg_mgr \<lparr>cg_key = 1, cg_group = 0, cg_oper = \<lparr>shmaddr = Ptr 5 0, oper_shmid = 5\<rparr>, cg_shmid = 5,
     cg_addr = Ptr 5 0, cg_mgr = \<lparr>mgr_max_idx = 2, mgr_idx_set = [0, 1]\<rparr>\<rparr>) = {0..<2}"
  using init_restores_full_pools [OF _ init_demo]
  by (auto simp: negotiate0_def one_group_config_def split: if_splits)

lemma init_outcome:
  assumes "\<not> initialized n"
  shows "(Init env cfg (n, w) = Abort \<longleftrightarrow> cfg_max_idx cfg \<le> 0 \<or> 100000 < cfg_max_idx cfg)
    \<and> Init env cfg (n, w) \<noteq> Fault"
proof (cases "cfg_max_idx cfg \<le> 0 \<or> 100000 < cfg_max_idx cfg")
  case True
  have "new_CryptoGroup (env_junk env) 0 (cfg_max_idx cfg) key = Abort" for key
    using True by (auto simp: new_CryptoGroup_def new_StpIdxMgr_def)
  then have "Init env cfg (n, w) = Abort"
    using assms by (simp add: Init_def init_groups_abort [OF True])
  then show ?thesis using True by simp
next
  case False
  then obtain n1 w1 where g: "init_groups env cfg [0..max_group cfg - 1] (n\<lparr>shm_map := []\<rparr>, w) = Ret (n1, w1)"
    using init_groups_ret [of cfg env "[0..max_group cfg - 1]" "(n\<lparr>shm_map := []\<rparr>, w)"] by auto
  obtain cg where cg: "new_CryptoGroup (env_junk env) 0 (cfg_max_idx cfg) (env_ftok env (path cfg) 0) = Ret cg"
    using False by (auto simp: new_CryptoGroup_def new_StpIdxMgr_def)
  have "\<exists>r. Init env cfg (n, w) = Ret r"
    using assms g cg by (auto simp: Init_def split: prod.split)
  then show ?thesis using False by auto
qed

text \<open>
  What the manual of \<open>shmat\<close> states: its result is an address inside an attached segment, or \<open>(void*)-1\<close>.
\<close>

definition shmat_documented :: "'os shm_api \<Rightarrow> bool" where
  "shmat_documented api \<longleftrightarrow> (\<forall>i s. fst (fst (sys_shmat api i s)) \<noteq> Null)"

text \<open>
  The test of the attached address never fires: with the documented \<open>shmat\<close>, \<open>CreateShm\<close> returns
  true whenever \<open>shmget\<close> gave a segment, also when the attach failed; the address is then the
  \<open>(void*)-1\<close> that \<open>shmat\<close> returned, and the first negotiation of a slot of that group writes outside
  any object.
\<close>

theorem create_shm_ignores_failed_attach:
  assumes "shmat_documented api" "cg_key cg \<noteq> -1" "cg_group cg \<noteq> -1"
    and "cg_shmid (fst (group_shmget api sz (IPC_CREAT OR 438) (cg, w))) \<noteq> -1"
    and "CreateShm api sz (cg, w) = (ok, cg', w')"
  shows "ok \<and> (cg_addr cg' = BadPtr \<and> 0 \<le> cur_group n \<and> cur_group n < max_group cfg
      \<and> map_of (shm_map n) (cur_group n) = Some cg' \<and> a_group a \<noteq> -1
      \<and> 0 \<le> a_idx a \<and> a_idx a < max_idx (cg_mgr cg) \<longrightarrow>
    CryptoNegotiate env cfg now a (n, w') = Fault)"
proof -
  obtain c1 w1 where c1: "group_shmget api sz (IPC_CREAT OR 438) (cg, w) = (c1, w1)" by fastforce
  obtain p c2 w2 where c2: "group_shmat api (c1, w1) = (p, c2, w2)" by (metis prod_cases3)
  have "p \<noteq> Null"
    using assms(1) c2 by (auto simp: group_shmat_def shm_at_def shmat_documented_def split: prod.splits)
      (metis fst_conv)
  then have ok using assms(2,4,5) c1 c2 by (simp add: CreateShm_def)
  have i: "same_identity cg cg'" by (rule CreateShm_identity [OF assms(5)])
  show ?thesis
  proof (intro conjI impI \<open>ok\<close>, elim conjE)
    assume h: "cg_addr cg' = BadPtr" "0 \<le> cur_group n" "cur_group n < max_group cfg"
      "map_of (shm_map n) (cur_group n) = Some cg'" "a_group a \<noteq> -1" "0 \<le> a_idx a" "a_idx a < max_idx (cg_mgr cg)"
    have g: "cg_group cg' \<noteq> -1" using i assms(3) by (simp add: same_identity_def)
    have "GetCryptoItemByIdx (a_idx a) cg' = BadPtr"
      using h i by (simp add: GetCryptoItemByIdx_def same_identity_def)
    then have "negotiate_item env cfg now (cur_group n) a (n, w') = Fault"
      using h(4) by (simp add: negotiate_item_def fill_item_def set_item_group_def)
    then show "CryptoNegotiate env cfg now a (n, w') = Fault"
      using h(5,6) by (simp add: current_group [OF h(2-4) g])
  qed
qed

definition failing_api :: "unit shm_api" where
  "failing_api = \<lparr>sys_shmget = (\<lambda>_ _ _ s. ((5, 0), s)), sys_shmat = (\<lambda>_ (s, m). ((BadPtr, 12), s, m)),
     sys_rmid = (\<lambda>_ s. s)\<rparr>"

theorem create_shm_ignores_failed_attach_witness:
  "fst (CreateShm failing_api 6400 (demo_group [], demo_world 0))"
proof -
  obtain ok cg' w' where c: "CreateShm failing_api 6400 (demo_group [], demo_world 0) = (ok, cg', w')"
    by (metis prod_cases3)
  show ?thesis
    using create_shm_ignores_failed_attach [OF _ _ _ _ c] c
    by (simp add: shmat_documented_def failing_api_def demo_group_def group_shmget_def shm_get_def demo_world_def split_def)
qed

end
