(* ===== verification/Connection.thy ===== *)
theory Connection
  imports Shm
begin

text \<open>
  \<^verbatim>\<open>src/stputil/connection.cc\<close>: messages framed by a six-byte header over a byte stream.

  The buffers are libevent's: their operations are a parameter, a record of functions over an
  abstract buffer \<open>'b\<close>; \<open>evbuffer_laws\<close> states what libevent documents of them.  The host is
  little-endian, so \<open>htons\<close>, \<open>ntohs\<close>, \<open>htonl\<close> and \<open>ntohl\<close> swap bytes.
\<close>

section \<open>libevent's buffers\<close>

text \<open>
  \<open>eb_remove\<close> returns the count, the bytes and the buffer left; \<open>eb_arrive\<close> is what libevent does to
  the read buffer when bytes arrive.
\<close>

record 'b evbuffer_api =
  eb_length :: "'b \<Rightarrow> nat"
  eb_copyout :: "nat \<Rightarrow> 'b \<Rightarrow> u8 list"
  eb_remove :: "nat \<Rightarrow> 'b \<Rightarrow> int \<times> u8 list \<times> 'b"
  eb_add :: "u8 list \<Rightarrow> 'b \<Rightarrow> int \<times> 'b"
  eb_add_buffer :: "'b \<Rightarrow> 'b \<Rightarrow> 'b \<times> 'b"
  eb_arrive :: "u8 list \<Rightarrow> 'b \<Rightarrow> 'b"

definition evbuffer_laws :: "'b evbuffer_api \<Rightarrow> ('b \<Rightarrow> u8 list) \<Rightarrow> bool" where
  "evbuffer_laws api bytes \<longleftrightarrow>
     (\<forall>b. eb_length api b = length (bytes b)) \<and>
     (\<forall>b n. eb_copyout api n b = take n (bytes b)) \<and>
     (\<forall>b n. \<exists>b'. eb_remove api n b = (int (length (take n (bytes b))), take n (bytes b), b')
        \<and> bytes b' = drop n (bytes b)) \<and>
     (\<forall>b d. \<exists>r b'. eb_add api d b = (r, b') \<and> (r = 0 \<and> bytes b' = bytes b @ d \<or> r = -1 \<and> bytes b' = bytes b)) \<and>
     (\<forall>b d. bytes (eb_arrive api d b) = bytes b @ d)"

section \<open>The header\<close>

definition kNetHeadPacketVersion :: u8 where "kNetHeadPacketVersion = 10"

text \<open>With \<open>#pragma pack(2)\<close>: the version at offset 0, a byte of padding, the length at offset 2.\<close>

record NetHeadPacket =
  version :: u8
  pkt_len :: u32

definition sizeof_NetHeadPacket :: nat where "sizeof_NetHeadPacket = 6"

definition swap16 :: "16 word \<Rightarrow> 16 word" where
  "swap16 w = push_bit 8 w OR drop_bit 8 w"

definition swap32 :: "u32 \<Rightarrow> u32" where
  "swap32 w = word4 (byte0 w) (byte1 w) (byte2 w) (byte3 w)"

definition head_bytes :: "NetHeadPacket \<Rightarrow> u8 list" where
  "head_bytes h =
     [version h, 0, byte0 (pkt_len h), byte1 (pkt_len h), byte2 (pkt_len h), byte3 (pkt_len h)]"

definition read_head :: "u8 list \<Rightarrow> NetHeadPacket" where
  "read_head bs = \<lparr>version = bs ! 0, pkt_len = read32 (drop 2 bs)\<rparr>"

section \<open>The connection\<close>

text \<open>\<open>read_buf\<close> is the array \<open>char read_buf_[1024]\<close>.\<close>

record 'b connection =
  fd :: int
  ev_read_buf :: 'b
  ev_write_buf :: 'b
  read_buf_list :: "u8 list list"
  read_buf :: "u8 list"

definition sizeof_read_buf :: nat where "sizeof_read_buf = 1024"

definition GetReadBufferLen :: "'b evbuffer_api \<Rightarrow> 'b connection \<Rightarrow> nat" where
  "GetReadBufferLen api c = eb_length api (ev_read_buf c)"

definition GetReadBuffer :: "'b evbuffer_api \<Rightarrow> nat \<Rightarrow> 'b connection \<Rightarrow> int \<times> u8 list \<times> 'b connection" where
  "GetReadBuffer api len c =
     (case eb_remove api len (ev_read_buf c) of (r, d, b) \<Rightarrow> (r, d, c\<lparr>ev_read_buf := b\<rparr>))"

definition CopyReadBuffer :: "'b evbuffer_api \<Rightarrow> nat \<Rightarrow> 'b connection \<Rightarrow> u8 list" where
  "CopyReadBuffer api len c = eb_copyout api len (ev_read_buf c)"

definition GetWriteBufferLen :: "'b evbuffer_api \<Rightarrow> 'b connection \<Rightarrow> nat" where
  "GetWriteBufferLen api c = eb_length api (ev_write_buf c)"

definition AddToWriteBuffer :: "'b evbuffer_api \<Rightarrow> u8 list \<Rightarrow> 'b connection \<Rightarrow> int \<times> 'b connection" where
  "AddToWriteBuffer api buffer c =
     (case eb_add api buffer (ev_write_buf c) of (r, b) \<Rightarrow> (r, c\<lparr>ev_write_buf := b\<rparr>))"

definition MoveBufferData :: "'b evbuffer_api \<Rightarrow> 'b connection \<Rightarrow> 'b connection" where
  "MoveBufferData api c =
     (case eb_add_buffer api (ev_write_buf c) (ev_read_buf c) of (wb, rb) \<Rightarrow>
        c\<lparr>ev_write_buf := wb, ev_read_buf := rb\<rparr>)"

text \<open>
  The loop that reads the body: every turn removes up to 1024 bytes into \<open>read_buf_\<close> and appends
  \<open>read\<close> bytes of that array, whatever the number of bytes removed; it stops early only when none was.
\<close>

function recv_body :: "'b evbuffer_api \<Rightarrow> nat \<Rightarrow> u8 list \<Rightarrow> 'b connection \<Rightarrow> u8 list \<times> 'b connection" where
  "recv_body api plen body c =
     (if plen > 0 then
        let rd = min sizeof_read_buf plen
        in case GetReadBuffer api rd c of (r, d, c) \<Rightarrow>
             let c = c\<lparr>read_buf := overwrite 0 d (read_buf c)\<rparr>
             in if r = 0 then (body, c)
                else recv_body api (plen - rd) (body @ take rd (read_buf c)) c
      else (body, c))"
  by pat_completeness auto
termination
  by (relation "measure (\<lambda>(api, plen, body, c). plen)") (auto simp: sizeof_read_buf_def)

declare recv_body.simps [simp del]

definition RecvNetMessage :: "'b evbuffer_api \<Rightarrow> 'b connection \<Rightarrow> bool \<times> 'b connection" where
  "RecvNetMessage api c =
     (let read_buf_len = GetReadBufferLen api c
      in if read_buf_len < sizeof_NetHeadPacket then (False, c)
         else
           let head = read_head (CopyReadBuffer api sizeof_NetHeadPacket c);
               head = head\<lparr>version := ucast (swap16 (ucast (version head))), pkt_len := swap32 (pkt_len head)\<rparr>;
               plen = unat (pkt_len head)
           in if read_buf_len < plen + sizeof_NetHeadPacket then (False, c)
              else
                let (_, _, c) = GetReadBuffer api sizeof_NetHeadPacket c;
                    (body, c) = recv_body api plen [] c
                in (True, c\<lparr>read_buf_list := read_buf_list c @ [body]\<rparr>))"

definition send_head :: "nat \<Rightarrow> NetHeadPacket" where
  "send_head len = \<lparr>version = ucast (swap16 (ucast kNetHeadPacketVersion)), pkt_len = swap32 (of_nat len)\<rparr>"

definition SendNetMessage :: "'b evbuffer_api \<Rightarrow> u8 list \<Rightarrow> 'b connection \<Rightarrow> bool \<times> 'b connection" where
  "SendNetMessage api buffer c =
     (case AddToWriteBuffer api (head_bytes (send_head (length buffer))) c of (r, c) \<Rightarrow>
        if r = 0 then
          (case AddToWriteBuffer api buffer c of (r, c) \<Rightarrow> (r = 0, c))
        else (False, c))"

definition GetNetMessage :: "'b connection \<Rightarrow> u8 list option \<times> 'b connection" where
  "GetNetMessage c =
     (case read_buf_list c of
        [] \<Rightarrow> (None, c)
      | p # ps \<Rightarrow> (Some p, c\<lparr>read_buf_list := ps\<rparr>))"

text \<open>
  \<open>ProcessReadEvent\<close> receives at most one message and, when it did, calls the handler, an argument.  The
  connection is a part of the program's state \<open>'s\<close>, read by \<open>conn\<close> and replaced by \<open>upd\<close>.
\<close>

definition ProcessReadEvent ::
    "'b evbuffer_api \<Rightarrow> ('s \<Rightarrow> 'b connection) \<Rightarrow> ('b connection \<Rightarrow> 's \<Rightarrow> 's) \<Rightarrow> ('s \<Rightarrow> 's run) \<Rightarrow> 's \<Rightarrow> 's run" where
  "ProcessReadEvent api conn upd HandleReadEvent s =
     (case RecvNetMessage api (conn s) of (got, c) \<Rightarrow>
        let s = upd c s in if got then HandleReadEvent s else Ret s)"

section \<open>Lemmas\<close>

lemma laws:
  assumes "evbuffer_laws api bytes"
  shows "eb_length api b = length (bytes b)" "eb_copyout api n b = take n (bytes b)"
    "\<exists>b'. eb_remove api n b = (int (length (take n (bytes b))), take n (bytes b), b') \<and> bytes b' = drop n (bytes b)"
    "bytes (eb_arrive api d b) = bytes b @ d"
  using assms unfolding evbuffer_laws_def by blast+

lemma swap32_swap32 [simp]: "swap32 (swap32 w) = w"
  by (simp add: swap32_def word_bytes)

lemma wire_version: "version (send_head n) = 0"
  by (simp add: send_head_def swap16_def kNetHeadPacketVersion_def)

lemma length_head_bytes [simp]: "length (head_bytes h) = sizeof_NetHeadPacket"
  by (simp add: head_bytes_def sizeof_NetHeadPacket_def)

lemma read_head_bytes: "read_head (head_bytes h @ rest) = h"
  by (simp add: read_head_def head_bytes_def read32_def word_bytes)

definition frame :: "u8 list \<Rightarrow> u8 list" where
  "frame m = head_bytes (send_head (length m)) @ m"

definition frames :: "u8 list list \<Rightarrow> u8 list" where "frames ms = concat (map frame ms)"

lemma frames_Cons: "frames (m # ms) = frame m @ frames ms" by (simp add: frames_def)
lemma frames_Nil [simp]: "frames [] = []" by (simp add: frames_def)
lemma frames_append: "frames (ms @ ns) = frames ms @ frames ns" by (simp add: frames_def)

definition buf_ok :: "'b connection \<Rightarrow> bool" where
  "buf_ok c \<longleftrightarrow> length (read_buf c) = sizeof_read_buf"

text \<open>The loop takes exactly the body off the buffer.\<close>

lemma recv_body_spec:
  assumes "evbuffer_laws api bytes"
  shows "buf_ok c \<Longrightarrow> bytes (ev_read_buf c) = m @ rest \<Longrightarrow>
    \<exists>c'. recv_body api (length m) body c = (body @ m, c') \<and> bytes (ev_read_buf c') = rest
      \<and> read_buf_list c' = read_buf_list c \<and> ev_write_buf c' = ev_write_buf c \<and> fd c' = fd c \<and> buf_ok c'"
proof (induction "length m" arbitrary: m body c rule: less_induct)
  case less
  show ?case
  proof (cases "m = []")
    case True
    then show ?thesis using less.prems by (simp add: recv_body.simps)
  next
    case False
    define rd where "rd = min sizeof_read_buf (length m)"
    have rd: "0 < rd" "rd \<le> length m" "rd \<le> sizeof_read_buf"
      using False by (simp_all add: rd_def sizeof_read_buf_def)
    obtain b' where b': "eb_remove api rd (ev_read_buf c) = (int rd, take rd m, b')" "bytes b' = drop rd m @ rest"
      using laws(3) [OF assms, of rd "ev_read_buf c"] less.prems(2) rd by (auto simp: min_def)
    let ?c = "c\<lparr>ev_read_buf := b', read_buf := overwrite 0 (take rd m) (read_buf c)\<rparr>"
    have t: "take rd (overwrite 0 (take rd m) (read_buf c)) = take rd m"
      using rd by (simp add: overwrite_def)
    have ok: "buf_ok ?c" using less.prems(1) rd by (simp add: buf_ok_def)
    have l: "length m - rd = length (drop rd m)" by simp
    have step: "recv_body api (length m) body c = recv_body api (length (drop rd m)) (body @ take rd m) ?c"
      using rd b'(1) False by (subst recv_body.simps) (simp add: GetReadBuffer_def Let_def t flip: rd_def)
    have "length (drop rd m) < length m" using rd False by simp
    from less.hyps [OF this ok, of "body @ take rd m"] b'(2) show ?thesis
      unfolding step by simp
  qed
qed

text \<open>One receive, on a buffer that holds a whole message, and on one that does not.\<close>

lemma head_length: "length m < 2 ^ 32 \<Longrightarrow> unat (of_nat (length m) :: u32) = length m"
  by (simp add: unat_of_nat take_bit_nat_eq_self_iff)

lemma recv_whole:
  assumes "evbuffer_laws api bytes" "buf_ok c" "length m < 2 ^ 32" "bytes (ev_read_buf c) = frame m @ rest"
  shows "\<exists>c'. RecvNetMessage api c = (True, c') \<and> bytes (ev_read_buf c') = rest
    \<and> read_buf_list c' = read_buf_list c @ [m] \<and> ev_write_buf c' = ev_write_buf c \<and> fd c' = fd c \<and> buf_ok c'"
proof -
  let ?h = "head_bytes (send_head (length m))"
  have hl: "length ?h = sizeof_NetHeadPacket" by simp
  have len: "GetReadBufferLen api c = sizeof_NetHeadPacket + length m + length rest"
    using assms(4) by (simp add: GetReadBufferLen_def laws [OF assms(1)] frame_def)
  have copy: "CopyReadBuffer api sizeof_NetHeadPacket c = ?h"
    using assms(4) by (simp add: CopyReadBuffer_def laws [OF assms(1)] frame_def)
  have plen: "unat (swap32 (pkt_len (read_head ?h))) = length m"
    using read_head_bytes [of "send_head (length m)" "[]"] head_length [OF assms(3)] by (simp add: send_head_def)
  obtain b' where b': "eb_remove api sizeof_NetHeadPacket (ev_read_buf c) = (int sizeof_NetHeadPacket, ?h, b')"
      "bytes b' = m @ rest"
    using laws(3) [OF assms(1), of sizeof_NetHeadPacket "ev_read_buf c"] assms(4) hl by (auto simp: frame_def)
  have "buf_ok (c\<lparr>ev_read_buf := b'\<rparr>)" "bytes (ev_read_buf (c\<lparr>ev_read_buf := b'\<rparr>)) = m @ rest"
    using assms(2) b'(2) by (simp_all add: buf_ok_def)
  from recv_body_spec [OF assms(1) this, of "[]"] obtain c' where
    "recv_body api (length m) [] (c\<lparr>ev_read_buf := b'\<rparr>) = (m, c')" "bytes (ev_read_buf c') = rest"
    "read_buf_list c' = read_buf_list c" "ev_write_buf c' = ev_write_buf c" "fd c' = fd c" "buf_ok c'" by auto
  then show ?thesis
    using b'(1) by (simp add: RecvNetMessage_def len copy plen GetReadBuffer_def Let_def buf_ok_def)
qed

lemma recv_partial:
  assumes "evbuffer_laws api bytes" "length m < 2 ^ 32" "bytes (ev_read_buf c) @ tl1 = frame m @ rest"
    and "length (bytes (ev_read_buf c)) < length (frame m)"
  shows "RecvNetMessage api c = (False, c)"
proof (cases "length (bytes (ev_read_buf c)) < sizeof_NetHeadPacket")
  case True
  then show ?thesis by (simp add: RecvNetMessage_def GetReadBufferLen_def laws [OF assms(1)])
next
  case False
  let ?h = "head_bytes (send_head (length m))"
  have "take sizeof_NetHeadPacket (bytes (ev_read_buf c)) = take sizeof_NetHeadPacket (bytes (ev_read_buf c) @ tl1)"
    using False by simp
  also have "\<dots> = ?h" unfolding assms(3) by (simp add: frame_def)
  finally have copy: "CopyReadBuffer api sizeof_NetHeadPacket c = ?h"
    by (simp add: CopyReadBuffer_def laws [OF assms(1)])
  have plen: "unat (swap32 (pkt_len (read_head ?h))) = length m"
    using read_head_bytes [of "send_head (length m)" "[]"] head_length [OF assms(2)] by (simp add: send_head_def)
  have "length (bytes (ev_read_buf c)) < length m + sizeof_NetHeadPacket" using assms(4) by (simp add: frame_def)
  then show ?thesis
    by (simp add: RecvNetMessage_def GetReadBufferLen_def laws [OF assms(1)] copy plen Let_def)
qed

end
