(* ===== verification/Connection_Proof.thy ===== *)
theory Connection_Proof
  imports Connection
begin

text \<open>
  Framing over a fragmented stream: what the sender writes, and what the receiver delivers when the
  same bytes arrive cut in arbitrary places, one read event per arrival.
\<close>

section \<open>Sending\<close>

fun send_all :: "'b evbuffer_api \<Rightarrow> u8 list list \<Rightarrow> 'b connection \<Rightarrow> bool \<times> 'b connection" where
  "send_all api [] c = (True, c)"
| "send_all api (m # ms) c =
     (case SendNetMessage api m c of (ok, c) \<Rightarrow> if ok then send_all api ms c else (False, c))"

lemma send_frame:
  assumes "evbuffer_laws api bytes" "SendNetMessage api m c = (True, c')"
  shows "bytes (ev_write_buf c') = bytes (ev_write_buf c) @ frame m"
proof -
  have add: "bytes b' = bytes b @ d" if "eb_add api d b = (0, b')" for d b b'
    using assms(1) that unfolding evbuffer_laws_def by (metis Pair_inject zero_neq_neg_one)
  obtain r b where b: "eb_add api (head_bytes (send_head (length m))) (ev_write_buf c) = (r, b)" by fastforce
  obtain r' b' where b': "eb_add api m b = (r', b')" by fastforce
  have z: "r = 0" "r' = 0" "c' = c\<lparr>ev_write_buf := b'\<rparr>"
    using assms(2) b b' by (auto simp: SendNetMessage_def AddToWriteBuffer_def split: if_splits)
  then show ?thesis using add b b' by (simp add: frame_def)
qed

text \<open>libevent's add succeeds.\<close>

definition adds :: "'b evbuffer_api \<Rightarrow> bool" where
  "adds api \<longleftrightarrow> (\<forall>d b. fst (eb_add api d b) = 0)"

lemma send_ok:
  assumes "evbuffer_laws api bytes" "adds api"
  obtains c' where "SendNetMessage api m c = (True, c')" "bytes (ev_write_buf c') = bytes (ev_write_buf c) @ frame m"
    "read_buf_list c' = read_buf_list c" "ev_read_buf c' = ev_read_buf c" "read_buf c' = read_buf c" "fd c' = fd c"
proof -
  obtain r1 b1 where 1: "eb_add api (head_bytes (send_head (length m))) (ev_write_buf c) = (r1, b1)" by fastforce
  obtain r2 b2 where 2: "eb_add api m b1 = (r2, b2)" by fastforce
  have r: "r1 = 0" "r2 = 0" using assms(2) 1 2 unfolding adds_def by (metis fst_conv)+
  let ?c = "c\<lparr>ev_write_buf := b2\<rparr>"
  have c: "SendNetMessage api m c = (True, ?c)"
    using 1 2 r by (simp add: SendNetMessage_def AddToWriteBuffer_def)
  show thesis by (rule that [OF c send_frame [OF assms(1) c]]) simp_all
qed

lemma send_frames:
  assumes "evbuffer_laws api bytes"
  shows "send_all api ms c = (True, c') \<Longrightarrow> bytes (ev_write_buf c') = bytes (ev_write_buf c) @ frames ms"
proof (induction ms arbitrary: c)
  case Nil
  then show ?case by simp
next
  case (Cons m ms)
  then obtain c1 where "SendNetMessage api m c = (True, c1)" "send_all api ms c1 = (True, c')"
    by (auto split: prod.splits if_splits)
  then show ?case using Cons.IH send_frame [OF assms] by (simp add: frames_Cons)
qed

section \<open>Receiving\<close>

text \<open>One arrival of bytes and the read event libevent raises for it.\<close>

definition arrival :: "'b evbuffer_api \<Rightarrow> u8 list \<Rightarrow> 'b connection \<Rightarrow> 'b connection" where
  "arrival api d c = snd (RecvNetMessage api (c\<lparr>ev_read_buf := eb_arrive api d (ev_read_buf c)\<rparr>))"

definition arrivals :: "'b evbuffer_api \<Rightarrow> u8 list list \<Rightarrow> 'b connection \<Rightarrow> 'b connection" where
  "arrivals api chunks c = fold (arrival api) chunks c"

definition at_frames :: "('b \<Rightarrow> u8 list) \<Rightarrow> u8 list list \<Rightarrow> u8 list list \<Rightarrow> u8 list \<Rightarrow> 'b connection \<Rightarrow> bool" where
  "at_frames bytes got ms coming c \<longleftrightarrow> buf_ok c \<and> read_buf_list c = got
     \<and> bytes (ev_read_buf c) @ coming = frames ms"

lemma arrival_step:
  assumes "evbuffer_laws api bytes" "at_frames bytes got ms (d @ coming) c" "\<forall>m\<in>set ms. length m < 2 ^ 32"
  shows "at_frames bytes got ms coming (arrival api d c) \<or>
    (\<exists>m ms'. ms = m # ms' \<and> at_frames bytes (got @ [m]) ms' coming (arrival api d c))"
proof -
  let ?c = "c\<lparr>ev_read_buf := eb_arrive api d (ev_read_buf c)\<rparr>"
  have c: "buf_ok ?c" "read_buf_list ?c = got" "bytes (ev_read_buf ?c) @ coming = frames ms"
    using assms(2) laws(4) [OF assms(1)] by (simp_all add: at_frames_def buf_ok_def)
  show ?thesis
  proof (cases ms)
    case Nil
    then have "RecvNetMessage api ?c = (False, ?c)"
      using c(3) laws(1) [OF assms(1)] by (simp add: RecvNetMessage_def GetReadBufferLen_def sizeof_NetHeadPacket_def)
    then show ?thesis using c by (simp add: arrival_def at_frames_def)
  next
    case (Cons m ms')
    have lm: "length m < 2 ^ 32" using assms(3) Cons by simp
    have e: "bytes (ev_read_buf ?c) @ coming = frame m @ frames ms'" using c(3) Cons by (simp add: frames_Cons)
    show ?thesis
    proof (cases "length (bytes (ev_read_buf ?c)) < length (frame m)")
      case True
      from recv_partial [OF assms(1) lm e True] show ?thesis using c by (simp add: arrival_def at_frames_def)
    next
      case False
      then have "take (length (frame m)) (bytes (ev_read_buf ?c)) = frame m"
        using arg_cong [OF e, of "take (length (frame m))"] by simp
      then obtain rest where rest: "bytes (ev_read_buf ?c) = frame m @ rest"
        by (metis append_take_drop_id)
      then have rest2: "rest @ coming = frames ms'" using e by simp
      from recv_whole [OF assms(1) c(1) lm rest] show ?thesis
        using rest2 c(2) Cons by (auto simp: arrival_def at_frames_def)
    qed
  qed
qed

lemma arrivals_prefix:
  assumes "evbuffer_laws api bytes"
  shows "at_frames bytes got ms (concat chunks @ coming) c \<Longrightarrow> \<forall>m\<in>set ms. length m < 2 ^ 32 \<Longrightarrow>
    \<exists>k\<le>length chunks. k \<le> length ms \<and> at_frames bytes (got @ take k ms) (drop k ms) coming (arrivals api chunks c)"
proof (induction chunks arbitrary: c got ms)
  case Nil
  then show ?case by (simp add: arrivals_def)
next
  case (Cons d chunks)
  have a: "at_frames bytes got ms (d @ concat chunks @ coming) c" using Cons.prems(1) by simp
  have r: "arrivals api (d # chunks) c = arrivals api chunks (arrival api d c)" by (simp add: arrivals_def)
  from arrival_step [OF assms a Cons.prems(2)] show ?case
  proof
    assume "at_frames bytes got ms (concat chunks @ coming) (arrival api d c)"
    from Cons.IH [OF this Cons.prems(2)] obtain k where "k \<le> length chunks" "k \<le> length ms"
      "at_frames bytes (got @ take k ms) (drop k ms) coming (arrivals api chunks (arrival api d c))" by blast
    then show ?thesis unfolding r by (intro exI [of _ k]) simp
  next
    assume "\<exists>m ms'. ms = m # ms' \<and> at_frames bytes (got @ [m]) ms' (concat chunks @ coming) (arrival api d c)"
    then obtain m ms' where m: "ms = m # ms'" "at_frames bytes (got @ [m]) ms' (concat chunks @ coming) (arrival api d c)"
      by blast
    then obtain k where "k \<le> length chunks" "k \<le> length ms'"
      "at_frames bytes ((got @ [m]) @ take k ms') (drop k ms') coming (arrivals api chunks (arrival api d c))"
      using Cons.IH [OF m(2)] Cons.prems(2) by auto
    then show ?thesis unfolding r by (intro exI [of _ "Suc k"]) (simp add: m(1))
  qed
qed

text \<open>Read events without new bytes deliver one message each, once all bytes are there.\<close>

lemma pump_one:
  assumes "evbuffer_laws api bytes" "at_frames bytes got (m # ms) [] c" "length m < 2 ^ 32"
  shows "at_frames bytes (got @ [m]) ms [] (arrival api [] c)"
proof -
  let ?c = "c\<lparr>ev_read_buf := eb_arrive api [] (ev_read_buf c)\<rparr>"
  have c: "buf_ok ?c" "read_buf_list ?c = got" "bytes (ev_read_buf ?c) = frame m @ frames ms"
    using assms(2) laws(4) [OF assms(1)] by (simp_all add: at_frames_def buf_ok_def frames_Cons)
  from recv_whole [OF assms(1) c(1) assms(3) c(3)] c(2) show ?thesis
    by (auto simp: arrival_def at_frames_def)
qed

lemma pump_all:
  assumes "evbuffer_laws api bytes"
  shows "at_frames bytes got ms [] c \<Longrightarrow> \<forall>m\<in>set ms. length m < 2 ^ 32 \<Longrightarrow> length ms \<le> n \<Longrightarrow>
    at_frames bytes (got @ ms) [] [] (arrivals api (replicate n []) c)"
proof (induction n arbitrary: c got ms)
  case 0
  then show ?case by (simp add: arrivals_def)
next
  case (Suc n)
  have r: "arrivals api (replicate (Suc n) []) c = arrivals api (replicate n []) (arrival api [] c)"
    by (simp add: arrivals_def)
  show ?case
  proof (cases ms)
    case Nil
    have "at_frames bytes got [] ([] @ []) c" using Suc.prems(1) Nil by simp
    from arrival_step [OF assms this] have "at_frames bytes got [] [] (arrival api [] c)" by simp
    from Suc.IH [OF this] show ?thesis unfolding r Nil by simp
  next
    case (Cons m ms')
    have "at_frames bytes (got @ [m]) ms' [] (arrival api [] c)"
      by (rule pump_one [OF assms]) (use Suc.prems Cons in auto)
    from Suc.IH [OF this] show ?thesis unfolding r using Suc.prems Cons by simp
  qed
qed

text \<open>
  C4. Framing survives fragmentation: the bytes that a sender's buffer holds after \<open>SendNetMessage\<close> of
  each of the messages \<open>ms\<close> (each shorter than \<open>2^32\<close> bytes) may arrive cut at arbitrary places; after any
  cutting the receiver has queued exactly the first \<open>k\<close> of the messages, in order and unchanged, and
  after as many further read events as there are messages, all of them.
\<close>

theorem framing_roundtrip:
  assumes "evbuffer_laws api bytes" "bytes (ev_write_buf s) = []" "send_all api ms s = (True, s')"
    and "concat chunks = bytes (ev_write_buf s')" "\<forall>m\<in>set ms. length m < 2 ^ 32"
    and "buf_ok c" "read_buf_list c = []" "bytes (ev_read_buf c) = []"
  shows "(\<exists>k\<le>length chunks. read_buf_list (arrivals api chunks c) = take k ms)
    \<and> read_buf_list (arrivals api (chunks @ replicate (length ms) []) c) = ms"
proof -
  have "concat chunks = frames ms" using send_frames [OF assms(1,3)] assms(2,4) by simp
  then have "at_frames bytes [] ms (concat chunks @ []) c" using assms(6-8) by (simp add: at_frames_def)
  from arrivals_prefix [OF assms(1) this assms(5)] obtain k where k: "k \<le> length chunks" "k \<le> length ms"
    "at_frames bytes (take k ms) (drop k ms) [] (arrivals api chunks c)" by auto
  have "\<forall>m\<in>set (drop k ms). length m < 2 ^ 32" using assms(5) by (meson in_set_dropD)
  from pump_all [OF assms(1) k(3) this, of "length ms"]
  have "at_frames bytes ms [] [] (arrivals api (replicate (length ms) []) (arrivals api chunks c))" by simp
  then have "read_buf_list (arrivals api (chunks @ replicate (length ms) []) c) = ms"
    by (simp add: arrivals_def at_frames_def)
  then show ?thesis using k by (auto simp: at_frames_def)
qed

text \<open>A buffer kept as the list of its bytes satisfies the laws.\<close>

definition list_evbuffer :: "u8 list evbuffer_api" where
  "list_evbuffer = \<lparr>eb_length = length, eb_copyout = take,
     eb_remove = (\<lambda>n b. (int (length (take n b)), take n b, drop n b)), eb_add = (\<lambda>d b. (0, b @ d)),
     eb_add_buffer = (\<lambda>w r. (w @ r, [])), eb_arrive = (\<lambda>d b. b @ d)\<rparr>"

lemma list_evbuffer_laws: "evbuffer_laws list_evbuffer (\<lambda>b. b)"
  by (simp add: evbuffer_laws_def list_evbuffer_def)

definition list_connection :: "u8 list connection" where
  "list_connection = \<lparr>fd = 3, ev_read_buf = [], ev_write_buf = [], read_buf_list = [], read_buf = replicate 1024 0\<rparr>"

theorem framing_roundtrip_witness:
  "read_buf_list (arrivals list_evbuffer ([[0, 0, 0], [0, 0, 2, 72, 105, 0], [0, 0, 0, 0, 1, 33], [], []]) list_connection)
     = [[72, 105], [33]]"
proof -
  let ?s = "list_connection\<lparr>ev_write_buf := frames [[72, 105], [33]]\<rparr>"
  have f: "frames [[72, 105], [33]] = [0, 0, 0, 0, 0, 2, 72, 105, 0, 0, 0, 0, 0, 1, 33]"
    by (simp add: frames_def frame_def head_bytes_def send_head_def swap16_def kNetHeadPacketVersion_def
        swap32_def word_bytes) (simp add: byte0_def byte1_def byte2_def byte3_def)
  have s: "send_all list_evbuffer [[72, 105], [33]] list_connection = (True, ?s)"
    by (simp add: SendNetMessage_def AddToWriteBuffer_def list_evbuffer_def list_connection_def frames_def frame_def)
  show ?thesis
    using framing_roundtrip [OF list_evbuffer_laws _ s, of "[[0, 0, 0], [0, 0, 2, 72, 105, 0], [0, 0, 0, 0, 1, 33]]" list_connection]
    by (simp add: f list_connection_def buf_ok_def sizeof_read_buf_def)
qed

text \<open>
  A read event takes one message at most: when two or more messages arrive together, one is queued
  and the rest of the bytes stays in the buffer until the peer sends something else.
\<close>

theorem one_message_per_event:
  assumes "evbuffer_laws api bytes" "buf_ok c" "bytes (ev_read_buf c) = []" "length m < 2 ^ 32"
  shows "read_buf_list (arrival api (frame m @ rest) c) = read_buf_list c @ [m]
    \<and> bytes (ev_read_buf (arrival api (frame m @ rest) c)) = rest"
proof -
  let ?c = "c\<lparr>ev_read_buf := eb_arrive api (frame m @ rest) (ev_read_buf c)\<rparr>"
  have "buf_ok ?c" "bytes (ev_read_buf ?c) = frame m @ rest"
    using assms(2,3) laws(4) [OF assms(1)] by (simp_all add: buf_ok_def)
  from recv_whole [OF assms(1) this(1) assms(4) this(2)] show ?thesis
    by (auto simp: arrival_def)
qed

theorem one_message_per_event_witness:
  "ev_read_buf (arrival list_evbuffer (frame [72] @ frame [33]) list_connection) = frame [33]"
  using one_message_per_event [OF list_evbuffer_laws, of list_connection "[72]" "frame [33]"]
  by (simp add: list_connection_def buf_ok_def sizeof_read_buf_def)

end
