(* ===== verification/Wire.thy ===== *)
theory Wire
  imports Shm
begin

text \<open>
  The protobuf runtime that \<^verbatim>\<open>src/codec/rpc.pb.cc\<close> calls.  It is not part of the repository: the
  primitives of \<open>WireFormatLite\<close> and the coded streams are a parameter, a record of functions, and
  \<open>wire_laws\<close> states what protobuf documents of them, that a primitive read gives back what was
  written and that reading consumes input.  \<open>proto_wire\<close> is an instance that satisfies the laws.

  The loop every \<open>MergePartialFromCodedStream\<close> has is \<open>merge_loop\<close>, with the message's switch over the
  field number as an argument.  \<open>ExpectTag\<close> and \<open>ExpectAtEnd\<close> only shortcut the next \<open>ReadTag\<close>.
\<close>

section \<open>Primitives\<close>

text \<open>
  \<open>r_tag\<close> returns the tag 0 at the end of the input.  \<open>r_skip\<close> is \<open>SkipField\<close>, with the raw bytes it
  adds to the unknown fields; \<open>w_varint_field\<close> is \<open>AddVarint\<close>.
\<close>

record wire_api =
  w_tag :: "u32 \<Rightarrow> u8 list"
  w_uint64 :: "u64 \<Rightarrow> u8 list"
  w_int32 :: "int \<Rightarrow> u8 list"
  w_int64 :: "int \<Rightarrow> u8 list"
  w_enum :: "int \<Rightarrow> u8 list"
  w_bytes :: "u8 list \<Rightarrow> u8 list"
  w_varint_field :: "nat \<Rightarrow> int \<Rightarrow> u8 list"
  r_tag :: "u8 list \<Rightarrow> u32 \<times> u8 list"
  r_uint64 :: "u8 list \<Rightarrow> (u64 \<times> u8 list) option"
  r_int32 :: "u8 list \<Rightarrow> (int \<times> u8 list) option"
  r_int64 :: "u8 list \<Rightarrow> (int \<times> u8 list) option"
  r_enum :: "u8 list \<Rightarrow> (int \<times> u8 list) option"
  r_bytes :: "u8 list \<Rightarrow> (u8 list \<times> u8 list) option"
  r_skip :: "u32 \<Rightarrow> u8 list \<Rightarrow> (u8 list \<times> u8 list) option"
  s_uint64 :: "u64 \<Rightarrow> nat"
  s_int32 :: "int \<Rightarrow> nat"
  s_int64 :: "int \<Rightarrow> nat"
  s_enum :: "int \<Rightarrow> nat"
  s_len :: "nat \<Rightarrow> nat"

definition consumes :: "(u8 list \<Rightarrow> ('a \<times> u8 list) option) \<Rightarrow> bool" where
  "consumes r \<longleftrightarrow> (\<forall>i v rest. r i = Some (v, rest) \<longrightarrow> length rest \<le> length i)"

definition max_message :: nat where "max_message = 2 ^ 26"

definition wire_laws :: "wire_api \<Rightarrow> bool" where
  "wire_laws api \<longleftrightarrow>
     (\<forall>t rest. t \<noteq> 0 \<longrightarrow> r_tag api (w_tag api t @ rest) = (t, rest)) \<and>
     r_tag api [] = (0, []) \<and>
     (\<forall>t. t < 128 \<longrightarrow> length (w_tag api t) = 1) \<and>
     (\<forall>v rest. r_uint64 api (w_uint64 api v @ rest) = Some (v, rest)) \<and>
     (\<forall>v rest. in_s32 v \<longrightarrow> r_int32 api (w_int32 api v @ rest) = Some (v, rest)) \<and>
     (\<forall>v rest. in_s64 v \<longrightarrow> r_int64 api (w_int64 api v @ rest) = Some (v, rest)) \<and>
     (\<forall>v rest. in_s32 v \<longrightarrow> r_enum api (w_enum api v @ rest) = Some (v, rest)) \<and>
     (\<forall>d rest. length d < max_message \<longrightarrow> r_bytes api (w_bytes api d @ rest) = Some (d, rest)) \<and>
     (\<forall>i t rest. r_tag api i = (t, rest) \<and> t \<noteq> 0 \<longrightarrow> length rest < length i) \<and>
     consumes (r_uint64 api) \<and> consumes (r_int32 api) \<and> consumes (r_int64 api) \<and> consumes (r_enum api) \<and>
     consumes (r_bytes api) \<and> (\<forall>t. consumes (r_skip api t)) \<and>
     (\<forall>v. s_uint64 api v = length (w_uint64 api v)) \<and>
     (\<forall>v. s_int32 api v = length (w_int32 api v)) \<and>
     (\<forall>v. s_int64 api v = length (w_int64 api v)) \<and>
     (\<forall>v. s_enum api v = length (w_enum api v)) \<and>
     (\<forall>d. s_len api (length d) = length (w_bytes api d)) \<and>
     (\<forall>v. length (w_uint64 api v) \<le> 10) \<and>
     (\<forall>v. length (w_int32 api v) \<le> 10 \<and> length (w_int64 api v) \<le> 10 \<and> length (w_enum api v) \<le> 10) \<and>
     (\<forall>d. length d < max_message \<longrightarrow> length (w_bytes api d) \<le> length d + 10) \<and>
     (\<forall>d. length d \<le> length (w_bytes api d))"

definition GetTagFieldNumber :: "u32 \<Rightarrow> nat" where "GetTagFieldNumber tag = unat (drop_bit 3 tag)"
definition GetTagWireType :: "u32 \<Rightarrow> nat" where "GetTagWireType tag = unat (tag AND 7)"

definition WIRETYPE_VARINT :: nat where "WIRETYPE_VARINT = 0"
definition WIRETYPE_LENGTH_DELIMITED :: nat where "WIRETYPE_LENGTH_DELIMITED = 2"
definition WIRETYPE_END_GROUP :: nat where "WIRETYPE_END_GROUP = 4"

lemmas wiretypes = GetTagFieldNumber_def GetTagWireType_def WIRETYPE_VARINT_def
  WIRETYPE_LENGTH_DELIMITED_def WIRETYPE_END_GROUP_def

definition make_tag :: "nat \<Rightarrow> nat \<Rightarrow> u32" where
  "make_tag fld wire_type = push_bit 3 (of_nat fld) OR of_nat wire_type"

definition WriteUInt64 :: "wire_api \<Rightarrow> nat \<Rightarrow> u64 \<Rightarrow> u8 list" where
  "WriteUInt64 api fld v = w_tag api (make_tag fld WIRETYPE_VARINT) @ w_uint64 api v"

definition WriteInt32 :: "wire_api \<Rightarrow> nat \<Rightarrow> int \<Rightarrow> u8 list" where
  "WriteInt32 api fld v = w_tag api (make_tag fld WIRETYPE_VARINT) @ w_int32 api v"

definition WriteInt64 :: "wire_api \<Rightarrow> nat \<Rightarrow> int \<Rightarrow> u8 list" where
  "WriteInt64 api fld v = w_tag api (make_tag fld WIRETYPE_VARINT) @ w_int64 api v"

definition WriteEnum :: "wire_api \<Rightarrow> nat \<Rightarrow> int \<Rightarrow> u8 list" where
  "WriteEnum api fld v = w_tag api (make_tag fld WIRETYPE_VARINT) @ w_enum api v"

definition WriteBytes :: "wire_api \<Rightarrow> nat \<Rightarrow> u8 list \<Rightarrow> u8 list" where
  "WriteBytes api fld d = w_tag api (make_tag fld WIRETYPE_LENGTH_DELIMITED) @ w_bytes api d"

text \<open>\<open>if (has_x()) Write...(x())\<close>, and the same for sizes and merging.\<close>

fun opt_field :: "('a \<Rightarrow> 'b list) \<Rightarrow> 'a option \<Rightarrow> 'b list" where
  "opt_field f None = []"
| "opt_field f (Some v) = f v"

fun opt_size :: "('a \<Rightarrow> nat) \<Rightarrow> 'a option \<Rightarrow> nat" where
  "opt_size f None = 0"
| "opt_size f (Some v) = 1 + f v"

section \<open>Parsing\<close>

datatype 'm field_step = Failed | EndGroup | Next 'm "u8 list"

fun next_field :: "('a \<times> u8 list) option \<Rightarrow> ('a \<Rightarrow> 'm) \<Rightarrow> 'm field_step" where
  "next_field None upd = Failed"
| "next_field (Some (v, rest)) upd = Next (upd v) rest"

text \<open>A message field: a length-delimited block that must be parsed to its end.\<close>

definition next_message ::
    "(u8 list \<times> u8 list) option \<Rightarrow> (u8 list \<Rightarrow> ('a \<times> bool) option) \<Rightarrow> ('a \<Rightarrow> 'm) \<Rightarrow> 'm field_step" where
  "next_message blk parse upd =
     (case blk of
        None \<Rightarrow> Failed
      | Some (bs, rest) \<Rightarrow>
          (case parse bs of
             Some (t, True) \<Rightarrow> Next (upd t) rest
           | _ \<Rightarrow> Failed))"

text \<open>The label \<open>handle_uninterpreted\<close>.\<close>

definition uninterpreted :: "wire_api \<Rightarrow> u32 \<Rightarrow> u8 list \<Rightarrow> (u8 list \<Rightarrow> 'm) \<Rightarrow> 'm field_step" where
  "uninterpreted api tag input add_unknown =
     (if GetTagWireType tag = WIRETYPE_END_GROUP then EndGroup
      else next_field (r_skip api tag input) add_unknown)"

text \<open>
  The loop.  \<open>None\<close>: it returns false; \<open>Some (m, whole)\<close>: it returns true, and \<open>whole\<close> is
  \<open>ConsumedEntireMessage()\<close>.  The first argument bounds the number of turns.
\<close>

fun merge_loop ::
    "wire_api \<Rightarrow> (u32 \<Rightarrow> u8 list \<Rightarrow> 'm \<Rightarrow> 'm field_step) \<Rightarrow> nat \<Rightarrow> u8 list \<Rightarrow> 'm \<Rightarrow> ('m \<times> bool) option" where
  "merge_loop api fld 0 input m = None"
| "merge_loop api fld (Suc n) input m =
     (case r_tag api input of (tag, rest) \<Rightarrow>
        if tag = 0 then Some (m, input = [])
        else
          (case fld tag rest m of
             Failed \<Rightarrow> None
           | EndGroup \<Rightarrow> Some (m, False)
           | Next m' rest' \<Rightarrow> merge_loop api fld n rest' m'))"

definition merge_message :: "wire_api \<Rightarrow> (u32 \<Rightarrow> u8 list \<Rightarrow> 'm \<Rightarrow> 'm field_step) \<Rightarrow> u8 list \<Rightarrow> 'm \<Rightarrow> ('m \<times> bool) option" where
  "merge_message api fld input m = merge_loop api fld (Suc (length input)) input m"

text \<open>\<open>ParseFromArray\<close>: clears the message, merges, checks the required fields and the end.\<close>

definition ParseFrom :: "(u8 list \<Rightarrow> ('m \<times> bool) option) \<Rightarrow> ('m \<Rightarrow> bool) \<Rightarrow> u8 list \<Rightarrow> 'm option" where
  "ParseFrom merge initialized bs =
     (case merge bs of
        Some (m, True) \<Rightarrow> if initialized m then Some m else None
      | _ \<Rightarrow> None)"

section \<open>Lemmas\<close>

lemma wire:
  assumes "wire_laws api"
  shows "t \<noteq> 0 \<Longrightarrow> r_tag api (w_tag api t @ rest) = (t, rest)" "r_tag api [] = (0, [])"
    "t < 128 \<Longrightarrow> length (w_tag api t) = 1"
    "r_uint64 api (w_uint64 api u @ rest) = Some (u, rest)"
    "in_s32 v \<Longrightarrow> r_int32 api (w_int32 api v @ rest) = Some (v, rest)"
    "in_s64 v \<Longrightarrow> r_int64 api (w_int64 api v @ rest) = Some (v, rest)"
    "in_s32 v \<Longrightarrow> r_enum api (w_enum api v @ rest) = Some (v, rest)"
    "length d < max_message \<Longrightarrow> r_bytes api (w_bytes api d @ rest) = Some (d, rest)"
  using assms unfolding wire_laws_def by simp_all

lemma wire_sizes:
  assumes "wire_laws api"
  shows "s_uint64 api u = length (w_uint64 api u)" "s_int32 api v = length (w_int32 api v)"
    "s_int64 api v = length (w_int64 api v)" "s_enum api v = length (w_enum api v)"
    "s_len api (length d) = length (w_bytes api d)"
  using assms unfolding wire_laws_def by simp_all

lemma wire_bounds:
  assumes "wire_laws api"
  shows "length (w_uint64 api u) \<le> 10" "length (w_int32 api v) \<le> 10" "length (w_int64 api v) \<le> 10"
    "length (w_enum api v) \<le> 10" "length d < max_message \<Longrightarrow> length (w_bytes api d) \<le> length d + 10"
    "length d \<le> length (w_bytes api d)"
  using assms unfolding wire_laws_def by simp_all

lemma wire_progress:
  assumes "wire_laws api"
  shows "r_tag api i = (t, rest) \<Longrightarrow> t \<noteq> 0 \<Longrightarrow> length rest < length i"
    "consumes (r_uint64 api)" "consumes (r_int32 api)" "consumes (r_int64 api)" "consumes (r_enum api)"
    "consumes (r_bytes api)" "consumes (r_skip api t)"
  using assms unfolding wire_laws_def by simp_all

lemma make_tag_values:
  "make_tag 1 0 = 8" "make_tag 2 0 = 16" "make_tag 3 0 = 24" "make_tag 4 0 = 32" "make_tag 5 0 = 40"
  "make_tag 1 2 = 10" "make_tag 2 2 = 18" "make_tag 3 2 = 26" "make_tag 5 2 = 42" "make_tag 6 2 = 50"
  by (simp_all add: make_tag_def)

text \<open>A piece of output that one turn of the loop reads back.\<close>

definition reads_back :: "wire_api \<Rightarrow> (u32 \<Rightarrow> u8 list \<Rightarrow> 'm \<Rightarrow> 'm field_step) \<Rightarrow> u8 list \<Rightarrow> ('m \<Rightarrow> 'm) \<Rightarrow> bool" where
  "reads_back api fld bs upd \<longleftrightarrow> (\<exists>t pay. t \<noteq> 0 \<and> bs = w_tag api t @ pay
     \<and> (\<forall>rest m. fld t (pay @ rest) m = Next (upd m) rest))"

lemma merge_pieces:
  assumes "wire_laws api"
  shows "\<forall>(bs, upd)\<in>set ps. reads_back api fld bs upd \<Longrightarrow> length ps < n \<Longrightarrow>
    merge_loop api fld n (concat (map fst ps)) m = Some (fold snd ps m, True)"
proof (induction ps arbitrary: n m)
  case Nil
  then show ?case using wire(2) [OF assms] by (cases n) simp_all
next
  case (Cons p ps)
  obtain bs upd where p: "p = (bs, upd)" by fastforce
  then obtain t pay where t: "t \<noteq> 0" "bs = w_tag api t @ pay" "\<And>rest m. fld t (pay @ rest) m = Next (upd m) rest"
    using Cons.prems(1) by (auto simp: reads_back_def)
  obtain k where k: "n = Suc k" "length ps < k" using Cons.prems(2) by (cases n) auto
  then show ?case using Cons.IH [of k] Cons.prems(1) p t wire(1) [OF assms t(1)] by simp
qed

lemma tag_nonempty: "wire_laws api \<Longrightarrow> t \<noteq> 0 \<Longrightarrow> w_tag api t \<noteq> []"
  using wire(1) [of api t "[]"] wire(2) [of api] by auto

lemma pieces_length:
  assumes "wire_laws api" "\<forall>(bs, upd)\<in>set ps. reads_back api fld bs upd"
  shows "length ps \<le> length (concat (map fst ps))"
  using assms(2)
proof (induction ps)
  case Nil
  then show ?case by simp
next
  case (Cons p ps)
  have "fst p \<noteq> []" using Cons.prems tag_nonempty [OF assms(1)] by (auto simp: reads_back_def)
  then have "1 \<le> length (fst p)" by (cases "fst p") simp_all
  then show ?case using Cons by simp
qed

lemma merge_message_pieces:
  assumes "wire_laws api" "\<forall>(bs, upd)\<in>set ps. reads_back api fld bs upd"
  shows "merge_message api fld (concat (map fst ps)) m = Some (fold snd ps m, True)"
  unfolding merge_message_def
  by (rule merge_pieces [OF assms]) (use pieces_length [OF assms] in simp)

text \<open>The bound on the turns is never reached.\<close>

definition shrinks :: "(u32 \<Rightarrow> u8 list \<Rightarrow> 'm \<Rightarrow> 'm field_step) \<Rightarrow> bool" where
  "shrinks fld \<longleftrightarrow> (\<forall>t i m m' rest. fld t i m = Next m' rest \<longrightarrow> length rest \<le> length i)"

lemma merge_loop_fuel:
  assumes "wire_laws api" "shrinks fld"
  shows "length input < n \<Longrightarrow> merge_loop api fld n input m = merge_loop api fld (Suc (length input)) input m"
proof (induction "length input" arbitrary: input n m rule: less_induct)
  case less
  obtain k where k: "n = Suc k" using less.prems by (cases n) auto
  obtain t rest where t: "r_tag api input = (t, rest)" by fastforce
  have "merge_loop api fld k rest' m' = merge_loop api fld (length input) rest' m'"
    if "fld t rest m = Next m' rest'" "t \<noteq> 0" for m' rest'
  proof -
    have "length rest' < length input"
      using wire_progress(1) [OF assms(1) t that(2)] assms(2) that(1) unfolding shrinks_def by (meson le_less_trans)
    then show ?thesis using less.hyps [of rest' k m'] less.hyps [of rest' "length input" m'] less.prems k by simp
  qed
  then show ?case by (simp add: k t split: field_step.split)
qed

section \<open>An instance\<close>

function varint :: "nat \<Rightarrow> u8 list" where
  "varint n = (if n < 128 then [of_nat n] else of_nat (n mod 128 + 128) # varint (n div 128))"
  by pat_completeness auto
termination by (relation "measure id") auto

declare varint.simps [simp del]

fun unvarint :: "u8 list \<Rightarrow> (nat \<times> u8 list) option" where
  "unvarint [] = None"
| "unvarint (b # bs) =
     (if unat b < 128 then Some (unat b, bs)
      else (case unvarint bs of None \<Rightarrow> None | Some (n, rest) \<Rightarrow> Some (unat b - 128 + 128 * n, rest)))"

lemma unat_u8: "n < 256 \<Longrightarrow> unat (of_nat n :: u8) = n"
  by (simp add: unat_of_nat take_bit_nat_eq_self_iff)

lemma unvarint_varint: "unvarint (varint n @ rest) = Some (n, rest)"
proof (induction n rule: varint.induct)
  case (1 n)
  show ?case
  proof (cases "n < 128")
    case True
    then show ?thesis by (simp add: varint.simps [of n] unat_u8)
  next
    case False
    have u: "unat (of_nat (n mod 128 + 128) :: u8) = n mod 128 + 128" by (rule unat_u8) simp
    have v: "varint n = of_nat (n mod 128 + 128) # varint (n div 128)"
      using False by (subst varint.simps) (simp del: of_nat_add)
    show ?thesis
      using 1 [OF False] unfolding v append_Cons unvarint.simps u by simp
  qed
qed

lemma unvarint_shorter: "unvarint i = Some (n, rest) \<Longrightarrow> length rest < length i"
proof (induction i arbitrary: n)
  case Nil
  then show ?case by simp
next
  case (Cons b i)
  show ?case
  proof (cases "unat b < 128")
    case False
    then obtain k where "unvarint i = Some (k, rest)" using Cons.prems by (auto split: option.splits)
    then show ?thesis using Cons.IH by fastforce
  qed (use Cons.prems in simp)
qed

lemma length_varint: "n < 128 ^ Suc k \<Longrightarrow> length (varint n) \<le> Suc k"
proof (induction k arbitrary: n)
  case 0
  then show ?case by (simp add: varint.simps)
next
  case (Suc k)
  show ?case
  proof (cases "n < 128")
    case True
    then show ?thesis by (simp add: varint.simps)
  next
    case False
    have "n div 128 < 128 ^ Suc k" using Suc.prems by (simp add: less_mult_imp_div_less)
    then have "length (varint (n div 128)) \<le> Suc k" by (rule Suc.IH)
    then show ?thesis using False by (subst varint.simps) simp
  qed
qed

lemma length_varint_u64: "length (varint (unat (v :: u64))) \<le> 10"
proof -
  have "unat v < 2 ^ 64" using unsigned_less [of v, where 'a = nat] by simp
  then have "unat v < 128 ^ Suc 9" by simp
  then show ?thesis using length_varint by fastforce
qed

lemma length_varint_len: "n < max_message \<Longrightarrow> length (varint n) \<le> 10"
proof -
  assume "n < max_message"
  then have "n < 128 ^ Suc 9" by (simp add: max_message_def)
  then show ?thesis using length_varint by fastforce
qed

definition take_block :: "u8 list \<Rightarrow> (u8 list \<times> u8 list) option" where
  "take_block i = (case unvarint i of
     None \<Rightarrow> None | Some (n, rest) \<Rightarrow> if n \<le> length rest then Some (take n rest, drop n rest) else None)"

definition proto_wire :: wire_api where
  "proto_wire = \<lparr>w_tag = (\<lambda>t. varint (unat t)), w_uint64 = (\<lambda>v. varint (unat v)),
     w_int32 = (\<lambda>v. varint (unat (word_of_int v :: u64))), w_int64 = (\<lambda>v. varint (unat (word_of_int v :: u64))),
     w_enum = (\<lambda>v. varint (unat (word_of_int v :: u64))), w_bytes = (\<lambda>d. varint (length d) @ d),
     w_varint_field = (\<lambda>f v. varint (8 * f) @ varint (unat (word_of_int v :: u64))),
     r_tag = (\<lambda>i. case unvarint i of None \<Rightarrow> (0, i) | Some (n, rest) \<Rightarrow> (of_nat n, rest)),
     r_uint64 = (\<lambda>i. map_option (\<lambda>(n, rest). (of_nat n, rest)) (unvarint i)),
     r_int32 = (\<lambda>i. map_option (\<lambda>(n, rest). (sint (of_nat n :: u32), rest)) (unvarint i)),
     r_int64 = (\<lambda>i. map_option (\<lambda>(n, rest). (sint (of_nat n :: u64), rest)) (unvarint i)),
     r_enum = (\<lambda>i. map_option (\<lambda>(n, rest). (sint (of_nat n :: u32), rest)) (unvarint i)),
     r_bytes = take_block,
     r_skip = (\<lambda>t i. if GetTagWireType t = 0 then map_option (\<lambda>(n, rest). (varint (unat t) @ varint n, rest)) (unvarint i)
        else if GetTagWireType t = 2 then map_option (\<lambda>(d, rest). (varint (unat t) @ varint (length d) @ d, rest)) (take_block i)
        else None),
     s_uint64 = (\<lambda>v. length (varint (unat v))), s_int32 = (\<lambda>v. length (varint (unat (word_of_int v :: u64)))),
     s_int64 = (\<lambda>v. length (varint (unat (word_of_int v :: u64)))),
     s_enum = (\<lambda>v. length (varint (unat (word_of_int v :: u64)))),
     s_len = (\<lambda>n. length (varint n) + n)\<rparr>"

lemma take_block_shorter: "take_block i = Some (d, rest) \<Longrightarrow> length rest \<le> length i"
  by (auto simp: take_block_def split: option.splits if_splits dest!: unvarint_shorter)

lemma s32_back: "in_s32 v \<Longrightarrow> sint (ucast (word_of_int v :: u64) :: u32) = v"
proof -
  assume v: "in_s32 v"
  have "(ucast (word_of_int v :: u64) :: u32) = word_of_int v"
    by (rule bit_word_eqI) (simp add: bit_ucast_iff bit_word_of_int_iff)
  then show ?thesis using v by (simp add: in_s32_def signed_of_int signed_take_bit_int_eq_self_iff)
qed

lemma s64_back: "in_s64 v \<Longrightarrow> sint (word_of_int v :: u64) = v"
  by (simp add: in_s64_def signed_of_int signed_take_bit_int_eq_self_iff)

lemma proto_wire_laws: "wire_laws proto_wire"
proof -
  have c: "consumes (\<lambda>i. map_option (\<lambda>(n, rest). (f n, rest)) (unvarint i))" for f :: "nat \<Rightarrow> 'a"
    by (auto simp: consumes_def dest: unvarint_shorter)
  have cb: "consumes take_block" by (auto simp: consumes_def dest: take_block_shorter)
  have cs: "consumes (r_skip proto_wire t)" for t
    by (auto simp: consumes_def proto_wire_def split: if_splits dest: unvarint_shorter take_block_shorter)
  have t1: "length (varint (unat t)) = 1" if "t < 128" for t :: u32
    using that by (subst varint.simps) (simp add: word_less_nat_alt)
  show ?thesis
    unfolding wire_laws_def
    by (intro conjI allI impI; (rule cs)?;
        auto simp: proto_wire_def unvarint_varint s32_back s64_back take_block_def c cb t1 length_varint_u64 length_varint_len
          dest: unvarint_shorter split: option.splits prod.splits)
qed

end
