(* ===== verification/Rpc_Pb.thy ===== *)
theory Rpc_Pb
  imports Wire
begin

text \<open>
  \<^verbatim>\<open>src/codec/rpc.pb.h\<close> and \<^verbatim>\<open>src/codec/rpc.pb.cc\<close>: the messages of \<^verbatim>\<open>rpc.proto\<close>.

  A field with its bit in \<open>_has_bits_\<close> is an option; \<open>x()\<close> of an absent field is the default.  Unknown
  fields are their raw bytes.  Per message: the accessors, \<open>Clear\<close>, \<open>SerializeWithCachedSizes\<close>, \<open>ByteSize\<close>,
  \<open>MergePartialFromCodedStream\<close> (the switch is \<open>_field\<close>), \<open>MergeFrom\<close>, \<open>CopyFrom\<close> and \<open>IsInitialized\<close>.
  Descriptors, reflection and the ownership of strings are not modelled.
\<close>

section \<open>StpToken\<close>

record StpToken =
  tk_stp_guid :: "u64 option"
  tk_group :: "int option"
  tk_idx :: "int option"
  tk_expires :: "int option"
  tk_key :: "u8 list option"
  tk_unknown :: "u8 list"

definition StpToken_default :: StpToken where
  "StpToken_default = \<lparr>tk_stp_guid = None, tk_group = None, tk_idx = None, tk_expires = None, tk_key = None, tk_unknown = []\<rparr>"

definition StpToken_has_stp_guid :: "StpToken \<Rightarrow> bool" where
  "StpToken_has_stp_guid m \<longleftrightarrow> tk_stp_guid m \<noteq> None"

definition StpToken_clear_stp_guid :: "StpToken \<Rightarrow> StpToken" where
  "StpToken_clear_stp_guid m = m\<lparr>tk_stp_guid := None\<rparr>"

definition StpToken_stp_guid :: "StpToken \<Rightarrow> u64" where
  "StpToken_stp_guid m = (case tk_stp_guid m of None \<Rightarrow> 0 | Some v \<Rightarrow> v)"

definition StpToken_set_stp_guid :: "u64 \<Rightarrow> StpToken \<Rightarrow> StpToken" where
  "StpToken_set_stp_guid v m = m\<lparr>tk_stp_guid := Some v\<rparr>"

definition StpToken_has_group :: "StpToken \<Rightarrow> bool" where
  "StpToken_has_group m \<longleftrightarrow> tk_group m \<noteq> None"

definition StpToken_clear_group :: "StpToken \<Rightarrow> StpToken" where
  "StpToken_clear_group m = m\<lparr>tk_group := None\<rparr>"

definition StpToken_group :: "StpToken \<Rightarrow> int" where
  "StpToken_group m = (case tk_group m of None \<Rightarrow> 0 | Some v \<Rightarrow> v)"

definition StpToken_set_group :: "int \<Rightarrow> StpToken \<Rightarrow> StpToken" where
  "StpToken_set_group v m = m\<lparr>tk_group := Some v\<rparr>"

definition StpToken_has_idx :: "StpToken \<Rightarrow> bool" where
  "StpToken_has_idx m \<longleftrightarrow> tk_idx m \<noteq> None"

definition StpToken_clear_idx :: "StpToken \<Rightarrow> StpToken" where
  "StpToken_clear_idx m = m\<lparr>tk_idx := None\<rparr>"

definition StpToken_idx :: "StpToken \<Rightarrow> int" where
  "StpToken_idx m = (case tk_idx m of None \<Rightarrow> 0 | Some v \<Rightarrow> v)"

definition StpToken_set_idx :: "int \<Rightarrow> StpToken \<Rightarrow> StpToken" where
  "StpToken_set_idx v m = m\<lparr>tk_idx := Some v\<rparr>"

definition StpToken_has_expires :: "StpToken \<Rightarrow> bool" where
  "StpToken_has_expires m \<longleftrightarrow> tk_expires m \<noteq> None"

definition StpToken_clear_expires :: "StpToken \<Rightarrow> StpToken" where
  "StpToken_clear_expires m = m\<lparr>tk_expires := None\<rparr>"

definition StpToken_expires :: "StpToken \<Rightarrow> int" where
  "StpToken_expires m = (case tk_expires m of None \<Rightarrow> 0 | Some v \<Rightarrow> v)"

definition StpToken_set_expires :: "int \<Rightarrow> StpToken \<Rightarrow> StpToken" where
  "StpToken_set_expires v m = m\<lparr>tk_expires := Some v\<rparr>"

definition StpToken_has_key :: "StpToken \<Rightarrow> bool" where
  "StpToken_has_key m \<longleftrightarrow> tk_key m \<noteq> None"

definition StpToken_clear_key :: "StpToken \<Rightarrow> StpToken" where
  "StpToken_clear_key m = m\<lparr>tk_key := None\<rparr>"

definition StpToken_key :: "StpToken \<Rightarrow> u8 list" where
  "StpToken_key m = (case tk_key m of None \<Rightarrow> [] | Some v \<Rightarrow> v)"

definition StpToken_set_key :: "u8 list \<Rightarrow> StpToken \<Rightarrow> StpToken" where
  "StpToken_set_key v m = m\<lparr>tk_key := Some v\<rparr>"

definition StpToken_Clear :: "StpToken \<Rightarrow> StpToken" where
  "StpToken_Clear m = m\<lparr>tk_stp_guid := None, tk_group := None, tk_idx := None, tk_expires := None, tk_key := None, tk_unknown := []\<rparr>"

definition StpToken_Serialize :: "wire_api \<Rightarrow> StpToken \<Rightarrow> u8 list" where
  "StpToken_Serialize api m =
     opt_field (WriteUInt64 api 1) (tk_stp_guid m) @
     opt_field (WriteInt32 api 2) (tk_group m) @
     opt_field (WriteInt32 api 3) (tk_idx m) @
     opt_field (WriteInt64 api 4) (tk_expires m) @
     opt_field (WriteBytes api 5) (tk_key m) @
     tk_unknown m"

definition StpToken_ByteSize :: "wire_api \<Rightarrow> StpToken \<Rightarrow> nat" where
  "StpToken_ByteSize api m =
     opt_size (\<lambda>v. s_uint64 api v) (tk_stp_guid m) +
     opt_size (\<lambda>v. s_int32 api v) (tk_group m) +
     opt_size (\<lambda>v. s_int32 api v) (tk_idx m) +
     opt_size (\<lambda>v. s_int64 api v) (tk_expires m) +
     opt_size (\<lambda>v. s_len api (length v)) (tk_key m) +
     length (tk_unknown m)"

definition StpToken_field :: "wire_api \<Rightarrow> u32 \<Rightarrow> u8 list \<Rightarrow> StpToken \<Rightarrow> StpToken field_step" where
  "StpToken_field api tag input m =
     (if GetTagFieldNumber tag = 1 \<and> GetTagWireType tag = WIRETYPE_VARINT then
        next_field (r_uint64 api input) (\<lambda>v. StpToken_set_stp_guid v m)
      else if GetTagFieldNumber tag = 2 \<and> GetTagWireType tag = WIRETYPE_VARINT then
        next_field (r_int32 api input) (\<lambda>v. StpToken_set_group v m)
      else if GetTagFieldNumber tag = 3 \<and> GetTagWireType tag = WIRETYPE_VARINT then
        next_field (r_int32 api input) (\<lambda>v. StpToken_set_idx v m)
      else if GetTagFieldNumber tag = 4 \<and> GetTagWireType tag = WIRETYPE_VARINT then
        next_field (r_int64 api input) (\<lambda>v. StpToken_set_expires v m)
      else if GetTagFieldNumber tag = 5 \<and> GetTagWireType tag = WIRETYPE_LENGTH_DELIMITED then
        next_field (r_bytes api input) (\<lambda>v. StpToken_set_key v m)
      else uninterpreted api tag input (\<lambda>u. m\<lparr>tk_unknown := tk_unknown m @ u\<rparr>))"

definition StpToken_Merge :: "wire_api \<Rightarrow> u8 list \<Rightarrow> StpToken \<Rightarrow> (StpToken \<times> bool) option" where
  "StpToken_Merge api = merge_message api (StpToken_field api)"

definition StpToken_MergeFrom :: "StpToken \<Rightarrow> StpToken \<Rightarrow> StpToken" where
  "StpToken_MergeFrom src m =
     (let m = (case tk_stp_guid src of None \<Rightarrow> m | Some v \<Rightarrow> StpToken_set_stp_guid v m);
          m = (case tk_group src of None \<Rightarrow> m | Some v \<Rightarrow> StpToken_set_group v m);
          m = (case tk_idx src of None \<Rightarrow> m | Some v \<Rightarrow> StpToken_set_idx v m);
          m = (case tk_expires src of None \<Rightarrow> m | Some v \<Rightarrow> StpToken_set_expires v m);
          m = (case tk_key src of None \<Rightarrow> m | Some v \<Rightarrow> StpToken_set_key v m)
      in m\<lparr>tk_unknown := tk_unknown m @ tk_unknown src\<rparr>)"

definition StpToken_CopyFrom :: "StpToken \<Rightarrow> StpToken \<Rightarrow> StpToken" where
  "StpToken_CopyFrom src m = StpToken_MergeFrom src (StpToken_Clear m)"

definition StpToken_IsInitialized :: "StpToken \<Rightarrow> bool" where
  "StpToken_IsInitialized m \<longleftrightarrow> True"

text \<open>The values of the enumeration.\<close>

definition StpResult_IsValid :: "int \<Rightarrow> bool" where
  "StpResult_IsValid value \<longleftrightarrow> value \<in> {0, 1, 2, 3, 4, 5}"

section \<open>Request\<close>

record Request =
  rq_method :: "u8 list option"
  rq_serialized_request :: "u8 list option"
  rq_unknown :: "u8 list"

definition Request_default :: Request where
  "Request_default = \<lparr>rq_method = None, rq_serialized_request = None, rq_unknown = []\<rparr>"

definition Request_has_method :: "Request \<Rightarrow> bool" where
  "Request_has_method m \<longleftrightarrow> rq_method m \<noteq> None"

definition Request_clear_method :: "Request \<Rightarrow> Request" where
  "Request_clear_method m = m\<lparr>rq_method := None\<rparr>"

definition Request_method :: "Request \<Rightarrow> u8 list" where
  "Request_method m = (case rq_method m of None \<Rightarrow> [] | Some v \<Rightarrow> v)"

definition Request_set_method :: "u8 list \<Rightarrow> Request \<Rightarrow> Request" where
  "Request_set_method v m = m\<lparr>rq_method := Some v\<rparr>"

definition Request_has_serialized_request :: "Request \<Rightarrow> bool" where
  "Request_has_serialized_request m \<longleftrightarrow> rq_serialized_request m \<noteq> None"

definition Request_clear_serialized_request :: "Request \<Rightarrow> Request" where
  "Request_clear_serialized_request m = m\<lparr>rq_serialized_request := None\<rparr>"

definition Request_serialized_request :: "Request \<Rightarrow> u8 list" where
  "Request_serialized_request m = (case rq_serialized_request m of None \<Rightarrow> [] | Some v \<Rightarrow> v)"

definition Request_set_serialized_request :: "u8 list \<Rightarrow> Request \<Rightarrow> Request" where
  "Request_set_serialized_request v m = m\<lparr>rq_serialized_request := Some v\<rparr>"

definition Request_Clear :: "Request \<Rightarrow> Request" where
  "Request_Clear m = m\<lparr>rq_method := None, rq_serialized_request := None, rq_unknown := []\<rparr>"

definition Request_Serialize :: "wire_api \<Rightarrow> Request \<Rightarrow> u8 list" where
  "Request_Serialize api m =
     opt_field (WriteBytes api 1) (rq_method m) @
     opt_field (WriteBytes api 2) (rq_serialized_request m) @
     rq_unknown m"

definition Request_ByteSize :: "wire_api \<Rightarrow> Request \<Rightarrow> nat" where
  "Request_ByteSize api m =
     opt_size (\<lambda>v. s_len api (length v)) (rq_method m) +
     opt_size (\<lambda>v. s_len api (length v)) (rq_serialized_request m) +
     length (rq_unknown m)"

definition Request_field :: "wire_api \<Rightarrow> u32 \<Rightarrow> u8 list \<Rightarrow> Request \<Rightarrow> Request field_step" where
  "Request_field api tag input m =
     (if GetTagFieldNumber tag = 1 \<and> GetTagWireType tag = WIRETYPE_LENGTH_DELIMITED then
        next_field (r_bytes api input) (\<lambda>v. Request_set_method v m)
      else if GetTagFieldNumber tag = 2 \<and> GetTagWireType tag = WIRETYPE_LENGTH_DELIMITED then
        next_field (r_bytes api input) (\<lambda>v. Request_set_serialized_request v m)
      else uninterpreted api tag input (\<lambda>u. m\<lparr>rq_unknown := rq_unknown m @ u\<rparr>))"

definition Request_Merge :: "wire_api \<Rightarrow> u8 list \<Rightarrow> Request \<Rightarrow> (Request \<times> bool) option" where
  "Request_Merge api = merge_message api (Request_field api)"

definition Request_MergeFrom :: "Request \<Rightarrow> Request \<Rightarrow> Request" where
  "Request_MergeFrom src m =
     (let m = (case rq_method src of None \<Rightarrow> m | Some v \<Rightarrow> Request_set_method v m);
          m = (case rq_serialized_request src of None \<Rightarrow> m | Some v \<Rightarrow> Request_set_serialized_request v m)
      in m\<lparr>rq_unknown := rq_unknown m @ rq_unknown src\<rparr>)"

definition Request_CopyFrom :: "Request \<Rightarrow> Request \<Rightarrow> Request" where
  "Request_CopyFrom src m = Request_MergeFrom src (Request_Clear m)"

definition Request_IsInitialized :: "Request \<Rightarrow> bool" where
  "Request_IsInitialized m \<longleftrightarrow> Request_has_method m"

section \<open>C2S_Ping\<close>

record C2S_Ping =
  cp_unknown :: "u8 list"

definition C2S_Ping_default :: C2S_Ping where
  "C2S_Ping_default = \<lparr>cp_unknown = []\<rparr>"

definition C2S_Ping_Clear :: "C2S_Ping \<Rightarrow> C2S_Ping" where
  "C2S_Ping_Clear m = m\<lparr>cp_unknown := []\<rparr>"

definition C2S_Ping_Serialize :: "wire_api \<Rightarrow> C2S_Ping \<Rightarrow> u8 list" where
  "C2S_Ping_Serialize api m =
     cp_unknown m"

definition C2S_Ping_ByteSize :: "wire_api \<Rightarrow> C2S_Ping \<Rightarrow> nat" where
  "C2S_Ping_ByteSize api m =
     length (cp_unknown m)"

definition C2S_Ping_field :: "wire_api \<Rightarrow> u32 \<Rightarrow> u8 list \<Rightarrow> C2S_Ping \<Rightarrow> C2S_Ping field_step" where
  "C2S_Ping_field api tag input m =
     (uninterpreted api tag input (\<lambda>u. m\<lparr>cp_unknown := cp_unknown m @ u\<rparr>))"

definition C2S_Ping_Merge :: "wire_api \<Rightarrow> u8 list \<Rightarrow> C2S_Ping \<Rightarrow> (C2S_Ping \<times> bool) option" where
  "C2S_Ping_Merge api = merge_message api (C2S_Ping_field api)"

definition C2S_Ping_MergeFrom :: "C2S_Ping \<Rightarrow> C2S_Ping \<Rightarrow> C2S_Ping" where
  "C2S_Ping_MergeFrom src m = m\<lparr>cp_unknown := cp_unknown m @ cp_unknown src\<rparr>"

definition C2S_Ping_CopyFrom :: "C2S_Ping \<Rightarrow> C2S_Ping \<Rightarrow> C2S_Ping" where
  "C2S_Ping_CopyFrom src m = C2S_Ping_MergeFrom src (C2S_Ping_Clear m)"

definition C2S_Ping_IsInitialized :: "C2S_Ping \<Rightarrow> bool" where
  "C2S_Ping_IsInitialized m \<longleftrightarrow> True"

section \<open>S2C_Ping\<close>

record S2C_Ping =
  sp_unknown :: "u8 list"

definition S2C_Ping_default :: S2C_Ping where
  "S2C_Ping_default = \<lparr>sp_unknown = []\<rparr>"

definition S2C_Ping_Clear :: "S2C_Ping \<Rightarrow> S2C_Ping" where
  "S2C_Ping_Clear m = m\<lparr>sp_unknown := []\<rparr>"

definition S2C_Ping_Serialize :: "wire_api \<Rightarrow> S2C_Ping \<Rightarrow> u8 list" where
  "S2C_Ping_Serialize api m =
     sp_unknown m"

definition S2C_Ping_ByteSize :: "wire_api \<Rightarrow> S2C_Ping \<Rightarrow> nat" where
  "S2C_Ping_ByteSize api m =
     length (sp_unknown m)"

definition S2C_Ping_field :: "wire_api \<Rightarrow> u32 \<Rightarrow> u8 list \<Rightarrow> S2C_Ping \<Rightarrow> S2C_Ping field_step" where
  "S2C_Ping_field api tag input m =
     (uninterpreted api tag input (\<lambda>u. m\<lparr>sp_unknown := sp_unknown m @ u\<rparr>))"

definition S2C_Ping_Merge :: "wire_api \<Rightarrow> u8 list \<Rightarrow> S2C_Ping \<Rightarrow> (S2C_Ping \<times> bool) option" where
  "S2C_Ping_Merge api = merge_message api (S2C_Ping_field api)"

definition S2C_Ping_MergeFrom :: "S2C_Ping \<Rightarrow> S2C_Ping \<Rightarrow> S2C_Ping" where
  "S2C_Ping_MergeFrom src m = m\<lparr>sp_unknown := sp_unknown m @ sp_unknown src\<rparr>"

definition S2C_Ping_CopyFrom :: "S2C_Ping \<Rightarrow> S2C_Ping \<Rightarrow> S2C_Ping" where
  "S2C_Ping_CopyFrom src m = S2C_Ping_MergeFrom src (S2C_Ping_Clear m)"

definition S2C_Ping_IsInitialized :: "S2C_Ping \<Rightarrow> bool" where
  "S2C_Ping_IsInitialized m \<longleftrightarrow> True"

section \<open>StpCryptoMsg\<close>

record StpCryptoMsg =
  cm_token :: "StpToken option"
  cm_data :: "u8 list option"
  cm_unknown :: "u8 list"

definition StpCryptoMsg_default :: StpCryptoMsg where
  "StpCryptoMsg_default = \<lparr>cm_token = None, cm_data = None, cm_unknown = []\<rparr>"

definition StpCryptoMsg_has_token :: "StpCryptoMsg \<Rightarrow> bool" where
  "StpCryptoMsg_has_token m \<longleftrightarrow> cm_token m \<noteq> None"

definition StpCryptoMsg_clear_token :: "StpCryptoMsg \<Rightarrow> StpCryptoMsg" where
  "StpCryptoMsg_clear_token m = m\<lparr>cm_token := None\<rparr>"

definition StpCryptoMsg_token :: "StpCryptoMsg \<Rightarrow> StpToken" where
  "StpCryptoMsg_token m = (case cm_token m of None \<Rightarrow> StpToken_default | Some v \<Rightarrow> v)"

text \<open>\<open>mutable_token()\<close> sets the bit and gives the sub-message; it is followed by an update.\<close>

definition StpCryptoMsg_mutable_token :: "(StpToken \<Rightarrow> StpToken) \<Rightarrow> StpCryptoMsg \<Rightarrow> StpCryptoMsg" where
  "StpCryptoMsg_mutable_token upd m = m\<lparr>cm_token := Some (upd (StpCryptoMsg_token m))\<rparr>"

definition StpCryptoMsg_has_data :: "StpCryptoMsg \<Rightarrow> bool" where
  "StpCryptoMsg_has_data m \<longleftrightarrow> cm_data m \<noteq> None"

definition StpCryptoMsg_clear_data :: "StpCryptoMsg \<Rightarrow> StpCryptoMsg" where
  "StpCryptoMsg_clear_data m = m\<lparr>cm_data := None\<rparr>"

definition StpCryptoMsg_data :: "StpCryptoMsg \<Rightarrow> u8 list" where
  "StpCryptoMsg_data m = (case cm_data m of None \<Rightarrow> [] | Some v \<Rightarrow> v)"

definition StpCryptoMsg_set_data :: "u8 list \<Rightarrow> StpCryptoMsg \<Rightarrow> StpCryptoMsg" where
  "StpCryptoMsg_set_data v m = m\<lparr>cm_data := Some v\<rparr>"

definition StpCryptoMsg_Clear :: "StpCryptoMsg \<Rightarrow> StpCryptoMsg" where
  "StpCryptoMsg_Clear m = m\<lparr>cm_token := None, cm_data := None, cm_unknown := []\<rparr>"

definition StpCryptoMsg_Serialize :: "wire_api \<Rightarrow> StpCryptoMsg \<Rightarrow> u8 list" where
  "StpCryptoMsg_Serialize api m =
     opt_field (\<lambda>v. WriteBytes api 1 (StpToken_Serialize api v)) (cm_token m) @
     opt_field (WriteBytes api 2) (cm_data m) @
     cm_unknown m"

definition StpCryptoMsg_ByteSize :: "wire_api \<Rightarrow> StpCryptoMsg \<Rightarrow> nat" where
  "StpCryptoMsg_ByteSize api m =
     opt_size (\<lambda>v. s_len api (StpToken_ByteSize api v)) (cm_token m) +
     opt_size (\<lambda>v. s_len api (length v)) (cm_data m) +
     length (cm_unknown m)"

definition StpCryptoMsg_field :: "wire_api \<Rightarrow> u32 \<Rightarrow> u8 list \<Rightarrow> StpCryptoMsg \<Rightarrow> StpCryptoMsg field_step" where
  "StpCryptoMsg_field api tag input m =
     (if GetTagFieldNumber tag = 1 \<and> GetTagWireType tag = WIRETYPE_LENGTH_DELIMITED then
        next_message (r_bytes api input) (\<lambda>bs. StpToken_Merge api bs (StpCryptoMsg_token m))
          (\<lambda>v. m\<lparr>cm_token := Some v\<rparr>)
      else if GetTagFieldNumber tag = 2 \<and> GetTagWireType tag = WIRETYPE_LENGTH_DELIMITED then
        next_field (r_bytes api input) (\<lambda>v. StpCryptoMsg_set_data v m)
      else uninterpreted api tag input (\<lambda>u. m\<lparr>cm_unknown := cm_unknown m @ u\<rparr>))"

definition StpCryptoMsg_Merge :: "wire_api \<Rightarrow> u8 list \<Rightarrow> StpCryptoMsg \<Rightarrow> (StpCryptoMsg \<times> bool) option" where
  "StpCryptoMsg_Merge api = merge_message api (StpCryptoMsg_field api)"

definition StpCryptoMsg_MergeFrom :: "StpCryptoMsg \<Rightarrow> StpCryptoMsg \<Rightarrow> StpCryptoMsg" where
  "StpCryptoMsg_MergeFrom src m =
     (let m = (case cm_token src of None \<Rightarrow> m | Some v \<Rightarrow> StpCryptoMsg_mutable_token (StpToken_MergeFrom v) m);
          m = (case cm_data src of None \<Rightarrow> m | Some v \<Rightarrow> StpCryptoMsg_set_data v m)
      in m\<lparr>cm_unknown := cm_unknown m @ cm_unknown src\<rparr>)"

definition StpCryptoMsg_CopyFrom :: "StpCryptoMsg \<Rightarrow> StpCryptoMsg \<Rightarrow> StpCryptoMsg" where
  "StpCryptoMsg_CopyFrom src m = StpCryptoMsg_MergeFrom src (StpCryptoMsg_Clear m)"

definition StpCryptoMsg_IsInitialized :: "StpCryptoMsg \<Rightarrow> bool" where
  "StpCryptoMsg_IsInitialized m \<longleftrightarrow> True"

section \<open>C2S_StpCryptoNegotiate\<close>

record C2S_StpCryptoNegotiate =
  cn_stp_guid :: "u64 option"
  cn_token :: "StpToken option"
  cn_unknown :: "u8 list"

definition C2S_StpCryptoNegotiate_default :: C2S_StpCryptoNegotiate where
  "C2S_StpCryptoNegotiate_default = \<lparr>cn_stp_guid = None, cn_token = None, cn_unknown = []\<rparr>"

definition C2S_StpCryptoNegotiate_has_stp_guid :: "C2S_StpCryptoNegotiate \<Rightarrow> bool" where
  "C2S_StpCryptoNegotiate_has_stp_guid m \<longleftrightarrow> cn_stp_guid m \<noteq> None"

definition C2S_StpCryptoNegotiate_clear_stp_guid :: "C2S_StpCryptoNegotiate \<Rightarrow> C2S_StpCryptoNegotiate" where
  "C2S_StpCryptoNegotiate_clear_stp_guid m = m\<lparr>cn_stp_guid := None\<rparr>"

definition C2S_StpCryptoNegotiate_stp_guid :: "C2S_StpCryptoNegotiate \<Rightarrow> u64" where
  "C2S_StpCryptoNegotiate_stp_guid m = (case cn_stp_guid m of None \<Rightarrow> 0 | Some v \<Rightarrow> v)"

definition C2S_StpCryptoNegotiate_set_stp_guid :: "u64 \<Rightarrow> C2S_StpCryptoNegotiate \<Rightarrow> C2S_StpCryptoNegotiate" where
  "C2S_StpCryptoNegotiate_set_stp_guid v m = m\<lparr>cn_stp_guid := Some v\<rparr>"

definition C2S_StpCryptoNegotiate_has_token :: "C2S_StpCryptoNegotiate \<Rightarrow> bool" where
  "C2S_StpCryptoNegotiate_has_token m \<longleftrightarrow> cn_token m \<noteq> None"

definition C2S_StpCryptoNegotiate_clear_token :: "C2S_StpCryptoNegotiate \<Rightarrow> C2S_StpCryptoNegotiate" where
  "C2S_StpCryptoNegotiate_clear_token m = m\<lparr>cn_token := None\<rparr>"

definition C2S_StpCryptoNegotiate_token :: "C2S_StpCryptoNegotiate \<Rightarrow> StpToken" where
  "C2S_StpCryptoNegotiate_token m = (case cn_token m of None \<Rightarrow> StpToken_default | Some v \<Rightarrow> v)"

text \<open>\<open>mutable_token()\<close> sets the bit and gives the sub-message; it is followed by an update.\<close>

definition C2S_StpCryptoNegotiate_mutable_token :: "(StpToken \<Rightarrow> StpToken) \<Rightarrow> C2S_StpCryptoNegotiate \<Rightarrow> C2S_StpCryptoNegotiate" where
  "C2S_StpCryptoNegotiate_mutable_token upd m = m\<lparr>cn_token := Some (upd (C2S_StpCryptoNegotiate_token m))\<rparr>"

definition C2S_StpCryptoNegotiate_Clear :: "C2S_StpCryptoNegotiate \<Rightarrow> C2S_StpCryptoNegotiate" where
  "C2S_StpCryptoNegotiate_Clear m = m\<lparr>cn_stp_guid := None, cn_token := None, cn_unknown := []\<rparr>"

definition C2S_StpCryptoNegotiate_Serialize :: "wire_api \<Rightarrow> C2S_StpCryptoNegotiate \<Rightarrow> u8 list" where
  "C2S_StpCryptoNegotiate_Serialize api m =
     opt_field (WriteUInt64 api 1) (cn_stp_guid m) @
     opt_field (\<lambda>v. WriteBytes api 2 (StpToken_Serialize api v)) (cn_token m) @
     cn_unknown m"

definition C2S_StpCryptoNegotiate_ByteSize :: "wire_api \<Rightarrow> C2S_StpCryptoNegotiate \<Rightarrow> nat" where
  "C2S_StpCryptoNegotiate_ByteSize api m =
     opt_size (\<lambda>v. s_uint64 api v) (cn_stp_guid m) +
     opt_size (\<lambda>v. s_len api (StpToken_ByteSize api v)) (cn_token m) +
     length (cn_unknown m)"

definition C2S_StpCryptoNegotiate_field :: "wire_api \<Rightarrow> u32 \<Rightarrow> u8 list \<Rightarrow> C2S_StpCryptoNegotiate \<Rightarrow> C2S_StpCryptoNegotiate field_step" where
  "C2S_StpCryptoNegotiate_field api tag input m =
     (if GetTagFieldNumber tag = 1 \<and> GetTagWireType tag = WIRETYPE_VARINT then
        next_field (r_uint64 api input) (\<lambda>v. C2S_StpCryptoNegotiate_set_stp_guid v m)
      else if GetTagFieldNumber tag = 2 \<and> GetTagWireType tag = WIRETYPE_LENGTH_DELIMITED then
        next_message (r_bytes api input) (\<lambda>bs. StpToken_Merge api bs (C2S_StpCryptoNegotiate_token m))
          (\<lambda>v. m\<lparr>cn_token := Some v\<rparr>)
      else uninterpreted api tag input (\<lambda>u. m\<lparr>cn_unknown := cn_unknown m @ u\<rparr>))"

definition C2S_StpCryptoNegotiate_Merge :: "wire_api \<Rightarrow> u8 list \<Rightarrow> C2S_StpCryptoNegotiate \<Rightarrow> (C2S_StpCryptoNegotiate \<times> bool) option" where
  "C2S_StpCryptoNegotiate_Merge api = merge_message api (C2S_StpCryptoNegotiate_field api)"

definition C2S_StpCryptoNegotiate_MergeFrom :: "C2S_StpCryptoNegotiate \<Rightarrow> C2S_StpCryptoNegotiate \<Rightarrow> C2S_StpCryptoNegotiate" where
  "C2S_StpCryptoNegotiate_MergeFrom src m =
     (let m = (case cn_stp_guid src of None \<Rightarrow> m | Some v \<Rightarrow> C2S_StpCryptoNegotiate_set_stp_guid v m);
          m = (case cn_token src of None \<Rightarrow> m | Some v \<Rightarrow> C2S_StpCryptoNegotiate_mutable_token (StpToken_MergeFrom v) m)
      in m\<lparr>cn_unknown := cn_unknown m @ cn_unknown src\<rparr>)"

definition C2S_StpCryptoNegotiate_CopyFrom :: "C2S_StpCryptoNegotiate \<Rightarrow> C2S_StpCryptoNegotiate \<Rightarrow> C2S_StpCryptoNegotiate" where
  "C2S_StpCryptoNegotiate_CopyFrom src m = C2S_StpCryptoNegotiate_MergeFrom src (C2S_StpCryptoNegotiate_Clear m)"

definition C2S_StpCryptoNegotiate_IsInitialized :: "C2S_StpCryptoNegotiate \<Rightarrow> bool" where
  "C2S_StpCryptoNegotiate_IsInitialized m \<longleftrightarrow> True"

section \<open>S2C_StpCryptoNegotiate\<close>

record S2C_StpCryptoNegotiate =
  sn_res :: "int option"
  sn_stp_guid :: "u64 option"
  sn_token :: "StpToken option"
  sn_unknown :: "u8 list"

definition S2C_StpCryptoNegotiate_default :: S2C_StpCryptoNegotiate where
  "S2C_StpCryptoNegotiate_default = \<lparr>sn_res = None, sn_stp_guid = None, sn_token = None, sn_unknown = []\<rparr>"

definition S2C_StpCryptoNegotiate_has_res :: "S2C_StpCryptoNegotiate \<Rightarrow> bool" where
  "S2C_StpCryptoNegotiate_has_res m \<longleftrightarrow> sn_res m \<noteq> None"

definition S2C_StpCryptoNegotiate_clear_res :: "S2C_StpCryptoNegotiate \<Rightarrow> S2C_StpCryptoNegotiate" where
  "S2C_StpCryptoNegotiate_clear_res m = m\<lparr>sn_res := None\<rparr>"

definition S2C_StpCryptoNegotiate_res :: "S2C_StpCryptoNegotiate \<Rightarrow> int" where
  "S2C_StpCryptoNegotiate_res m = (case sn_res m of None \<Rightarrow> 0 | Some v \<Rightarrow> v)"

definition S2C_StpCryptoNegotiate_set_res :: "int \<Rightarrow> S2C_StpCryptoNegotiate \<Rightarrow> S2C_StpCryptoNegotiate" where
  "S2C_StpCryptoNegotiate_set_res v m = m\<lparr>sn_res := Some v\<rparr>"

definition S2C_StpCryptoNegotiate_has_stp_guid :: "S2C_StpCryptoNegotiate \<Rightarrow> bool" where
  "S2C_StpCryptoNegotiate_has_stp_guid m \<longleftrightarrow> sn_stp_guid m \<noteq> None"

definition S2C_StpCryptoNegotiate_clear_stp_guid :: "S2C_StpCryptoNegotiate \<Rightarrow> S2C_StpCryptoNegotiate" where
  "S2C_StpCryptoNegotiate_clear_stp_guid m = m\<lparr>sn_stp_guid := None\<rparr>"

definition S2C_StpCryptoNegotiate_stp_guid :: "S2C_StpCryptoNegotiate \<Rightarrow> u64" where
  "S2C_StpCryptoNegotiate_stp_guid m = (case sn_stp_guid m of None \<Rightarrow> 0 | Some v \<Rightarrow> v)"

definition S2C_StpCryptoNegotiate_set_stp_guid :: "u64 \<Rightarrow> S2C_StpCryptoNegotiate \<Rightarrow> S2C_StpCryptoNegotiate" where
  "S2C_StpCryptoNegotiate_set_stp_guid v m = m\<lparr>sn_stp_guid := Some v\<rparr>"

definition S2C_StpCryptoNegotiate_has_token :: "S2C_StpCryptoNegotiate \<Rightarrow> bool" where
  "S2C_StpCryptoNegotiate_has_token m \<longleftrightarrow> sn_token m \<noteq> None"

definition S2C_StpCryptoNegotiate_clear_token :: "S2C_StpCryptoNegotiate \<Rightarrow> S2C_StpCryptoNegotiate" where
  "S2C_StpCryptoNegotiate_clear_token m = m\<lparr>sn_token := None\<rparr>"

definition S2C_StpCryptoNegotiate_token :: "S2C_StpCryptoNegotiate \<Rightarrow> StpToken" where
  "S2C_StpCryptoNegotiate_token m = (case sn_token m of None \<Rightarrow> StpToken_default | Some v \<Rightarrow> v)"

text \<open>\<open>mutable_token()\<close> sets the bit and gives the sub-message; it is followed by an update.\<close>

definition S2C_StpCryptoNegotiate_mutable_token :: "(StpToken \<Rightarrow> StpToken) \<Rightarrow> S2C_StpCryptoNegotiate \<Rightarrow> S2C_StpCryptoNegotiate" where
  "S2C_StpCryptoNegotiate_mutable_token upd m = m\<lparr>sn_token := Some (upd (S2C_StpCryptoNegotiate_token m))\<rparr>"

definition S2C_StpCryptoNegotiate_Clear :: "S2C_StpCryptoNegotiate \<Rightarrow> S2C_StpCryptoNegotiate" where
  "S2C_StpCryptoNegotiate_Clear m = m\<lparr>sn_res := None, sn_stp_guid := None, sn_token := None, sn_unknown := []\<rparr>"

definition S2C_StpCryptoNegotiate_Serialize :: "wire_api \<Rightarrow> S2C_StpCryptoNegotiate \<Rightarrow> u8 list" where
  "S2C_StpCryptoNegotiate_Serialize api m =
     opt_field (WriteEnum api 1) (sn_res m) @
     opt_field (WriteUInt64 api 2) (sn_stp_guid m) @
     opt_field (\<lambda>v. WriteBytes api 3 (StpToken_Serialize api v)) (sn_token m) @
     sn_unknown m"

definition S2C_StpCryptoNegotiate_ByteSize :: "wire_api \<Rightarrow> S2C_StpCryptoNegotiate \<Rightarrow> nat" where
  "S2C_StpCryptoNegotiate_ByteSize api m =
     opt_size (\<lambda>v. s_enum api v) (sn_res m) +
     opt_size (\<lambda>v. s_uint64 api v) (sn_stp_guid m) +
     opt_size (\<lambda>v. s_len api (StpToken_ByteSize api v)) (sn_token m) +
     length (sn_unknown m)"

definition S2C_StpCryptoNegotiate_field :: "wire_api \<Rightarrow> u32 \<Rightarrow> u8 list \<Rightarrow> S2C_StpCryptoNegotiate \<Rightarrow> S2C_StpCryptoNegotiate field_step" where
  "S2C_StpCryptoNegotiate_field api tag input m =
     (if GetTagFieldNumber tag = 1 \<and> GetTagWireType tag = WIRETYPE_VARINT then
        next_field (r_enum api input)
          (\<lambda>v. if StpResult_IsValid v then S2C_StpCryptoNegotiate_set_res v m
                else m\<lparr>sn_unknown := sn_unknown m @ w_varint_field api 1 v\<rparr>)
      else if GetTagFieldNumber tag = 2 \<and> GetTagWireType tag = WIRETYPE_VARINT then
        next_field (r_uint64 api input) (\<lambda>v. S2C_StpCryptoNegotiate_set_stp_guid v m)
      else if GetTagFieldNumber tag = 3 \<and> GetTagWireType tag = WIRETYPE_LENGTH_DELIMITED then
        next_message (r_bytes api input) (\<lambda>bs. StpToken_Merge api bs (S2C_StpCryptoNegotiate_token m))
          (\<lambda>v. m\<lparr>sn_token := Some v\<rparr>)
      else uninterpreted api tag input (\<lambda>u. m\<lparr>sn_unknown := sn_unknown m @ u\<rparr>))"

definition S2C_StpCryptoNegotiate_Merge :: "wire_api \<Rightarrow> u8 list \<Rightarrow> S2C_StpCryptoNegotiate \<Rightarrow> (S2C_StpCryptoNegotiate \<times> bool) option" where
  "S2C_StpCryptoNegotiate_Merge api = merge_message api (S2C_StpCryptoNegotiate_field api)"

definition S2C_StpCryptoNegotiate_MergeFrom :: "S2C_StpCryptoNegotiate \<Rightarrow> S2C_StpCryptoNegotiate \<Rightarrow> S2C_StpCryptoNegotiate" where
  "S2C_StpCryptoNegotiate_MergeFrom src m =
     (let m = (case sn_res src of None \<Rightarrow> m | Some v \<Rightarrow> S2C_StpCryptoNegotiate_set_res v m);
          m = (case sn_stp_guid src of None \<Rightarrow> m | Some v \<Rightarrow> S2C_StpCryptoNegotiate_set_stp_guid v m);
          m = (case sn_token src of None \<Rightarrow> m | Some v \<Rightarrow> S2C_StpCryptoNegotiate_mutable_token (StpToken_MergeFrom v) m)
      in m\<lparr>sn_unknown := sn_unknown m @ sn_unknown src\<rparr>)"

definition S2C_StpCryptoNegotiate_CopyFrom :: "S2C_StpCryptoNegotiate \<Rightarrow> S2C_StpCryptoNegotiate \<Rightarrow> S2C_StpCryptoNegotiate" where
  "S2C_StpCryptoNegotiate_CopyFrom src m = S2C_StpCryptoNegotiate_MergeFrom src (S2C_StpCryptoNegotiate_Clear m)"

definition S2C_StpCryptoNegotiate_IsInitialized :: "S2C_StpCryptoNegotiate \<Rightarrow> bool" where
  "S2C_StpCryptoNegotiate_IsInitialized m \<longleftrightarrow> True"

section \<open>S2D_StpReportStatus\<close>

record S2D_StpReportStatus =
  rs_stp_guid :: "u64 option"
  rs_key :: "u8 list option"
  rs_expires :: "u8 list option"
  rs_group :: "int option"
  rs_idx :: "int option"
  rs_ip :: "u8 list option"
  rs_unknown :: "u8 list"

definition S2D_StpReportStatus_default :: S2D_StpReportStatus where
  "S2D_StpReportStatus_default = \<lparr>rs_stp_guid = None, rs_key = None, rs_expires = None, rs_group = None, rs_idx = None, rs_ip = None, rs_unknown = []\<rparr>"

definition S2D_StpReportStatus_has_stp_guid :: "S2D_StpReportStatus \<Rightarrow> bool" where
  "S2D_StpReportStatus_has_stp_guid m \<longleftrightarrow> rs_stp_guid m \<noteq> None"

definition S2D_StpReportStatus_clear_stp_guid :: "S2D_StpReportStatus \<Rightarrow> S2D_StpReportStatus" where
  "S2D_StpReportStatus_clear_stp_guid m = m\<lparr>rs_stp_guid := None\<rparr>"

definition S2D_StpReportStatus_stp_guid :: "S2D_StpReportStatus \<Rightarrow> u64" where
  "S2D_StpReportStatus_stp_guid m = (case rs_stp_guid m of None \<Rightarrow> 0 | Some v \<Rightarrow> v)"

definition S2D_StpReportStatus_set_stp_guid :: "u64 \<Rightarrow> S2D_StpReportStatus \<Rightarrow> S2D_StpReportStatus" where
  "S2D_StpReportStatus_set_stp_guid v m = m\<lparr>rs_stp_guid := Some v\<rparr>"

definition S2D_StpReportStatus_has_key :: "S2D_StpReportStatus \<Rightarrow> bool" where
  "S2D_StpReportStatus_has_key m \<longleftrightarrow> rs_key m \<noteq> None"

definition S2D_StpReportStatus_clear_key :: "S2D_StpReportStatus \<Rightarrow> S2D_StpReportStatus" where
  "S2D_StpReportStatus_clear_key m = m\<lparr>rs_key := None\<rparr>"

definition S2D_StpReportStatus_key :: "S2D_StpReportStatus \<Rightarrow> u8 list" where
  "S2D_StpReportStatus_key m = (case rs_key m of None \<Rightarrow> [] | Some v \<Rightarrow> v)"

definition S2D_StpReportStatus_set_key :: "u8 list \<Rightarrow> S2D_StpReportStatus \<Rightarrow> S2D_StpReportStatus" where
  "S2D_StpReportStatus_set_key v m = m\<lparr>rs_key := Some v\<rparr>"

definition S2D_StpReportStatus_has_expires :: "S2D_StpReportStatus \<Rightarrow> bool" where
  "S2D_StpReportStatus_has_expires m \<longleftrightarrow> rs_expires m \<noteq> None"

definition S2D_StpReportStatus_clear_expires :: "S2D_StpReportStatus \<Rightarrow> S2D_StpReportStatus" where
  "S2D_StpReportStatus_clear_expires m = m\<lparr>rs_expires := None\<rparr>"

definition S2D_StpReportStatus_expires :: "S2D_StpReportStatus \<Rightarrow> u8 list" where
  "S2D_StpReportStatus_expires m = (case rs_expires m of None \<Rightarrow> [] | Some v \<Rightarrow> v)"

definition S2D_StpReportStatus_set_expires :: "u8 list \<Rightarrow> S2D_StpReportStatus \<Rightarrow> S2D_StpReportStatus" where
  "S2D_StpReportStatus_set_expires v m = m\<lparr>rs_expires := Some v\<rparr>"

definition S2D_StpReportStatus_has_group :: "S2D_StpReportStatus \<Rightarrow> bool" where
  "S2D_StpReportStatus_has_group m \<longleftrightarrow> rs_group m \<noteq> None"

definition S2D_StpReportStatus_clear_group :: "S2D_StpReportStatus \<Rightarrow> S2D_StpReportStatus" where
  "S2D_StpReportStatus_clear_group m = m\<lparr>rs_group := None\<rparr>"

definition S2D_StpReportStatus_group :: "S2D_StpReportStatus \<Rightarrow> int" where
  "S2D_StpReportStatus_group m = (case rs_group m of None \<Rightarrow> 0 | Some v \<Rightarrow> v)"

definition S2D_StpReportStatus_set_group :: "int \<Rightarrow> S2D_StpReportStatus \<Rightarrow> S2D_StpReportStatus" where
  "S2D_StpReportStatus_set_group v m = m\<lparr>rs_group := Some v\<rparr>"

definition S2D_StpReportStatus_has_idx :: "S2D_StpReportStatus \<Rightarrow> bool" where
  "S2D_StpReportStatus_has_idx m \<longleftrightarrow> rs_idx m \<noteq> None"

definition S2D_StpReportStatus_clear_idx :: "S2D_StpReportStatus \<Rightarrow> S2D_StpReportStatus" where
  "S2D_StpReportStatus_clear_idx m = m\<lparr>rs_idx := None\<rparr>"

definition S2D_StpReportStatus_idx :: "S2D_StpReportStatus \<Rightarrow> int" where
  "S2D_StpReportStatus_idx m = (case rs_idx m of None \<Rightarrow> 0 | Some v \<Rightarrow> v)"

definition S2D_StpReportStatus_set_idx :: "int \<Rightarrow> S2D_StpReportStatus \<Rightarrow> S2D_StpReportStatus" where
  "S2D_StpReportStatus_set_idx v m = m\<lparr>rs_idx := Some v\<rparr>"

definition S2D_StpReportStatus_has_ip :: "S2D_StpReportStatus \<Rightarrow> bool" where
  "S2D_StpReportStatus_has_ip m \<longleftrightarrow> rs_ip m \<noteq> None"

definition S2D_StpReportStatus_clear_ip :: "S2D_StpReportStatus \<Rightarrow> S2D_StpReportStatus" where
  "S2D_StpReportStatus_clear_ip m = m\<lparr>rs_ip := None\<rparr>"

definition S2D_StpReportStatus_ip :: "S2D_StpReportStatus \<Rightarrow> u8 list" where
  "S2D_StpReportStatus_ip m = (case rs_ip m of None \<Rightarrow> [] | Some v \<Rightarrow> v)"

definition S2D_StpReportStatus_set_ip :: "u8 list \<Rightarrow> S2D_StpReportStatus \<Rightarrow> S2D_StpReportStatus" where
  "S2D_StpReportStatus_set_ip v m = m\<lparr>rs_ip := Some v\<rparr>"

definition S2D_StpReportStatus_Clear :: "S2D_StpReportStatus \<Rightarrow> S2D_StpReportStatus" where
  "S2D_StpReportStatus_Clear m = m\<lparr>rs_stp_guid := None, rs_key := None, rs_expires := None, rs_group := None, rs_idx := None, rs_ip := None, rs_unknown := []\<rparr>"

definition S2D_StpReportStatus_Serialize :: "wire_api \<Rightarrow> S2D_StpReportStatus \<Rightarrow> u8 list" where
  "S2D_StpReportStatus_Serialize api m =
     opt_field (WriteUInt64 api 1) (rs_stp_guid m) @
     opt_field (WriteBytes api 2) (rs_key m) @
     opt_field (WriteBytes api 3) (rs_expires m) @
     opt_field (WriteInt32 api 4) (rs_group m) @
     opt_field (WriteInt32 api 5) (rs_idx m) @
     opt_field (WriteBytes api 6) (rs_ip m) @
     rs_unknown m"

definition S2D_StpReportStatus_ByteSize :: "wire_api \<Rightarrow> S2D_StpReportStatus \<Rightarrow> nat" where
  "S2D_StpReportStatus_ByteSize api m =
     opt_size (\<lambda>v. s_uint64 api v) (rs_stp_guid m) +
     opt_size (\<lambda>v. s_len api (length v)) (rs_key m) +
     opt_size (\<lambda>v. s_len api (length v)) (rs_expires m) +
     opt_size (\<lambda>v. s_int32 api v) (rs_group m) +
     opt_size (\<lambda>v. s_int32 api v) (rs_idx m) +
     opt_size (\<lambda>v. s_len api (length v)) (rs_ip m) +
     length (rs_unknown m)"

definition S2D_StpReportStatus_field :: "wire_api \<Rightarrow> u32 \<Rightarrow> u8 list \<Rightarrow> S2D_StpReportStatus \<Rightarrow> S2D_StpReportStatus field_step" where
  "S2D_StpReportStatus_field api tag input m =
     (if GetTagFieldNumber tag = 1 \<and> GetTagWireType tag = WIRETYPE_VARINT then
        next_field (r_uint64 api input) (\<lambda>v. S2D_StpReportStatus_set_stp_guid v m)
      else if GetTagFieldNumber tag = 2 \<and> GetTagWireType tag = WIRETYPE_LENGTH_DELIMITED then
        next_field (r_bytes api input) (\<lambda>v. S2D_StpReportStatus_set_key v m)
      else if GetTagFieldNumber tag = 3 \<and> GetTagWireType tag = WIRETYPE_LENGTH_DELIMITED then
        next_field (r_bytes api input) (\<lambda>v. S2D_StpReportStatus_set_expires v m)
      else if GetTagFieldNumber tag = 4 \<and> GetTagWireType tag = WIRETYPE_VARINT then
        next_field (r_int32 api input) (\<lambda>v. S2D_StpReportStatus_set_group v m)
      else if GetTagFieldNumber tag = 5 \<and> GetTagWireType tag = WIRETYPE_VARINT then
        next_field (r_int32 api input) (\<lambda>v. S2D_StpReportStatus_set_idx v m)
      else if GetTagFieldNumber tag = 6 \<and> GetTagWireType tag = WIRETYPE_LENGTH_DELIMITED then
        next_field (r_bytes api input) (\<lambda>v. S2D_StpReportStatus_set_ip v m)
      else uninterpreted api tag input (\<lambda>u. m\<lparr>rs_unknown := rs_unknown m @ u\<rparr>))"

definition S2D_StpReportStatus_Merge :: "wire_api \<Rightarrow> u8 list \<Rightarrow> S2D_StpReportStatus \<Rightarrow> (S2D_StpReportStatus \<times> bool) option" where
  "S2D_StpReportStatus_Merge api = merge_message api (S2D_StpReportStatus_field api)"

definition S2D_StpReportStatus_MergeFrom :: "S2D_StpReportStatus \<Rightarrow> S2D_StpReportStatus \<Rightarrow> S2D_StpReportStatus" where
  "S2D_StpReportStatus_MergeFrom src m =
     (let m = (case rs_stp_guid src of None \<Rightarrow> m | Some v \<Rightarrow> S2D_StpReportStatus_set_stp_guid v m);
          m = (case rs_key src of None \<Rightarrow> m | Some v \<Rightarrow> S2D_StpReportStatus_set_key v m);
          m = (case rs_expires src of None \<Rightarrow> m | Some v \<Rightarrow> S2D_StpReportStatus_set_expires v m);
          m = (case rs_group src of None \<Rightarrow> m | Some v \<Rightarrow> S2D_StpReportStatus_set_group v m);
          m = (case rs_idx src of None \<Rightarrow> m | Some v \<Rightarrow> S2D_StpReportStatus_set_idx v m);
          m = (case rs_ip src of None \<Rightarrow> m | Some v \<Rightarrow> S2D_StpReportStatus_set_ip v m)
      in m\<lparr>rs_unknown := rs_unknown m @ rs_unknown src\<rparr>)"

definition S2D_StpReportStatus_CopyFrom :: "S2D_StpReportStatus \<Rightarrow> S2D_StpReportStatus \<Rightarrow> S2D_StpReportStatus" where
  "S2D_StpReportStatus_CopyFrom src m = S2D_StpReportStatus_MergeFrom src (S2D_StpReportStatus_Clear m)"

definition S2D_StpReportStatus_IsInitialized :: "S2D_StpReportStatus \<Rightarrow> bool" where
  "S2D_StpReportStatus_IsInitialized m \<longleftrightarrow> True"

end
