(* ===== verification/Rpc_Pb_Proof.thy ===== *)
theory Rpc_Pb_Proof
  imports Rpc_Pb
begin

text \<open>
  The messages survive serialization and parsing, and \<open>ByteSize\<close> is the size of what is written.
\<close>

section \<open>Pieces\<close>

definition opt_piece :: "('a \<Rightarrow> u8 list) \<Rightarrow> ('a \<Rightarrow> 'm \<Rightarrow> 'm) \<Rightarrow> 'a option \<Rightarrow> (u8 list \<times> ('m \<Rightarrow> 'm)) list" where
  "opt_piece wr upd x = (case x of None \<Rightarrow> [] | Some v \<Rightarrow> [(wr v, upd v)])"

lemma opt_piece_bytes: "concat (map fst (opt_piece wr upd x)) = opt_field wr x"
  by (simp add: opt_piece_def split: option.split)

lemma opt_piece_fold: "fold snd (opt_piece wr upd x) m = (case x of None \<Rightarrow> m | Some v \<Rightarrow> upd v m)"
  by (simp add: opt_piece_def split: option.split)

lemma opt_piece_reads:
  assumes "\<And>v. x = Some v \<Longrightarrow> reads_back api fld (wr v) (upd v)"
  shows "\<forall>(bs, u)\<in>set (opt_piece wr upd x). reads_back api fld bs u"
  using assms by (auto simp: opt_piece_def split: option.split)

lemma tag_parts:
  "GetTagFieldNumber 8 = 1" "GetTagFieldNumber 16 = 2" "GetTagFieldNumber 24 = 3" "GetTagFieldNumber 32 = 4"
  "GetTagFieldNumber 40 = 5" "GetTagFieldNumber 10 = 1" "GetTagFieldNumber 18 = 2" "GetTagFieldNumber 26 = 3"
  "GetTagFieldNumber 42 = 5" "GetTagFieldNumber 50 = 6"
  "GetTagWireType 8 = WIRETYPE_VARINT" "GetTagWireType 16 = WIRETYPE_VARINT" "GetTagWireType 24 = WIRETYPE_VARINT"
  "GetTagWireType 32 = WIRETYPE_VARINT" "GetTagWireType 40 = WIRETYPE_VARINT"
  "GetTagWireType 10 = WIRETYPE_LENGTH_DELIMITED" "GetTagWireType 18 = WIRETYPE_LENGTH_DELIMITED"
  "GetTagWireType 26 = WIRETYPE_LENGTH_DELIMITED" "GetTagWireType 42 = WIRETYPE_LENGTH_DELIMITED"
  "GetTagWireType 50 = WIRETYPE_LENGTH_DELIMITED"
  by (simp_all add: wiretypes)

lemma make_tags:
  "make_tag 1 WIRETYPE_VARINT = 8" "make_tag 2 WIRETYPE_VARINT = 16" "make_tag 3 WIRETYPE_VARINT = 24"
  "make_tag 4 WIRETYPE_VARINT = 32" "make_tag 5 WIRETYPE_VARINT = 40"
  "make_tag 1 WIRETYPE_LENGTH_DELIMITED = 10" "make_tag 2 WIRETYPE_LENGTH_DELIMITED = 18"
  "make_tag 3 WIRETYPE_LENGTH_DELIMITED = 26" "make_tag 5 WIRETYPE_LENGTH_DELIMITED = 42"
  "make_tag 6 WIRETYPE_LENGTH_DELIMITED = 50"
  by (simp_all add: WIRETYPE_VARINT_def WIRETYPE_LENGTH_DELIMITED_def make_tag_values [simplified])

lemmas writers = WriteUInt64_def WriteInt32_def WriteInt64_def WriteEnum_def WriteBytes_def
lemmas piece = reads_back_def writers make_tags tag_parts

lemma reads_backI:
  "t \<noteq> 0 \<Longrightarrow> (\<And>rest m. fld t (pay @ rest) m = Next (upd m) rest) \<Longrightarrow> reads_back api fld (w_tag api t @ pay) upd"
  by (auto simp: reads_back_def)

section \<open>StpToken\<close>

definition token_ok :: "StpToken \<Rightarrow> bool" where
  "token_ok t \<longleftrightarrow> tk_unknown t = [] \<and> in_s32 (StpToken_group t) \<and> in_s32 (StpToken_idx t)
     \<and> in_s64 (StpToken_expires t) \<and> length (StpToken_key t) < 2 ^ 20"

definition token_pieces :: "wire_api \<Rightarrow> StpToken \<Rightarrow> (u8 list \<times> (StpToken \<Rightarrow> StpToken)) list" where
  "token_pieces api t =
     opt_piece (WriteUInt64 api 1) StpToken_set_stp_guid (tk_stp_guid t) @
     opt_piece (WriteInt32 api 2) StpToken_set_group (tk_group t) @
     opt_piece (WriteInt32 api 3) StpToken_set_idx (tk_idx t) @
     opt_piece (WriteInt64 api 4) StpToken_set_expires (tk_expires t) @
     opt_piece (WriteBytes api 5) StpToken_set_key (tk_key t)"

lemma token_pieces_read:
  assumes "wire_laws api" "token_ok t"
  shows "\<forall>(bs, u)\<in>set (token_pieces api t). reads_back api (StpToken_field api) bs u"
  unfolding token_pieces_def set_append ball_Un
proof (intro conjI opt_piece_reads)
  note w = wire [OF assms(1)]
  show "reads_back api (StpToken_field api) (WriteUInt64 api 1 v) (StpToken_set_stp_guid v)" for v
    unfolding writers make_tags by (rule reads_backI) (simp_all add: StpToken_field_def tag_parts w)
  show "reads_back api (StpToken_field api) (WriteInt32 api 2 v) (StpToken_set_group v)" if "tk_group t = Some v" for v
    unfolding writers make_tags using assms(2) that
    by (intro reads_backI) (simp_all add: StpToken_field_def tag_parts w token_ok_def StpToken_group_def)
  show "reads_back api (StpToken_field api) (WriteInt32 api 3 v) (StpToken_set_idx v)" if "tk_idx t = Some v" for v
    unfolding writers make_tags using assms(2) that
    by (intro reads_backI) (simp_all add: StpToken_field_def tag_parts w token_ok_def StpToken_idx_def)
  show "reads_back api (StpToken_field api) (WriteInt64 api 4 v) (StpToken_set_expires v)" if "tk_expires t = Some v" for v
    unfolding writers make_tags using assms(2) that
    by (intro reads_backI) (simp_all add: StpToken_field_def tag_parts w token_ok_def StpToken_expires_def)
  show "reads_back api (StpToken_field api) (WriteBytes api 5 v) (StpToken_set_key v)" if "tk_key t = Some v" for v
    unfolding writers make_tags using assms(2) that
    by (intro reads_backI) (simp_all add: StpToken_field_def tag_parts w token_ok_def StpToken_key_def max_message_def)
qed

text \<open>Parsing the serialization of \<open>t\<close> into \<open>m\<close> merges \<open>t\<close> into \<open>m\<close>.\<close>

lemma token_merge:
  assumes "wire_laws api" "token_ok t"
  shows "StpToken_Merge api (StpToken_Serialize api t) m = Some (StpToken_MergeFrom t m, True)"
proof -
  have u: "tk_unknown t = []" using assms(2) by (simp add: token_ok_def)
  have "StpToken_Serialize api t = concat (map fst (token_pieces api t))"
    by (simp add: StpToken_Serialize_def token_pieces_def opt_piece_bytes u)
  moreover have "fold snd (token_pieces api t) m = StpToken_MergeFrom t m"
    by (simp add: token_pieces_def opt_piece_fold StpToken_MergeFrom_def u Let_def)
  ultimately show ?thesis
    unfolding StpToken_Merge_def using merge_message_pieces [OF assms(1) token_pieces_read [OF assms]] by simp
qed

lemma token_merge_default [simp]: "StpToken_MergeFrom t StpToken_default = t"
  by (cases t) (simp add: StpToken_MergeFrom_def StpToken_default_def StpToken_set_stp_guid_def StpToken_set_group_def
      StpToken_set_idx_def StpToken_set_expires_def StpToken_set_key_def Let_def split: option.split)

lemma token_roundtrip:
  assumes "wire_laws api" "token_ok t"
  shows "StpToken_Merge api (StpToken_Serialize api t) StpToken_default = Some (t, True)"
  using token_merge [OF assms] by simp

lemma opt_size_length:
  "(\<And>v. x = Some v \<Longrightarrow> length (wr v) = 1 + sz v) \<Longrightarrow> length (opt_field wr x) = opt_size sz x"
  by (cases x) simp_all

lemma write_sizes:
  assumes "wire_laws api" "n \<in> {1, 2, 3, 4, 5, 6}"
  shows "length (WriteUInt64 api n u) = 1 + s_uint64 api u" "length (WriteInt32 api n v) = 1 + s_int32 api v"
    "length (WriteInt64 api n v) = 1 + s_int64 api v" "length (WriteEnum api n v) = 1 + s_enum api v"
    "length (WriteBytes api n d) = 1 + s_len api (length d)"
proof -
  have "make_tag n WIRETYPE_VARINT < 128" "make_tag n WIRETYPE_LENGTH_DELIMITED < 128"
    using assms(2) by (auto simp: make_tag_def WIRETYPE_VARINT_def WIRETYPE_LENGTH_DELIMITED_def)
  then show "length (WriteUInt64 api n u) = 1 + s_uint64 api u" "length (WriteInt32 api n v) = 1 + s_int32 api v"
    "length (WriteInt64 api n v) = 1 + s_int64 api v" "length (WriteEnum api n v) = 1 + s_enum api v"
    "length (WriteBytes api n d) = 1 + s_len api (length d)"
    by (simp_all add: writers wire(3) [OF assms(1)] wire_sizes [OF assms(1)])
qed

lemma token_size: "wire_laws api \<Longrightarrow> length (StpToken_Serialize api t) = StpToken_ByteSize api t"
  unfolding StpToken_Serialize_def StpToken_ByteSize_def
  by (cases "tk_stp_guid t"; cases "tk_group t"; cases "tk_idx t"; cases "tk_expires t"; cases "tk_key t")
    (simp_all add: write_sizes)

text \<open>A field takes at most eleven bytes, a block eleven and its contents.\<close>

lemma write_bounds:
  assumes "wire_laws api" "n \<in> {1, 2, 3, 4, 5, 6}"
  shows "length (opt_field (WriteUInt64 api n) u) \<le> 11" "length (opt_field (WriteInt32 api n) v) \<le> 11"
    "length (opt_field (WriteInt64 api n) v) \<le> 11" "length (opt_field (WriteEnum api n) v) \<le> 11"
    "length d < max_message \<Longrightarrow> length (WriteBytes api n d) \<le> length d + 11"
proof -
  note b = write_sizes [OF assms] wire_sizes [OF assms(1)] wire_bounds [OF assms(1)]
  show "length (opt_field (WriteUInt64 api n) u) \<le> 11" by (cases u) (simp_all add: b)
  show "length (opt_field (WriteInt32 api n) v) \<le> 11" by (cases v) (simp_all add: b)
  show "length (opt_field (WriteInt64 api n) v) \<le> 11" by (cases v) (simp_all add: b)
  show "length (opt_field (WriteEnum api n) v) \<le> 11" by (cases v) (simp_all add: b)
  show "length (WriteBytes api n d) \<le> length d + 11" if "length d < max_message"
    using wire_bounds(5) [OF assms(1) that] by (simp add: write_sizes [OF assms] wire_sizes [OF assms(1)])
qed

lemma token_length:
  assumes "wire_laws api" "token_ok t"
  shows "length (StpToken_Serialize api t) \<le> length (StpToken_key t) + 55"
proof -
  have "length (opt_field (WriteBytes api 5) (tk_key t)) \<le> length (StpToken_key t) + 11"
    using write_bounds(5) [OF assms(1), of 5] assms(2)
    by (cases "tk_key t") (simp_all add: StpToken_key_def token_ok_def max_message_def)
  moreover have "length (opt_field (WriteUInt64 api 1) (tk_stp_guid t)) \<le> 11"
    "length (opt_field (WriteInt32 api 2) (tk_group t)) \<le> 11" "length (opt_field (WriteInt32 api 3) (tk_idx t)) \<le> 11"
    "length (opt_field (WriteInt64 api 4) (tk_expires t)) \<le> 11"
    using write_bounds [OF assms(1)] by simp_all
  moreover have "tk_unknown t = []" using assms(2) by (simp add: token_ok_def)
  ultimately show ?thesis unfolding StpToken_Serialize_def length_append by simp
qed

text \<open>Reading a token field back.\<close>

lemma token_block:
  assumes "wire_laws api" "token_ok t"
  shows "next_message (r_bytes api (w_bytes api (StpToken_Serialize api t) @ rest))
      (\<lambda>bs. StpToken_Merge api bs m) upd = Next (upd (StpToken_MergeFrom t m)) rest"
proof -
  have "length (StpToken_Serialize api t) < max_message"
    using token_length [OF assms] assms(2) by (simp add: token_ok_def max_message_def)
  then show ?thesis
    using token_merge [OF assms] by (simp add: next_message_def wire(8) [OF assms(1)])
qed

section \<open>Request\<close>

definition request_ok :: "Request \<Rightarrow> bool" where
  "request_ok r \<longleftrightarrow> rq_unknown r = [] \<and> length (Request_method r) < 2 ^ 20 \<and> length (Request_serialized_request r) < 2 ^ 20"

lemma request_roundtrip:
  assumes "wire_laws api" "request_ok r"
  shows "Request_Merge api (Request_Serialize api r) Request_default = Some (r, True)"
proof -
  note w = wire [OF assms(1)]
  let ?ps = "opt_piece (WriteBytes api 1) Request_set_method (rq_method r) @
     opt_piece (WriteBytes api 2) Request_set_serialized_request (rq_serialized_request r)"
  have "\<forall>(bs, u)\<in>set ?ps. reads_back api (Request_field api) bs u"
    unfolding set_append ball_Un
  proof (intro conjI opt_piece_reads)
    show "reads_back api (Request_field api) (WriteBytes api 1 v) (Request_set_method v)" if "rq_method r = Some v" for v
      unfolding writers make_tags using assms(2) that
      by (intro reads_backI) (simp_all add: Request_field_def tag_parts w request_ok_def Request_method_def max_message_def)
    show "reads_back api (Request_field api) (WriteBytes api 2 v) (Request_set_serialized_request v)"
      if "rq_serialized_request r = Some v" for v
      unfolding writers make_tags using assms(2) that
      by (intro reads_backI)
        (simp_all add: Request_field_def tag_parts w request_ok_def Request_serialized_request_def max_message_def)
  qed
  from merge_message_pieces [OF assms(1) this, of Request_default]
  show ?thesis
    using assms(2) by (cases r) (simp add: Request_Merge_def Request_Serialize_def request_ok_def opt_piece_bytes
        opt_piece_fold Request_default_def Request_set_method_def Request_set_serialized_request_def split: option.splits)
qed

lemma request_size: "wire_laws api \<Longrightarrow> length (Request_Serialize api r) = Request_ByteSize api r"
  unfolding Request_Serialize_def Request_ByteSize_def
  by (cases "rq_method r"; cases "rq_serialized_request r") (simp_all add: write_sizes)

section \<open>The negotiation messages\<close>

definition c2s_ok :: "C2S_StpCryptoNegotiate \<Rightarrow> bool" where
  "c2s_ok m \<longleftrightarrow> cn_unknown m = [] \<and> (\<forall>t. cn_token m = Some t \<longrightarrow> token_ok t)"

definition c2s_set_token :: "StpToken \<Rightarrow> C2S_StpCryptoNegotiate \<Rightarrow> C2S_StpCryptoNegotiate" where
  "c2s_set_token t = C2S_StpCryptoNegotiate_mutable_token (StpToken_MergeFrom t)"

lemma c2s_roundtrip:
  assumes "wire_laws api" "c2s_ok m"
  shows "C2S_StpCryptoNegotiate_Merge api (C2S_StpCryptoNegotiate_Serialize api m) C2S_StpCryptoNegotiate_default = Some (m, True)"
proof -
  note w = wire [OF assms(1)]
  let ?fld = "C2S_StpCryptoNegotiate_field api"
  let ?ps = "opt_piece (WriteUInt64 api 1) C2S_StpCryptoNegotiate_set_stp_guid (cn_stp_guid m) @
     opt_piece (\<lambda>v. WriteBytes api 2 (StpToken_Serialize api v)) c2s_set_token (cn_token m)"
  have "\<forall>(bs, u)\<in>set ?ps. reads_back api ?fld bs u"
    unfolding set_append ball_Un
  proof (intro conjI opt_piece_reads)
    show "reads_back api ?fld (WriteUInt64 api 1 v) (C2S_StpCryptoNegotiate_set_stp_guid v)" for v
      unfolding writers make_tags by (rule reads_backI) (simp_all add: C2S_StpCryptoNegotiate_field_def tag_parts w)
    show "reads_back api ?fld (WriteBytes api 2 (StpToken_Serialize api v)) (c2s_set_token v)" if "cn_token m = Some v" for v
      unfolding writers make_tags using assms(2) that token_block [OF assms(1), of v]
      by (intro reads_backI) (simp_all add: C2S_StpCryptoNegotiate_field_def tag_parts c2s_ok_def c2s_set_token_def
          C2S_StpCryptoNegotiate_mutable_token_def)
  qed
  from merge_message_pieces [OF assms(1) this, of C2S_StpCryptoNegotiate_default]
  show ?thesis
    using assms(2) by (cases m) (simp add: C2S_StpCryptoNegotiate_Merge_def C2S_StpCryptoNegotiate_Serialize_def c2s_ok_def
        opt_piece_bytes opt_piece_fold C2S_StpCryptoNegotiate_default_def C2S_StpCryptoNegotiate_set_stp_guid_def
        c2s_set_token_def C2S_StpCryptoNegotiate_mutable_token_def C2S_StpCryptoNegotiate_token_def split: option.splits)
qed

lemma c2s_size: "wire_laws api \<Longrightarrow> length (C2S_StpCryptoNegotiate_Serialize api m) = C2S_StpCryptoNegotiate_ByteSize api m"
  unfolding C2S_StpCryptoNegotiate_Serialize_def C2S_StpCryptoNegotiate_ByteSize_def
  by (cases "cn_stp_guid m"; cases "cn_token m") (simp_all add: write_sizes flip: token_size)

definition s2c_ok :: "S2C_StpCryptoNegotiate \<Rightarrow> bool" where
  "s2c_ok m \<longleftrightarrow> sn_unknown m = [] \<and> StpResult_IsValid (S2C_StpCryptoNegotiate_res m)
     \<and> (\<forall>t. sn_token m = Some t \<longrightarrow> token_ok t)"

definition s2c_set_token :: "StpToken \<Rightarrow> S2C_StpCryptoNegotiate \<Rightarrow> S2C_StpCryptoNegotiate" where
  "s2c_set_token t = S2C_StpCryptoNegotiate_mutable_token (StpToken_MergeFrom t)"

lemma valid_result_s32: "StpResult_IsValid v \<Longrightarrow> in_s32 v"
  by (auto simp: StpResult_IsValid_def in_s32_def)

lemma s2c_roundtrip:
  assumes "wire_laws api" "s2c_ok m"
  shows "S2C_StpCryptoNegotiate_Merge api (S2C_StpCryptoNegotiate_Serialize api m) S2C_StpCryptoNegotiate_default = Some (m, True)"
proof -
  note w = wire [OF assms(1)]
  let ?fld = "S2C_StpCryptoNegotiate_field api"
  let ?ps = "opt_piece (WriteEnum api 1) S2C_StpCryptoNegotiate_set_res (sn_res m) @
     opt_piece (WriteUInt64 api 2) S2C_StpCryptoNegotiate_set_stp_guid (sn_stp_guid m) @
     opt_piece (\<lambda>v. WriteBytes api 3 (StpToken_Serialize api v)) s2c_set_token (sn_token m)"
  have "\<forall>(bs, u)\<in>set ?ps. reads_back api ?fld bs u"
    unfolding set_append ball_Un
  proof (intro conjI opt_piece_reads)
    show "reads_back api ?fld (WriteEnum api 1 v) (S2C_StpCryptoNegotiate_set_res v)" if "sn_res m = Some v" for v
    proof -
      have "StpResult_IsValid v" using assms(2) that by (simp add: s2c_ok_def S2C_StpCryptoNegotiate_res_def)
      then show ?thesis
        unfolding writers make_tags by (intro reads_backI)
          (simp_all add: S2C_StpCryptoNegotiate_field_def tag_parts w valid_result_s32)
    qed
    show "reads_back api ?fld (WriteUInt64 api 2 v) (S2C_StpCryptoNegotiate_set_stp_guid v)" for v
      unfolding writers make_tags by (rule reads_backI) (simp_all add: S2C_StpCryptoNegotiate_field_def tag_parts w)
    show "reads_back api ?fld (WriteBytes api 3 (StpToken_Serialize api v)) (s2c_set_token v)" if "sn_token m = Some v" for v
      unfolding writers make_tags using assms(2) that token_block [OF assms(1), of v]
      by (intro reads_backI) (simp_all add: S2C_StpCryptoNegotiate_field_def tag_parts s2c_ok_def s2c_set_token_def
          S2C_StpCryptoNegotiate_mutable_token_def)
  qed
  from merge_message_pieces [OF assms(1) this, of S2C_StpCryptoNegotiate_default]
  show ?thesis
    using assms(2) by (cases m) (simp add: S2C_StpCryptoNegotiate_Merge_def S2C_StpCryptoNegotiate_Serialize_def s2c_ok_def
        opt_piece_bytes opt_piece_fold S2C_StpCryptoNegotiate_default_def S2C_StpCryptoNegotiate_set_stp_guid_def
        S2C_StpCryptoNegotiate_set_res_def s2c_set_token_def S2C_StpCryptoNegotiate_mutable_token_def
        S2C_StpCryptoNegotiate_token_def split: option.splits)
qed

lemma token_field_length:
  assumes "wire_laws api" "n \<in> {1, 2, 3, 4, 5, 6}" "\<forall>tok. t = Some tok \<longrightarrow> token_ok tok"
  shows "length (opt_field (\<lambda>v. WriteBytes api n (StpToken_Serialize api v)) t)
    \<le> (case t of None \<Rightarrow> 0 | Some tok \<Rightarrow> length (StpToken_key tok) + 66)"
proof (cases t)
  case (Some tok)
  have l: "length (StpToken_Serialize api tok) \<le> length (StpToken_key tok) + 55"
    using token_length [OF assms(1)] assms(3) Some by simp
  moreover have "length (StpToken_Serialize api tok) < max_message"
    using l assms(3) Some by (simp add: token_ok_def max_message_def)
  ultimately show ?thesis using write_bounds(5) [OF assms(1,2)] Some by fastforce
qed simp

lemma c2s_length:
  assumes "wire_laws api" "c2s_ok m"
  shows "length (C2S_StpCryptoNegotiate_Serialize api m) \<le> 11 + (case cn_token m of None \<Rightarrow> 0 | Some tok \<Rightarrow> length (StpToken_key tok) + 66)"
proof -
  have "length (opt_field (WriteUInt64 api 1) (cn_stp_guid m)) \<le> 11" by (rule write_bounds(1) [OF assms(1)]) simp
  moreover note token_field_length [OF assms(1), of 2 "cn_token m"]
  ultimately show ?thesis
    using assms(2) by (auto simp: C2S_StpCryptoNegotiate_Serialize_def c2s_ok_def)
qed

lemma s2c_length:
  assumes "wire_laws api" "s2c_ok m"
  shows "length (S2C_StpCryptoNegotiate_Serialize api m) \<le> 22 + (case sn_token m of None \<Rightarrow> 0 | Some tok \<Rightarrow> length (StpToken_key tok) + 66)"
proof -
  have "length (opt_field (WriteEnum api 1) (sn_res m)) \<le> 11" by (rule write_bounds(4) [OF assms(1)]) simp
  moreover have "length (opt_field (WriteUInt64 api 2) (sn_stp_guid m)) \<le> 11" by (rule write_bounds(1) [OF assms(1)]) simp
  moreover note token_field_length [OF assms(1), of 3 "sn_token m"]
  ultimately show ?thesis
    using assms(2) by (auto simp: S2C_StpCryptoNegotiate_Serialize_def s2c_ok_def)
qed

lemma s2c_size: "wire_laws api \<Longrightarrow> length (S2C_StpCryptoNegotiate_Serialize api m) = S2C_StpCryptoNegotiate_ByteSize api m"
  unfolding S2C_StpCryptoNegotiate_Serialize_def S2C_StpCryptoNegotiate_ByteSize_def
  by (cases "sn_res m"; cases "sn_stp_guid m"; cases "sn_token m") (simp_all add: write_sizes flip: token_size)

section \<open>The other messages\<close>

definition crypto_msg_ok :: "StpCryptoMsg \<Rightarrow> bool" where
  "crypto_msg_ok m \<longleftrightarrow> cm_unknown m = [] \<and> (\<forall>t. cm_token m = Some t \<longrightarrow> token_ok t)
     \<and> length (StpCryptoMsg_data m) < max_message"

definition crypto_msg_set_token :: "StpToken \<Rightarrow> StpCryptoMsg \<Rightarrow> StpCryptoMsg" where
  "crypto_msg_set_token t = StpCryptoMsg_mutable_token (StpToken_MergeFrom t)"

lemma crypto_msg_roundtrip:
  assumes "wire_laws api" "crypto_msg_ok m"
  shows "StpCryptoMsg_Merge api (StpCryptoMsg_Serialize api m) StpCryptoMsg_default = Some (m, True)"
proof -
  note w = wire [OF assms(1)]
  let ?fld = "StpCryptoMsg_field api"
  let ?ps = "opt_piece (\<lambda>v. WriteBytes api 1 (StpToken_Serialize api v)) crypto_msg_set_token (cm_token m) @
     opt_piece (WriteBytes api 2) StpCryptoMsg_set_data (cm_data m)"
  have "\<forall>(bs, u)\<in>set ?ps. reads_back api ?fld bs u"
    unfolding set_append ball_Un
  proof (intro conjI opt_piece_reads)
    show "reads_back api ?fld (WriteBytes api 1 (StpToken_Serialize api v)) (crypto_msg_set_token v)" if "cm_token m = Some v" for v
      unfolding writers make_tags using assms(2) that token_block [OF assms(1), of v]
      by (intro reads_backI) (simp_all add: StpCryptoMsg_field_def tag_parts crypto_msg_ok_def crypto_msg_set_token_def
          StpCryptoMsg_mutable_token_def)
    show "reads_back api ?fld (WriteBytes api 2 v) (StpCryptoMsg_set_data v)" if "cm_data m = Some v" for v
      unfolding writers make_tags using assms(2) that
      by (intro reads_backI) (simp_all add: StpCryptoMsg_field_def tag_parts w crypto_msg_ok_def StpCryptoMsg_data_def)
  qed
  from merge_message_pieces [OF assms(1) this, of StpCryptoMsg_default]
  show ?thesis
    using assms(2) by (cases m) (simp add: StpCryptoMsg_Merge_def StpCryptoMsg_Serialize_def crypto_msg_ok_def
        opt_piece_bytes opt_piece_fold StpCryptoMsg_default_def StpCryptoMsg_set_data_def crypto_msg_set_token_def
        StpCryptoMsg_mutable_token_def StpCryptoMsg_token_def split: option.splits)
qed

definition report_ok :: "S2D_StpReportStatus \<Rightarrow> bool" where
  "report_ok m \<longleftrightarrow> rs_unknown m = [] \<and> in_s32 (S2D_StpReportStatus_group m) \<and> in_s32 (S2D_StpReportStatus_idx m)
     \<and> length (S2D_StpReportStatus_key m) < max_message \<and> length (S2D_StpReportStatus_expires m) < max_message
     \<and> length (S2D_StpReportStatus_ip m) < max_message"

lemmas report_field_simps = S2D_StpReportStatus_field_def tag_parts report_ok_def S2D_StpReportStatus_group_def
  S2D_StpReportStatus_idx_def S2D_StpReportStatus_key_def S2D_StpReportStatus_expires_def S2D_StpReportStatus_ip_def

lemmas report_setters = S2D_StpReportStatus_set_stp_guid_def S2D_StpReportStatus_set_key_def
  S2D_StpReportStatus_set_expires_def S2D_StpReportStatus_set_group_def S2D_StpReportStatus_set_idx_def
  S2D_StpReportStatus_set_ip_def

lemma report_roundtrip:
  assumes "wire_laws api" "report_ok m"
  shows "S2D_StpReportStatus_Merge api (S2D_StpReportStatus_Serialize api m) S2D_StpReportStatus_default = Some (m, True)"
proof -
  note w = wire [OF assms(1)]
  let ?fld = "S2D_StpReportStatus_field api"
  let ?ps = "opt_piece (WriteUInt64 api 1) S2D_StpReportStatus_set_stp_guid (rs_stp_guid m) @
     opt_piece (WriteBytes api 2) S2D_StpReportStatus_set_key (rs_key m) @
     opt_piece (WriteBytes api 3) S2D_StpReportStatus_set_expires (rs_expires m) @
     opt_piece (WriteInt32 api 4) S2D_StpReportStatus_set_group (rs_group m) @
     opt_piece (WriteInt32 api 5) S2D_StpReportStatus_set_idx (rs_idx m) @
     opt_piece (WriteBytes api 6) S2D_StpReportStatus_set_ip (rs_ip m)"
  have "\<forall>(bs, u)\<in>set ?ps. reads_back api ?fld bs u"
    unfolding set_append ball_Un
  proof (intro conjI opt_piece_reads)
    show "reads_back api ?fld (WriteUInt64 api 1 v) (S2D_StpReportStatus_set_stp_guid v)" for v
      unfolding writers make_tags by (rule reads_backI) (simp_all add: S2D_StpReportStatus_field_def tag_parts w)
    show "reads_back api ?fld (WriteBytes api 2 v) (S2D_StpReportStatus_set_key v)" if "rs_key m = Some v" for v
      unfolding writers make_tags using assms(2) that by (intro reads_backI) (simp_all add: report_field_simps w)
    show "reads_back api ?fld (WriteBytes api 3 v) (S2D_StpReportStatus_set_expires v)" if "rs_expires m = Some v" for v
      unfolding writers make_tags using assms(2) that by (intro reads_backI) (simp_all add: report_field_simps w)
    show "reads_back api ?fld (WriteInt32 api 4 v) (S2D_StpReportStatus_set_group v)" if "rs_group m = Some v" for v
      unfolding writers make_tags using assms(2) that by (intro reads_backI) (simp_all add: report_field_simps w)
    show "reads_back api ?fld (WriteInt32 api 5 v) (S2D_StpReportStatus_set_idx v)" if "rs_idx m = Some v" for v
      unfolding writers make_tags using assms(2) that by (intro reads_backI) (simp_all add: report_field_simps w)
    show "reads_back api ?fld (WriteBytes api 6 v) (S2D_StpReportStatus_set_ip v)" if "rs_ip m = Some v" for v
      unfolding writers make_tags using assms(2) that by (intro reads_backI) (simp_all add: report_field_simps w)
  qed
  from merge_message_pieces [OF assms(1) this, of S2D_StpReportStatus_default]
  show ?thesis
    using assms(2) by (cases m) (simp add: S2D_StpReportStatus_Merge_def S2D_StpReportStatus_Serialize_def report_ok_def
        opt_piece_bytes opt_piece_fold S2D_StpReportStatus_default_def report_setters split: option.split)
qed

lemma ping_roundtrip:
  assumes "wire_laws api"
  shows "C2S_Ping_Merge api (C2S_Ping_Serialize api C2S_Ping_default) C2S_Ping_default = Some (C2S_Ping_default, True)"
    "S2C_Ping_Merge api (S2C_Ping_Serialize api S2C_Ping_default) S2C_Ping_default = Some (S2C_Ping_default, True)"
  using merge_message_pieces [OF assms, of "[]"]
  by (simp_all add: C2S_Ping_Merge_def S2C_Ping_Merge_def C2S_Ping_Serialize_def S2C_Ping_Serialize_def
      C2S_Ping_default_def S2C_Ping_default_def)

lemma report_size: "wire_laws api \<Longrightarrow> length (S2D_StpReportStatus_Serialize api d) = S2D_StpReportStatus_ByteSize api d"
  unfolding S2D_StpReportStatus_Serialize_def S2D_StpReportStatus_ByteSize_def
  by (cases "rs_stp_guid d"; cases "rs_key d"; cases "rs_expires d"; cases "rs_group d"; cases "rs_idx d"; cases "rs_ip d")
    (simp_all add: write_sizes)

lemma crypto_msg_size: "wire_laws api \<Longrightarrow> length (StpCryptoMsg_Serialize api c) = StpCryptoMsg_ByteSize api c"
  unfolding StpCryptoMsg_Serialize_def StpCryptoMsg_ByteSize_def
  by (cases "cm_token c"; cases "cm_data c") (simp_all add: write_sizes flip: token_size)

lemma ping_size:
  "length (C2S_Ping_Serialize api p) = C2S_Ping_ByteSize api p" "length (S2C_Ping_Serialize api q) = S2C_Ping_ByteSize api q"
  by (simp_all add: C2S_Ping_Serialize_def C2S_Ping_ByteSize_def S2C_Ping_Serialize_def S2C_Ping_ByteSize_def)

section \<open>Properties\<close>

text \<open>
  C12. Every message of the protocol survives its serialization: parsing the bytes that
  \<open>SerializeWithCachedSizes\<close> wrote for a message whose numbers are of their type and whose strings are
  within protobuf's limits gives the message back, and consumes all of them; and the number of these bytes
  is what \<open>ByteSize\<close> returns, for every message.
\<close>

theorem messages_roundtrip:
  assumes "wire_laws api"
  shows "(token_ok t \<longrightarrow> StpToken_Merge api (StpToken_Serialize api t) StpToken_default = Some (t, True))
    \<and> (request_ok r \<longrightarrow> Request_Merge api (Request_Serialize api r) Request_default = Some (r, True))
    \<and> (c2s_ok c \<longrightarrow> C2S_StpCryptoNegotiate_Merge api (C2S_StpCryptoNegotiate_Serialize api c)
         C2S_StpCryptoNegotiate_default = Some (c, True))
    \<and> (s2c_ok s \<longrightarrow> S2C_StpCryptoNegotiate_Merge api (S2C_StpCryptoNegotiate_Serialize api s)
         S2C_StpCryptoNegotiate_default = Some (s, True))
    \<and> (crypto_msg_ok e \<longrightarrow> StpCryptoMsg_Merge api (StpCryptoMsg_Serialize api e) StpCryptoMsg_default = Some (e, True))
    \<and> (report_ok d \<longrightarrow> S2D_StpReportStatus_Merge api (S2D_StpReportStatus_Serialize api d)
         S2D_StpReportStatus_default = Some (d, True))
    \<and> C2S_Ping_Merge api (C2S_Ping_Serialize api C2S_Ping_default) C2S_Ping_default = Some (C2S_Ping_default, True)
    \<and> S2C_Ping_Merge api (S2C_Ping_Serialize api S2C_Ping_default) S2C_Ping_default = Some (S2C_Ping_default, True)
    \<and> length (StpToken_Serialize api t) = StpToken_ByteSize api t
    \<and> length (Request_Serialize api r) = Request_ByteSize api r
    \<and> length (C2S_StpCryptoNegotiate_Serialize api c) = C2S_StpCryptoNegotiate_ByteSize api c
    \<and> length (S2C_StpCryptoNegotiate_Serialize api s) = S2C_StpCryptoNegotiate_ByteSize api s
    \<and> length (StpCryptoMsg_Serialize api e) = StpCryptoMsg_ByteSize api e
    \<and> length (S2D_StpReportStatus_Serialize api d) = S2D_StpReportStatus_ByteSize api d
    \<and> length (C2S_Ping_Serialize api p) = C2S_Ping_ByteSize api p
    \<and> length (S2C_Ping_Serialize api q) = S2C_Ping_ByteSize api q"
  using ping_roundtrip [OF assms] token_size [OF assms] request_size [OF assms] c2s_size [OF assms] s2c_size [OF assms]
    crypto_msg_size [OF assms] report_size [OF assms] ping_size token_roundtrip [OF assms] request_roundtrip [OF assms] c2s_roundtrip [OF assms] s2c_roundtrip [OF assms]
    crypto_msg_roundtrip [OF assms] report_roundtrip [OF assms] by blast

definition demo_token :: StpToken where
  "demo_token = \<lparr>tk_stp_guid = Some 1234567, tk_group = Some 0, tk_idx = Some 7, tk_expires = Some 8200,
     tk_key = Some [97, 98], tk_unknown = []\<rparr>"

lemma demo_token_ok: "token_ok demo_token"
  by (simp add: token_ok_def demo_token_def StpToken_group_def StpToken_idx_def StpToken_expires_def StpToken_key_def
      in_s32_def in_s64_def)

theorem messages_roundtrip_witness:
  "StpToken_Merge proto_wire (StpToken_Serialize proto_wire demo_token) StpToken_default = Some (demo_token, True)
   \<and> S2C_StpCryptoNegotiate_Merge proto_wire
       (S2C_StpCryptoNegotiate_Serialize proto_wire \<lparr>sn_res = Some 0, sn_stp_guid = Some 1, sn_token = Some demo_token, sn_unknown = []\<rparr>)
       S2C_StpCryptoNegotiate_default = Some (\<lparr>sn_res = Some 0, sn_stp_guid = Some 1, sn_token = Some demo_token, sn_unknown = []\<rparr>, True)"
  using messages_roundtrip [OF proto_wire_laws, of demo_token Request_default C2S_StpCryptoNegotiate_default
      "\<lparr>sn_res = Some 0, sn_stp_guid = Some 1, sn_token = Some demo_token, sn_unknown = []\<rparr>" StpCryptoMsg_default S2D_StpReportStatus_default
      C2S_Ping_default S2C_Ping_default]
    demo_token_ok by (simp add: s2c_ok_def StpResult_IsValid_def S2C_StpCryptoNegotiate_res_def)

end
