(* ===== verification/Codec.thy ===== *)
theory Codec
  imports Rpc_Pb_Proof
begin

text \<open>
  \<^verbatim>\<open>src/codec/proto_msg_serialization.cc\<close> and \<^verbatim>\<open>src/codec/proto_msg_dispatcher.cc\<close>: a message is sent
  inside a \<open>Request\<close> that carries its type name, and dispatched by it.

  \<open>Message::SerializeToArray\<close> and \<open>ParseFromArray\<close> are protobuf's: they write the serialization if it
  fits the given size, and parse the whole input.  The descriptor of a type is its name.  A handler
  is a function over the state \<open>'s\<close> of the program.
\<close>

section \<open>Messages by type\<close>

datatype proto_message =
    MsgRequest Request
  | MsgC2SPing C2S_Ping
  | MsgS2CPing S2C_Ping
  | MsgCrypto StpCryptoMsg
  | MsgC2SNegotiate C2S_StpCryptoNegotiate
  | MsgS2CNegotiate S2C_StpCryptoNegotiate
  | MsgReport S2D_StpReportStatus
  | MsgToken StpToken

fun GetTypeName :: "proto_message \<Rightarrow> u8 list" where
  "GetTypeName (MsgRequest _) = str ''rpc.Request''"
| "GetTypeName (MsgC2SPing _) = str ''rpc.C2S_Ping''"
| "GetTypeName (MsgS2CPing _) = str ''rpc.S2C_Ping''"
| "GetTypeName (MsgCrypto _) = str ''rpc.StpCryptoMsg''"
| "GetTypeName (MsgC2SNegotiate _) = str ''rpc.C2S_StpCryptoNegotiate''"
| "GetTypeName (MsgS2CNegotiate _) = str ''rpc.S2C_StpCryptoNegotiate''"
| "GetTypeName (MsgReport _) = str ''rpc.S2D_StpReportStatus''"
| "GetTypeName (MsgToken _) = str ''rpc.StpToken''"

fun message_bytes :: "wire_api \<Rightarrow> proto_message \<Rightarrow> u8 list" where
  "message_bytes api (MsgRequest m) = Request_Serialize api m"
| "message_bytes api (MsgC2SPing m) = C2S_Ping_Serialize api m"
| "message_bytes api (MsgS2CPing m) = S2C_Ping_Serialize api m"
| "message_bytes api (MsgCrypto m) = StpCryptoMsg_Serialize api m"
| "message_bytes api (MsgC2SNegotiate m) = C2S_StpCryptoNegotiate_Serialize api m"
| "message_bytes api (MsgS2CNegotiate m) = S2C_StpCryptoNegotiate_Serialize api m"
| "message_bytes api (MsgReport m) = S2D_StpReportStatus_Serialize api m"
| "message_bytes api (MsgToken m) = StpToken_Serialize api m"

text \<open>\<open>GetCachedSize\<close> after serializing is what \<open>ByteSize\<close> returned.\<close>

fun GetCachedSize :: "wire_api \<Rightarrow> proto_message \<Rightarrow> nat" where
  "GetCachedSize api (MsgRequest m) = Request_ByteSize api m"
| "GetCachedSize api (MsgC2SPing m) = C2S_Ping_ByteSize api m"
| "GetCachedSize api (MsgS2CPing m) = S2C_Ping_ByteSize api m"
| "GetCachedSize api (MsgCrypto m) = StpCryptoMsg_ByteSize api m"
| "GetCachedSize api (MsgC2SNegotiate m) = C2S_StpCryptoNegotiate_ByteSize api m"
| "GetCachedSize api (MsgS2CNegotiate m) = S2C_StpCryptoNegotiate_ByteSize api m"
| "GetCachedSize api (MsgReport m) = S2D_StpReportStatus_ByteSize api m"
| "GetCachedSize api (MsgToken m) = StpToken_ByteSize api m"

text \<open>
  \<open>CreateMessage\<close> looks the name up in the generated pool; the types of other files in the pool have no
  callback and behave like an unknown name.
\<close>

definition message_prototypes :: "proto_message list" where
  "message_prototypes =
     [MsgRequest Request_default, MsgC2SPing C2S_Ping_default, MsgS2CPing S2C_Ping_default,
      MsgCrypto StpCryptoMsg_default, MsgC2SNegotiate C2S_StpCryptoNegotiate_default,
      MsgS2CNegotiate S2C_StpCryptoNegotiate_default, MsgReport S2D_StpReportStatus_default,
      MsgToken StpToken_default]"

definition CreateMessage :: "u8 list \<Rightarrow> proto_message option" where
  "CreateMessage type_name = find (\<lambda>m. GetTypeName m = type_name) message_prototypes"

text \<open>\<open>message->ParseFromArray(...)\<close> on a message just created.\<close>

fun ParseFromArray :: "wire_api \<Rightarrow> proto_message \<Rightarrow> u8 list \<Rightarrow> proto_message option" where
  "ParseFromArray api (MsgRequest m) bs =
     map_option MsgRequest (ParseFrom (\<lambda>bs. Request_Merge api bs (Request_Clear m)) Request_IsInitialized bs)"
| "ParseFromArray api (MsgC2SPing m) bs =
     map_option MsgC2SPing (ParseFrom (\<lambda>bs. C2S_Ping_Merge api bs (C2S_Ping_Clear m)) C2S_Ping_IsInitialized bs)"
| "ParseFromArray api (MsgS2CPing m) bs =
     map_option MsgS2CPing (ParseFrom (\<lambda>bs. S2C_Ping_Merge api bs (S2C_Ping_Clear m)) S2C_Ping_IsInitialized bs)"
| "ParseFromArray api (MsgCrypto m) bs =
     map_option MsgCrypto (ParseFrom (\<lambda>bs. StpCryptoMsg_Merge api bs (StpCryptoMsg_Clear m)) StpCryptoMsg_IsInitialized bs)"
| "ParseFromArray api (MsgC2SNegotiate m) bs =
     map_option MsgC2SNegotiate (ParseFrom (\<lambda>bs. C2S_StpCryptoNegotiate_Merge api bs (C2S_StpCryptoNegotiate_Clear m))
       C2S_StpCryptoNegotiate_IsInitialized bs)"
| "ParseFromArray api (MsgS2CNegotiate m) bs =
     map_option MsgS2CNegotiate (ParseFrom (\<lambda>bs. S2C_StpCryptoNegotiate_Merge api bs (S2C_StpCryptoNegotiate_Clear m))
       S2C_StpCryptoNegotiate_IsInitialized bs)"
| "ParseFromArray api (MsgReport m) bs =
     map_option MsgReport (ParseFrom (\<lambda>bs. S2D_StpReportStatus_Merge api bs (S2D_StpReportStatus_Clear m))
       S2D_StpReportStatus_IsInitialized bs)"
| "ParseFromArray api (MsgToken m) bs =
     map_option MsgToken (ParseFrom (\<lambda>bs. StpToken_Merge api bs (StpToken_Clear m)) StpToken_IsInitialized bs)"

section \<open>Serialization\<close>

text \<open>
  protobuf's \<open>SerializeToArray(array, size)\<close>; writing more than the array holds is a \<open>Fault\<close>.  The
  function of the same name in the codec: the request is built from the bytes in the array before it
  overwrites them.
\<close>

definition write_array :: "u8 list \<Rightarrow> nat \<Rightarrow> u8 list \<Rightarrow> (bool \<times> u8 list) run" where
  "write_array bs sz array =
     (if sz < length bs then Ret (False, array)
      else if length array < length bs then Fault
      else Ret (True, overwrite 0 bs array))"

definition SerializeToArray :: "wire_api \<Rightarrow> proto_message \<Rightarrow> u8 list \<Rightarrow> nat \<Rightarrow> (bool \<times> u8 list \<times> nat) run" where
  "SerializeToArray api msg array sz =
     run_bind (write_array (message_bytes api msg) sz array) (\<lambda>(ok, array).
       if \<not> ok then Ret (False, array, sz)
       else
         let req = Request_set_method (GetTypeName msg) Request_default;
             req = Request_set_serialized_request (take (GetCachedSize api msg) array) req
         in run_bind (write_array (Request_Serialize api req) sz array) (\<lambda>(ok, array).
              if \<not> ok then Ret (False, array, sz)
              else Ret (True, array, Request_ByteSize api req)))"

section \<open>Dispatch\<close>

record 's dispatcher =
  canceled :: bool
  callback_map :: "(u8 list \<times> (proto_message \<Rightarrow> 's \<Rightarrow> 's run)) list"

definition new_MsgDispatcher :: "'s dispatcher" where
  "new_MsgDispatcher = \<lparr>canceled = False, callback_map = []\<rparr>"

definition CancelDispatch :: "'s dispatcher \<Rightarrow> 's dispatcher" where
  "CancelDispatch d = d\<lparr>canceled := True\<rparr>"

definition ResumeDispatch :: "'s dispatcher \<Rightarrow> 's dispatcher" where
  "ResumeDispatch d = d\<lparr>canceled := False\<rparr>"

definition RegisterMessageCallback ::
    "u8 list \<Rightarrow> (proto_message \<Rightarrow> 's \<Rightarrow> 's run) \<Rightarrow> 's dispatcher \<Rightarrow> 's dispatcher" where
  "RegisterMessageCallback descriptor h d =
     d\<lparr>callback_map := (descriptor, h) # filter (\<lambda>e. fst e \<noteq> descriptor) (callback_map d)\<rparr>"

definition parse_request :: "wire_api \<Rightarrow> u8 list \<Rightarrow> Request option" where
  "parse_request api data = ParseFrom (\<lambda>bs. Request_Merge api bs Request_default) Request_IsInitialized data"

text \<open>\<open>MsgDispatcher::Parse\<close> returns the message also when its contents did not parse.\<close>

definition dispatcher_Parse :: "wire_api \<Rightarrow> u8 list \<Rightarrow> (proto_message \<times> bool) option" where
  "dispatcher_Parse api data =
     (if length data < 4 then None
      else
        (case parse_request api data of
           None \<Rightarrow> None
         | Some req \<Rightarrow>
             (case CreateMessage (Request_method req) of
                None \<Rightarrow> None
              | Some m \<Rightarrow>
                  (case ParseFromArray api m (Request_serialized_request req) of
                     None \<Rightarrow> Some (m, False)
                   | Some m' \<Rightarrow> Some (m', True)))))"

text \<open>The flag \<open>canceled_\<close> is not consulted.\<close>

definition OnceDispatch :: "wire_api \<Rightarrow> 's dispatcher \<Rightarrow> u8 list \<Rightarrow> 's \<Rightarrow> (bool \<times> 's) run" where
  "OnceDispatch api d data s =
     (if length data < 4 then Ret (False, s)
      else
        (case parse_request api data of
           None \<Rightarrow> Ret (False, s)
         | Some req \<Rightarrow>
             (case CreateMessage (Request_method req) of
                None \<Rightarrow> Ret (True, s)
              | Some m \<Rightarrow>
                  (case ParseFromArray api m (Request_serialized_request req) of
                     None \<Rightarrow> Ret (True, s)
                   | Some m' \<Rightarrow>
                       (case map_of (callback_map d) (GetTypeName m') of
                          None \<Rightarrow> Ret (True, s)
                        | Some h \<Rightarrow> run_bind (h m' s) (\<lambda>s. Ret (True, s)))))))"

section \<open>Round trip\<close>

fun message_ok :: "proto_message \<Rightarrow> bool" where
  "message_ok (MsgRequest m) \<longleftrightarrow> request_ok m \<and> Request_has_method m"
| "message_ok (MsgC2SPing m) \<longleftrightarrow> cp_unknown m = []"
| "message_ok (MsgS2CPing m) \<longleftrightarrow> sp_unknown m = []"
| "message_ok (MsgCrypto m) \<longleftrightarrow> crypto_msg_ok m"
| "message_ok (MsgC2SNegotiate m) \<longleftrightarrow> c2s_ok m"
| "message_ok (MsgS2CNegotiate m) \<longleftrightarrow> s2c_ok m"
| "message_ok (MsgReport m) \<longleftrightarrow> report_ok m"
| "message_ok (MsgToken m) \<longleftrightarrow> token_ok m"

definition default_like :: "proto_message \<Rightarrow> proto_message" where
  "default_like m = (case m of
       MsgRequest _ \<Rightarrow> MsgRequest Request_default | MsgC2SPing _ \<Rightarrow> MsgC2SPing C2S_Ping_default
     | MsgS2CPing _ \<Rightarrow> MsgS2CPing S2C_Ping_default | MsgCrypto _ \<Rightarrow> MsgCrypto StpCryptoMsg_default
     | MsgC2SNegotiate _ \<Rightarrow> MsgC2SNegotiate C2S_StpCryptoNegotiate_default
     | MsgS2CNegotiate _ \<Rightarrow> MsgS2CNegotiate S2C_StpCryptoNegotiate_default
     | MsgReport _ \<Rightarrow> MsgReport S2D_StpReportStatus_default | MsgToken _ \<Rightarrow> MsgToken StpToken_default)"

lemma create_by_name: "CreateMessage (GetTypeName m) = Some (default_like m)"
  by (cases m) (simp_all add: CreateMessage_def message_prototypes_def default_like_def str_def)

lemmas clear_defaults =
  Request_Clear_def Request_default_def C2S_Ping_Clear_def C2S_Ping_default_def S2C_Ping_Clear_def
  S2C_Ping_default_def StpCryptoMsg_Clear_def StpCryptoMsg_default_def C2S_StpCryptoNegotiate_Clear_def
  C2S_StpCryptoNegotiate_default_def S2C_StpCryptoNegotiate_Clear_def S2C_StpCryptoNegotiate_default_def
  S2D_StpReportStatus_Clear_def S2D_StpReportStatus_default_def StpToken_Clear_def StpToken_default_def

lemma clear_default [simp]:
  "Request_Clear Request_default = Request_default" "C2S_Ping_Clear C2S_Ping_default = C2S_Ping_default"
  "S2C_Ping_Clear S2C_Ping_default = S2C_Ping_default" "StpCryptoMsg_Clear StpCryptoMsg_default = StpCryptoMsg_default"
  "C2S_StpCryptoNegotiate_Clear C2S_StpCryptoNegotiate_default = C2S_StpCryptoNegotiate_default"
  "S2C_StpCryptoNegotiate_Clear S2C_StpCryptoNegotiate_default = S2C_StpCryptoNegotiate_default"
  "S2D_StpReportStatus_Clear S2D_StpReportStatus_default = S2D_StpReportStatus_default"
  "StpToken_Clear StpToken_default = StpToken_default"
  by (simp_all add: clear_defaults)

lemma parse_serialized:
  assumes "wire_laws api" "message_ok m"
  shows "ParseFromArray api (default_like m) (message_bytes api m) = Some m"
proof (cases m)
  case (MsgC2SPing p)
  then have "p = C2S_Ping_default" using assms(2) by (cases p) (simp add: C2S_Ping_default_def)
  then show ?thesis using MsgC2SPing ping_roundtrip [OF assms(1)]
    by (simp add: default_like_def ParseFrom_def C2S_Ping_IsInitialized_def)
next
  case (MsgS2CPing p)
  then have "p = S2C_Ping_default" using assms(2) by (cases p) (simp add: S2C_Ping_default_def)
  then show ?thesis using MsgS2CPing ping_roundtrip [OF assms(1)]
    by (simp add: default_like_def ParseFrom_def S2C_Ping_IsInitialized_def)
qed (use assms request_roundtrip crypto_msg_roundtrip c2s_roundtrip s2c_roundtrip report_roundtrip token_roundtrip in
    \<open>simp_all add: default_like_def ParseFrom_def Request_IsInitialized_def StpCryptoMsg_IsInitialized_def
      C2S_StpCryptoNegotiate_IsInitialized_def S2C_StpCryptoNegotiate_IsInitialized_def
      S2D_StpReportStatus_IsInitialized_def StpToken_IsInitialized_def\<close>)

lemma message_size: "wire_laws api \<Longrightarrow> length (message_bytes api m) = GetCachedSize api m"
  by (cases m) (simp_all add: request_size c2s_size s2c_size token_size report_size crypto_msg_size ping_size)

text \<open>The request the codec builds.\<close>

definition envelope :: "wire_api \<Rightarrow> proto_message \<Rightarrow> Request" where
  "envelope api m = \<lparr>rq_method = Some (GetTypeName m), rq_serialized_request = Some (message_bytes api m), rq_unknown = []\<rparr>"

lemma length_type_name: "8 \<le> length (GetTypeName m) \<and> length (GetTypeName m) \<le> 30"
  by (cases m) simp_all

lemma SerializeToArray_ret:
  assumes "wire_laws api" "sz \<le> length array"
  shows "SerializeToArray api m array sz =
    (if sz < length (message_bytes api m) then Ret (False, array, sz)
     else if sz < length (Request_Serialize api (envelope api m)) then Ret (False, overwrite 0 (message_bytes api m) array, sz)
     else Ret (True, overwrite 0 (Request_Serialize api (envelope api m)) (overwrite 0 (message_bytes api m) array),
       length (Request_Serialize api (envelope api m))))"
proof -
  have t: "take (GetCachedSize api m) (overwrite 0 (message_bytes api m) array) = message_bytes api m"
    by (simp add: overwrite_def flip: message_size [OF assms(1)])
  have e: "Request_set_serialized_request (message_bytes api m) (Request_set_method (GetTypeName m) Request_default) = envelope api m"
    by (simp add: Request_set_serialized_request_def Request_set_method_def Request_default_def envelope_def)
  show ?thesis
    using assms(2) by (auto simp: SerializeToArray_def write_array_def Let_def t e request_size [OF assms(1)])
qed

lemma envelope_ok: "length (message_bytes api m) < 2 ^ 20 \<Longrightarrow> request_ok (envelope api m)"
  using length_type_name [of m] by (simp add: request_ok_def envelope_def Request_method_def Request_serialized_request_def)

lemma parse_envelope:
  assumes "wire_laws api" "length (message_bytes api m) < 2 ^ 20"
  shows "parse_request api (Request_Serialize api (envelope api m)) = Some (envelope api m)"
  using request_roundtrip [OF assms(1) envelope_ok [OF assms(2)]]
  by (simp add: parse_request_def ParseFrom_def Request_IsInitialized_def Request_has_method_def) (simp add: envelope_def)

lemma envelope_length:
  assumes "wire_laws api"
  shows "8 \<le> length (Request_Serialize api (envelope api m))"
    "length (message_bytes api m) < 2 ^ 20 \<Longrightarrow> length (Request_Serialize api (envelope api m)) \<le> length (message_bytes api m) + 52"
proof -
  have e: "length (Request_Serialize api (envelope api m)) =
      2 + length (w_bytes api (GetTypeName m)) + length (w_bytes api (message_bytes api m))"
    by (simp add: Request_Serialize_def envelope_def write_sizes [OF assms] wire_sizes [OF assms])
  show "8 \<le> length (Request_Serialize api (envelope api m))"
    using wire_bounds(6) [OF assms, of "GetTypeName m"] length_type_name [of m] unfolding e by linarith
  show "length (Request_Serialize api (envelope api m)) \<le> length (message_bytes api m) + 52"
    if "length (message_bytes api m) < 2 ^ 20"
    using wire_bounds(5) [OF assms, of "GetTypeName m"] wire_bounds(5) [OF assms, of "message_bytes api m"]
      length_type_name [of m] that unfolding e max_message_def by simp
qed

text \<open>A message with 52 bytes to spare fits.\<close>

lemma serialize_fits:
  assumes "wire_laws api" "length (message_bytes api m) + 52 \<le> sz" "sz \<le> length array" "sz \<le> 2 ^ 20"
  obtains buf where "SerializeToArray api m array sz = Ret (True, buf, length (Request_Serialize api (envelope api m)))"
    "length buf = length array" "take (length (Request_Serialize api (envelope api m))) buf = Request_Serialize api (envelope api m)"
proof -
  let ?e = "Request_Serialize api (envelope api m)"
  have e: "length ?e \<le> sz" using envelope_length(2) [OF assms(1), of m] assms(2,4) by simp
  let ?buf = "overwrite 0 ?e (overwrite 0 (message_bytes api m) array)"
  have "SerializeToArray api m array sz = Ret (True, ?buf, length ?e)"
    using SerializeToArray_ret [OF assms(1,3), of m] assms(2) e by simp
  moreover have "length ?buf = length array" using e assms(2,3) by simp
  moreover have "take (length ?e) ?buf = ?e" by (simp add: overwrite_def)
  ultimately show thesis by (rule that)
qed

lemma dispatch_envelope:
  assumes "wire_laws api" "message_ok m" "length (message_bytes api m) < 2 ^ 20"
  shows "OnceDispatch api d (Request_Serialize api (envelope api m)) s =
    (case map_of (callback_map d) (GetTypeName m) of None \<Rightarrow> Ret (True, s)
     | Some h \<Rightarrow> run_bind (h m s) (\<lambda>s. Ret (True, s)))"
proof -
  have "Request_method (envelope api m) = GetTypeName m" "Request_serialized_request (envelope api m) = message_bytes api m"
    by (simp_all add: envelope_def Request_method_def Request_serialized_request_def)
  moreover have "\<not> length (Request_Serialize api (envelope api m)) < 4" using envelope_length(1) [OF assms(1), of m] by simp
  ultimately show ?thesis
    using parse_envelope [OF assms(1,3)] parse_serialized [OF assms(1,2)] by (simp add: OnceDispatch_def create_by_name)
qed

text \<open>
  C13. A message that the codec serialized into an array reaches, at the other end, exactly the handler
  registered for its type, and as the same message: dispatching the bytes the codec reports runs that
  handler once, or nothing when none is registered.
\<close>

theorem codec_dispatch:
  assumes "wire_laws api" "message_ok m" "length (message_bytes api m) < 2 ^ 20"
    and "sz \<le> length array" "SerializeToArray api m array sz = Ret (True, array', n)"
  shows "OnceDispatch api d (take n array') s =
    (case map_of (callback_map d) (GetTypeName m) of None \<Rightarrow> Ret (True, s)
     | Some h \<Rightarrow> run_bind (h m s) (\<lambda>s. Ret (True, s)))"
proof -
  have "n = length (Request_Serialize api (envelope api m))"
    "array' = overwrite 0 (Request_Serialize api (envelope api m)) (overwrite 0 (message_bytes api m) array)"
    using assms(5) by (simp_all add: SerializeToArray_ret [OF assms(1,4)] split: if_splits)
  then have "take n array' = Request_Serialize api (envelope api m)" by (simp add: overwrite_def)
  then show ?thesis using dispatch_envelope [OF assms(1-3)] by simp
qed

definition counting_dispatcher :: "nat dispatcher" where
  "counting_dispatcher = RegisterMessageCallback (str ''rpc.C2S_Ping'') (\<lambda>m n. Ret (n + 1)) new_MsgDispatcher"

theorem codec_dispatch_witness:
  "\<exists>array' n. SerializeToArray proto_wire (MsgC2SPing C2S_Ping_default) (replicate 64 0) 64 = Ret (True, array', n)
    \<and> OnceDispatch proto_wire counting_dispatcher (take n array') 0 = Ret (True, 1)"
proof -
  let ?m = "MsgC2SPing C2S_Ping_default"
  have b: "message_bytes proto_wire ?m = []" by (simp add: C2S_Ping_Serialize_def C2S_Ping_default_def)
  have "length (Request_Serialize proto_wire (envelope proto_wire ?m)) \<le> 64"
    using envelope_length(2) [OF proto_wire_laws, of ?m] b by simp
  then obtain array' n where s: "SerializeToArray proto_wire ?m (replicate 64 0) 64 = Ret (True, array', n)"
    using SerializeToArray_ret [OF proto_wire_laws, of 64 "replicate 64 0" ?m] b by simp
  have "OnceDispatch proto_wire counting_dispatcher (take n array') 0 = Ret (True, 1)"
    using codec_dispatch [OF proto_wire_laws _ _ _ s, of counting_dispatcher 0] b
    by (simp add: C2S_Ping_default_def counting_dispatcher_def RegisterMessageCallback_def new_MsgDispatcher_def)
  then show ?thesis using s by blast
qed

text \<open>
  Dispatch never depends on the bytes being well formed: on every input, \<open>OnceDispatch\<close> either runs
  no handler and leaves the state, or runs one registered handler on a message that parsed; it
  reports success also when it ran none.
\<close>

theorem dispatch_total:
  "(\<exists>ok. OnceDispatch api d data s = Ret (ok, s)) \<or>
   (\<exists>h m. (GetTypeName m, h) \<in> set (callback_map d) \<and> OnceDispatch api d data s = run_bind (h m s) (\<lambda>s. Ret (True, s)))"
  by (auto simp: OnceDispatch_def split: option.split dest!: map_of_SomeD)

end
