(* ===== verification/Stp_Token.thy ===== *)
theory Stp_Token
  imports Rpc_Pb
begin

text \<open>\<^verbatim>\<open>src/stpcomm/stp_token.cc\<close>: filling in a token, and its expiry test.\<close>

definition GenerateToken :: "u64 \<Rightarrow> int \<Rightarrow> int \<Rightarrow> int \<Rightarrow> u8 list \<Rightarrow> StpToken \<Rightarrow> bool \<times> StpToken" where
  "GenerateToken stp_guid grp idx expires key token =
     (True, StpToken_set_key key (StpToken_set_stp_guid stp_guid (StpToken_set_idx idx
              (StpToken_set_group grp (StpToken_set_expires expires token)))))"

definition ValidateToken :: "int \<Rightarrow> StpToken \<Rightarrow> bool" where
  "ValidateToken now token = (if now \<ge> StpToken_expires token then False else True)"

lemma generated_token:
  "snd (GenerateToken g grp i e k StpToken_default) =
     \<lparr>tk_stp_guid = Some g, tk_group = Some grp, tk_idx = Some i, tk_expires = Some e, tk_key = Some k, tk_unknown = []\<rparr>"
  by (simp add: GenerateToken_def StpToken_default_def StpToken_set_key_def StpToken_set_stp_guid_def
      StpToken_set_idx_def StpToken_set_group_def StpToken_set_expires_def)

end
