(* ===== verification/Stp_Dao.thy ===== *)
theory Stp_Dao
  imports Prelude
begin

text \<open>
  \<^verbatim>\<open>src/stpserver/stp_dao.cc\<close>: the two statements the server runs against its database.

  The MySQL wrapper is a submodule and not part of the sources: its calls are a parameter, a record
  of functions over the state \<open>'db\<close>; each may throw.  A pointer is an option.
\<close>

datatype 'a attempt = Throws | Done 'a

datatype sql_value = SqlInt64 int | SqlInt int | SqlString "u8 list"

record 'db mysql_api =
  my_GetConnection :: "'db \<Rightarrow> nat option attempt \<times> 'db"
  my_ReleaseConnection :: "nat \<Rightarrow> 'db \<Rightarrow> unit attempt \<times> 'db"
  my_PrepareStatement :: "nat \<Rightarrow> string \<Rightarrow> 'db \<Rightarrow> nat option attempt \<times> 'db"
  my_Set :: "nat \<Rightarrow> nat \<Rightarrow> sql_value \<Rightarrow> 'db \<Rightarrow> unit attempt \<times> 'db"
  my_ExecuteQuery :: "nat \<Rightarrow> 'db \<Rightarrow> nat option attempt \<times> 'db"
  my_Next :: "nat \<Rightarrow> 'db \<Rightarrow> bool attempt \<times> 'db"
  my_ExecuteUpdate :: "nat \<Rightarrow> 'db \<Rightarrow> int attempt \<times> 'db"

text \<open>
  A step inside the \<open>try\<close> block: when it throws, the function returns \<open>res\<close> from after the \<open>catch\<close>.
\<close>

definition try_step :: "bool \<Rightarrow> 'a attempt \<times> 'db \<Rightarrow> ('a \<Rightarrow> 'db \<Rightarrow> bool \<times> 'db) \<Rightarrow> bool \<times> 'db" where
  "try_step res r f = (case r of (Throws, db) \<Rightarrow> (res, db) | (Done x, db) \<Rightarrow> f x db)"

definition select_sql :: string where
  "select_sql = ''select stp_guid from stp_deploy where stp_guid=?;''"

definition CheckStpGuidValid :: "'db mysql_api \<Rightarrow> u64 \<Rightarrow> 'db \<Rightarrow> bool \<times> 'db" where
  "CheckStpGuidValid api stp_guid db =
     try_step False (my_GetConnection api db) (\<lambda>conn db.
       case conn of None \<Rightarrow> (False, db) | Some conn \<Rightarrow>
       try_step False (my_PrepareStatement api conn select_sql db) (\<lambda>stmt db.
         case stmt of
           None \<Rightarrow> try_step False (my_ReleaseConnection api conn db) (\<lambda>_ db. (False, db))
         | Some stmt \<Rightarrow>
             try_step False (my_Set api stmt 0 (SqlInt64 (sint stp_guid)) db) (\<lambda>_ db.
             try_step False (my_ExecuteQuery api stmt db) (\<lambda>result db.
             try_step False (case result of None \<Rightarrow> (Done False, db) | Some r \<Rightarrow> my_Next api r db) (\<lambda>res db.
             try_step res (my_ReleaseConnection api conn db) (\<lambda>_ db. (res, db)))))))"

definition insert_sql :: string where
  "insert_sql = ''insert into stp_status(stp_guid, stp_key, expires, stp_group, idx, insert_time, stp_desc) values(?,?,?,?,?,now(),?);''"

text \<open>The columns the placeholders of \<open>insert_sql\<close> stand for, in their order.\<close>

definition insert_columns :: "string list" where
  "insert_columns = [''stp_guid'', ''stp_key'', ''expires'', ''stp_group'', ''idx'', ''stp_desc'']"

text \<open>The values set, by placeholder; \<open>desc\<close> is the literal text of the last one.\<close>

definition insert_values :: "u8 list \<Rightarrow> u64 \<Rightarrow> int \<Rightarrow> int \<Rightarrow> int \<Rightarrow> u8 list \<Rightarrow> sql_value list" where
  "insert_values desc stp_guid grp idx expires key =
     [SqlInt64 (sint stp_guid), SqlString (takeWhile (\<lambda>c. c \<noteq> 0) key), SqlInt grp, SqlInt idx, SqlInt64 expires,
      SqlString desc]"

fun set_all :: "'db mysql_api \<Rightarrow> nat \<Rightarrow> nat \<Rightarrow> sql_value list \<Rightarrow> 'db \<Rightarrow> unit attempt \<times> 'db" where
  "set_all api stmt i [] db = (Done (), db)"
| "set_all api stmt i (v # vs) db =
     (case my_Set api stmt i v db of
        (Throws, db) \<Rightarrow> (Throws, db)
      | (Done _, db) \<Rightarrow> set_all api stmt (Suc i) vs db)"

definition InsertCryptoStatus ::
    "'db mysql_api \<Rightarrow> u8 list \<Rightarrow> u64 \<Rightarrow> int \<Rightarrow> int \<Rightarrow> int \<Rightarrow> u8 list \<Rightarrow> 'db \<Rightarrow> bool \<times> 'db" where
  "InsertCryptoStatus api desc stp_guid grp idx expires key db =
     try_step False (my_GetConnection api db) (\<lambda>conn db.
       case conn of None \<Rightarrow> (False, db) | Some conn \<Rightarrow>
       try_step False (my_PrepareStatement api conn insert_sql db) (\<lambda>stmt db.
         case stmt of
           None \<Rightarrow> try_step False (my_ReleaseConnection api conn db) (\<lambda>_ db. (False, db))
         | Some stmt \<Rightarrow>
             try_step False (set_all api stmt 0 (insert_values desc stp_guid grp idx expires key) db) (\<lambda>_ db.
             try_step False (my_ExecuteUpdate api stmt db) (\<lambda>n db.
             let res = (n \<noteq> -1) in
             try_step res (my_ReleaseConnection api conn db) (\<lambda>_ db. (res, db))))))"

section \<open>Properties\<close>

text \<open>
  The row written for a negotiated key has its columns mixed up: the column \<open>expires\<close> gets the group,
  \<open>stp_group\<close> the slot index, and \<open>idx\<close> the expiry time.
\<close>

lemma insert_columns_swapped:
  "map_of (zip insert_columns (insert_values desc guid grp i expires key)) =
     [''stp_guid'' \<mapsto> SqlInt64 (sint guid), ''stp_key'' \<mapsto> SqlString (takeWhile (\<lambda>c. c \<noteq> 0) key),
      ''expires'' \<mapsto> SqlInt grp, ''stp_group'' \<mapsto> SqlInt i, ''idx'' \<mapsto> SqlInt64 expires, ''stp_desc'' \<mapsto> SqlString desc]"
  by (rule ext) (simp add: insert_columns_def insert_values_def)

text \<open>
  An exception leaks the database connection: when setting a value, executing the query or reading
  its result throws, the check returns false and leaves the database as the failing call left it,
  whatever \<open>ReleaseConnection\<close> does: it is not called.
\<close>

theorem exception_leaks_connection:
  assumes "my_GetConnection api db = (Done (Some c), db1)" "my_PrepareStatement api c select_sql db1 = (Done (Some st), db2)"
    and "my_Set api st 0 (SqlInt64 (sint guid)) db2 = (Throws, db3)
      \<or> my_Set api st 0 (SqlInt64 (sint guid)) db2 = (Done (), db4) \<and> my_ExecuteQuery api st db4 = (Throws, db3)
      \<or> my_Set api st 0 (SqlInt64 (sint guid)) db2 = (Done (), db4) \<and> my_ExecuteQuery api st db4 = (Done (Some r), db5)
        \<and> my_Next api r db5 = (Throws, db3)"
  shows "CheckStpGuidValid (api\<lparr>my_ReleaseConnection := release\<rparr>) guid db = (False, db3)"
  using assms by (auto simp: CheckStpGuidValid_def try_step_def)

text \<open>A wrapper over the list of connections that are free, for which every call but the bind succeeds.\<close>

definition pool_api :: "bool \<Rightarrow> nat list mysql_api" where
  "pool_api bind_throws = \<lparr>my_GetConnection = (\<lambda>db. case db of [] \<Rightarrow> (Done None, []) | c # cs \<Rightarrow> (Done (Some c), cs)),
     my_ReleaseConnection = (\<lambda>c db. (Done (), c # db)), my_PrepareStatement = (\<lambda>_ _ db. (Done (Some 0), db)),
     my_Set = (\<lambda>_ _ _ db. (if bind_throws then Throws else Done (), db)),
     my_ExecuteQuery = (\<lambda>_ db. (Done (Some 0), db)), my_Next = (\<lambda>_ db. (Done True, db)),
     my_ExecuteUpdate = (\<lambda>_ db. (Done 1, db))\<rparr>"

theorem exception_leaks_connection_witness:
  "CheckStpGuidValid (pool_api True\<lparr>my_ReleaseConnection := \<lambda>c db. (Done (), c # db)\<rparr>) 5 [1, 2] = (False, [2])"
  using exception_leaks_connection [of "pool_api True" "[1, 2]" 1 "[2]" 0 "[2]" 5 "[2]"]
  by (simp add: pool_api_def)

lemma check_guid_connection: "CheckStpGuidValid (pool_api False) g (c # cs) = (True, c # cs)"
  by (simp add: CheckStpGuidValid_def pool_api_def try_step_def)

end
