(* ===== verification/Stp_Server.thy ===== *)
theory Stp_Server
  imports Init_Proof Connection_Proof Codec Stp_Token Stp_Dao
begin

text \<open>
  \<^verbatim>\<open>src/stpserver/stp_server.cc\<close> and \<^verbatim>\<open>src/stpserver/stpsvr_msg_dispatcher.cc\<close>: the handlers of the server.

  The state of the program that a handler reaches is one record: the negotiation table, the memory
  and operating system, the database, the connection the message came on, and \<open>send_buf_\<close>.  The
  services are parameters, gathered in \<open>services\<close>.  Pointers to connections and messages are not
  null, as the dispatcher passes them.
\<close>

record ('b, 'os, 'db) services =
  sv_env :: "'os env"
  sv_wire :: wire_api
  sv_evbuffer :: "'b evbuffer_api"
  sv_mysql :: "'db mysql_api"
  sv_config :: svr_config
  sv_desc :: "u8 list"

record ('b, 'os, 'db) server =
  s_nego :: negotiate
  s_world :: "'os world"
  s_db :: 'db
  s_conn :: "'b connection"
  s_send_buf :: "u8 list"

definition sizeof_send_buf :: nat where "sizeof_send_buf = 1024"

text \<open>The end of both handlers: serialize into \<open>send_buf_\<close> and send what was written.\<close>

definition server_reply ::
    "('b, 'os, 'db) services \<Rightarrow> proto_message \<Rightarrow> ('b, 'os, 'db) server \<Rightarrow> ('b, 'os, 'db) server run" where
  "server_reply sv rsp s =
     run_bind (SerializeToArray (sv_wire sv) rsp (s_send_buf s) sizeof_send_buf) (\<lambda>(ok, buf, n).
       let s = s\<lparr>s_send_buf := buf\<rparr>
       in if ok then Ret (s\<lparr>s_conn := snd (SendNetMessage (sv_evbuffer sv) (take n buf) (s_conn s))\<rparr>)
          else Ret s)"

definition server_HandleProtocol_Ping ::
    "('b, 'os, 'db) services \<Rightarrow> C2S_Ping \<Rightarrow> ('b, 'os, 'db) server \<Rightarrow> ('b, 'os, 'db) server run" where
  "server_HandleProtocol_Ping sv msg s = server_reply sv (MsgS2CPing S2C_Ping_default) s"

text \<open>\<open>now\<close> holds the two readings of the clock in \<open>CryptoNegotiate\<close>.\<close>

definition negotiate_reply ::
    "('b, 'os, 'db) services \<Rightarrow> int \<times> int \<Rightarrow> C2S_StpCryptoNegotiate \<Rightarrow> ('b, 'os, 'db) server \<Rightarrow>
     (S2C_StpCryptoNegotiate \<times> ('b, 'os, 'db) server) run" where
  "negotiate_reply sv now req s =
     (let rsp = S2C_StpCryptoNegotiate_default; guid = C2S_StpCryptoNegotiate_stp_guid req;
          (valid, db) = (if \<not> C2S_StpCryptoNegotiate_has_stp_guid req then (False, s_db s)
                         else CheckStpGuidValid (sv_mysql sv) guid (s_db s));
          s = s\<lparr>s_db := db\<rparr>
      in if \<not> valid then Ret (S2C_StpCryptoNegotiate_set_res 4 rsp, s)
         else
           let token = C2S_StpCryptoNegotiate_token req;
               a = \<lparr>a_group = StpToken_group token, a_idx = StpToken_idx token,
                    a_expires = StpToken_expires token, a_key = []\<rparr>
           in run_bind (CryptoNegotiate (sv_env sv) (sv_config sv) now a (s_nego s, s_world s)) (\<lambda>(ok, a, n, w).
                let s = s\<lparr>s_nego := n, s_world := w\<rparr>
                in if ok then
                     let rsp = S2C_StpCryptoNegotiate_set_stp_guid guid (S2C_StpCryptoNegotiate_set_res 0 rsp);
                         rsp = S2C_StpCryptoNegotiate_mutable_token
                           (\<lambda>t. snd (GenerateToken guid (a_group a) (a_idx a) (a_expires a) (a_key a) t)) rsp;
                         token = S2C_StpCryptoNegotiate_token rsp;
                         (_, db) = InsertCryptoStatus (sv_mysql sv) (sv_desc sv) guid (a_group a) (a_idx a)
                           (StpToken_expires token) (StpToken_key token) (s_db s)
                     in Ret (rsp, s\<lparr>s_db := db\<rparr>)
                   else Ret (S2C_StpCryptoNegotiate_set_res 1 rsp, s)))"

definition HandleProtocol_StpCryptoNegotiate ::
    "('b, 'os, 'db) services \<Rightarrow> int \<times> int \<Rightarrow> C2S_StpCryptoNegotiate \<Rightarrow> ('b, 'os, 'db) server \<Rightarrow>
     ('b, 'os, 'db) server run" where
  "HandleProtocol_StpCryptoNegotiate sv now req s =
     run_bind (negotiate_reply sv now req s) (\<lambda>(rsp, s). server_reply sv (MsgS2CNegotiate rsp) s)"

text \<open>The dispatcher: a message handler casts the message to its type.\<close>

definition server_dispatcher :: "('b, 'os, 'db) services \<Rightarrow> int \<times> int \<Rightarrow> ('b, 'os, 'db) server dispatcher" where
  "server_dispatcher sv now =
     RegisterMessageCallback (str ''rpc.C2S_StpCryptoNegotiate'')
       (\<lambda>m s. case m of MsgC2SNegotiate req \<Rightarrow> HandleProtocol_StpCryptoNegotiate sv now req s | _ \<Rightarrow> Fault)
       (RegisterMessageCallback (str ''rpc.C2S_Ping'')
         (\<lambda>m s. case m of MsgC2SPing p \<Rightarrow> server_HandleProtocol_Ping sv p s | _ \<Rightarrow> Fault) new_MsgDispatcher)"

definition server_HandleReadEvent ::
    "('b, 'os, 'db) services \<Rightarrow> int \<times> int \<Rightarrow> ('b, 'os, 'db) server \<Rightarrow> ('b, 'os, 'db) server run" where
  "server_HandleReadEvent sv now s =
     (case GetNetMessage (s_conn s) of
        (None, c) \<Rightarrow> Ret (s\<lparr>s_conn := c\<rparr>)
      | (Some pkt, c) \<Rightarrow>
          run_bind (OnceDispatch (sv_wire sv) (server_dispatcher sv now) pkt (s\<lparr>s_conn := c\<rparr>)) (\<lambda>(_, s). Ret s))"

definition server_ProcessReadEvent ::
    "('b, 'os, 'db) services \<Rightarrow> int \<times> int \<Rightarrow> ('b, 'os, 'db) server \<Rightarrow> ('b, 'os, 'db) server run" where
  "server_ProcessReadEvent sv now =
     ProcessReadEvent (sv_evbuffer sv) s_conn (\<lambda>c s. s\<lparr>s_conn := c\<rparr>) (server_HandleReadEvent sv now)"

text \<open>\<open>StartRun\<close> initialises the negotiation, then starts the event loop, an argument.\<close>

definition server_StartRun ::
    "('b, 'os, 'db) services \<Rightarrow> (('b, 'os, 'db) server \<Rightarrow> (bool \<times> ('b, 'os, 'db) server) run) \<Rightarrow>
     ('b, 'os, 'db) server \<Rightarrow> (bool \<times> ('b, 'os, 'db) server) run" where
  "server_StartRun sv start s =
     run_bind (Init (sv_env sv) (sv_config sv) (s_nego s, s_world s)) (\<lambda>(ok, n, w).
       let s = s\<lparr>s_nego := n, s_world := w\<rparr>
       in if \<not> ok then Ret (False, s)
          else run_bind (start s) (\<lambda>(ok, s). if \<not> ok then Ret (False, s) else Ret (True, s)))"

section \<open>Replies\<close>

lemma server_reply_sends:
  assumes "evbuffer_laws (sv_evbuffer sv) bytes" "adds (sv_evbuffer sv)" "wire_laws (sv_wire sv)"
    and "length (s_send_buf s) = sizeof_send_buf" "length (message_bytes (sv_wire sv) m) \<le> 900"
  obtains buf c where "server_reply sv m s = Ret (s\<lparr>s_send_buf := buf, s_conn := c\<rparr>)" "length buf = sizeof_send_buf"
    "bytes (ev_write_buf c) = bytes (ev_write_buf (s_conn s)) @ frame (Request_Serialize (sv_wire sv) (envelope (sv_wire sv) m))"
    "read_buf_list c = read_buf_list (s_conn s)" "ev_read_buf c = ev_read_buf (s_conn s)"
proof -
  let ?w = "sv_wire sv" let ?e = "Request_Serialize ?w (envelope ?w m)"
  obtain buf where s: "SerializeToArray ?w m (s_send_buf s) sizeof_send_buf = Ret (True, buf, length ?e)"
    "length buf = length (s_send_buf s)" "take (length ?e) buf = ?e"
    by (rule serialize_fits [OF assms(3), of m sizeof_send_buf "s_send_buf s"]) (use assms(4,5) in \<open>simp_all add: sizeof_send_buf_def\<close>)
  obtain c where "SendNetMessage (sv_evbuffer sv) ?e (s_conn s) = (True, c)"
    "bytes (ev_write_buf c) = bytes (ev_write_buf (s_conn s)) @ frame ?e"
    "read_buf_list c = read_buf_list (s_conn s)" "ev_read_buf c = ev_read_buf (s_conn s)"
    by (rule send_ok [OF assms(1,2)])
  then show thesis
    using that [where buf = buf and c = c] s assms(4) by (simp add: server_reply_def)
qed

end
