(* ===== verification/Stp_Client.thy ===== *)
theory Stp_Client
  imports Crypto_Detail Config_Parser Connection_Proof Codec
begin

text \<open>
  \<^verbatim>\<open>src/stpclient/stp_client.cc\<close> and \<^verbatim>\<open>src/stpclient/stpclnt_msg_dispatcher.cc\<close>: the client.  It asks for
  a key every ten seconds and keeps the answer in a shared memory segment of one slot.

  The state is the crypto group \<open>cg_\<close>, the memory and operating system, the connection (\<open>None\<close> is a null
  pointer) and the static buffer \<open>buf_\<close>.  Pointers a handler is passed are not null.
\<close>

record ('b, 'os) client_services =
  cs_shm :: "'os shm_api"
  cs_ftok :: "u8 list \<Rightarrow> int \<Rightarrow> int"
  cs_junk :: "int \<times> ptr"
  cs_wire :: wire_api
  cs_evbuffer :: "'b evbuffer_api"
  cs_config :: clnt_config

record ('b, 'os) client =
  c_cg :: CryptoGroup
  c_world :: "'os world"
  c_conn :: "'b connection option"
  c_buf :: "u8 list"

definition sizeof_buf :: nat where "sizeof_buf = 2048"

definition new_StpClient :: "('b, 'os) client_services \<Rightarrow> 'os world \<Rightarrow> ('b, 'os) client run" where
  "new_StpClient cs w =
     run_bind (new_CryptoGroup (cs_junk cs) 0 (clnt_max_idx (cs_config cs)) (cs_ftok cs (clnt_path (cs_config cs)) 0))
       (\<lambda>cg. Ret \<lparr>c_cg = cg, c_world = w, c_conn = None, c_buf = replicate sizeof_buf 0\<rparr>)"

definition client_Init :: "('b, 'os) client_services \<Rightarrow> ('b, 'os) client \<Rightarrow> bool \<times> ('b, 'os) client" where
  "client_Init cs s =
     (case TryAttachShm (cs_shm cs) sizeof_CryptoItem (c_cg s, c_world s) of (addr, cg, w) \<Rightarrow>
        if addr \<noteq> Null then (True, s\<lparr>c_cg := cg\<lparr>cg_addr := addr\<rparr>, c_world := w\<rparr>)
        else
          (case CreateShm (cs_shm cs) sizeof_CryptoItem (cg, w) of (ok, cg, w) \<Rightarrow>
             (ok, s\<lparr>c_cg := cg, c_world := w\<rparr>)))"

section \<open>Requests\<close>

text \<open>The end of both timer callbacks.\<close>

definition client_send :: "('b, 'os) client_services \<Rightarrow> proto_message \<Rightarrow> ('b, 'os) client \<Rightarrow> ('b, 'os) client run" where
  "client_send cs req s =
     run_bind (SerializeToArray (cs_wire cs) req (c_buf s) sizeof_buf) (\<lambda>(ok, buf, n).
       let s = s\<lparr>c_buf := buf\<rparr>
       in if ok then
            (case c_conn s of
               None \<Rightarrow> Fault
             | Some c \<Rightarrow> Ret (s\<lparr>c_conn := Some (snd (SendNetMessage (cs_evbuffer cs) (take n buf) c))\<rparr>))
          else Ret s)"

definition TimerHeartBeatCallback :: "('b, 'os) client_services \<Rightarrow> ('b, 'os) client \<Rightarrow> ('b, 'os) client run" where
  "TimerHeartBeatCallback cs s = client_send cs (MsgC2SPing C2S_Ping_default) s"

definition CryptoNegotiateCallback :: "('b, 'os) client_services \<Rightarrow> ('b, 'os) client \<Rightarrow> ('b, 'os) client run" where
  "CryptoNegotiateCallback cs s =
     client_send cs (MsgC2SNegotiate (C2S_StpCryptoNegotiate_set_stp_guid (word_of_int (clnt_stp_guid (cs_config cs)))
       C2S_StpCryptoNegotiate_default)) s"

section \<open>Answers\<close>

definition UpdateCryptoShmInfo :: "int \<Rightarrow> StpToken \<Rightarrow> ('b, 'os) client \<Rightarrow> (bool \<times> ('b, 'os) client) run" where
  "UpdateCryptoShmInfo res token s =
     (let item = GetCryptoItemByIdx 0 (c_cg s)
      in if item = Null then Ret (False, s)
         else
           run_bind (set_item_group item (StpToken_group token) (w_mem (c_world s))) (\<lambda>m.
           run_bind (set_item_idx item (StpToken_idx token) m) (\<lambda>m.
           run_bind (mem_store (item_key_addr item) (replicate 36 0) m) (\<lambda>m.
           run_bind
             (if res \<noteq> 0 then
                run_bind (set_item_use_crypto item False m) (set_item_expires item (-1))
              else
                run_bind (store_chars (item_key_addr item) (takeWhile (\<lambda>c. c \<noteq> 0) (StpToken_key token) @ [0]) m) (\<lambda>m.
                run_bind (set_item_use_crypto item True m) (set_item_expires item (StpToken_expires token))))
             (\<lambda>m. Ret (True, s\<lparr>c_world := (c_world s)\<lparr>w_mem := m\<rparr>\<rparr>))))))"

definition client_HandleProtocol_Ping :: "S2C_Ping \<Rightarrow> ('b, 'os) client \<Rightarrow> ('b, 'os) client run" where
  "client_HandleProtocol_Ping msg s = Ret s"

definition HandleProtocol_CryptoNegotiate :: "S2C_StpCryptoNegotiate \<Rightarrow> ('b, 'os) client \<Rightarrow> ('b, 'os) client run" where
  "HandleProtocol_CryptoNegotiate rsp s =
     run_bind (UpdateCryptoShmInfo (S2C_StpCryptoNegotiate_res rsp) (S2C_StpCryptoNegotiate_token rsp) s) (\<lambda>(_, s). Ret s)"

definition client_dispatcher :: "('b, 'os) client dispatcher" where
  "client_dispatcher =
     RegisterMessageCallback (str ''rpc.S2C_StpCryptoNegotiate'')
       (\<lambda>m s. case m of MsgS2CNegotiate rsp \<Rightarrow> HandleProtocol_CryptoNegotiate rsp s | _ \<Rightarrow> Fault)
       (RegisterMessageCallback (str ''rpc.S2C_Ping'')
         (\<lambda>m s. case m of MsgS2CPing p \<Rightarrow> client_HandleProtocol_Ping p s | _ \<Rightarrow> Fault) new_MsgDispatcher)"

text \<open>The connection of the event is the client's own.\<close>

definition client_HandleReadEvent :: "('b, 'os) client_services \<Rightarrow> ('b, 'os) client \<Rightarrow> ('b, 'os) client run" where
  "client_HandleReadEvent cs s =
     (case c_conn s of
        None \<Rightarrow> Ret s
      | Some c \<Rightarrow>
          (case GetNetMessage c of
             (None, c) \<Rightarrow> Ret (s\<lparr>c_conn := Some c\<rparr>)
           | (Some pkt, c) \<Rightarrow>
               run_bind (OnceDispatch (cs_wire cs) client_dispatcher pkt (s\<lparr>c_conn := Some c\<rparr>)) (\<lambda>(_, s). Ret s)))"

definition client_ProcessReadEvent :: "('b, 'os) client_services \<Rightarrow> ('b, 'os) client \<Rightarrow> ('b, 'os) client run" where
  "client_ProcessReadEvent cs s =
     (case c_conn s of
        None \<Rightarrow> Fault
      | Some c \<Rightarrow>
          ProcessReadEvent (cs_evbuffer cs) (\<lambda>_. c) (\<lambda>c s. s\<lparr>c_conn := Some c\<rparr>) (client_HandleReadEvent cs) s)"

end
