(* ===== verification/Client_Proof.thy ===== *)
theory Client_Proof
  imports Stp_Client Negotiate_Proof
begin

text \<open>
  What the client stores for an answer: the slot after \<open>UpdateCryptoShmInfo\<close>, and the bound on the key
  that \<open>strcpy\<close> does not check.
\<close>

definition c_string :: "u8 list \<Rightarrow> u8 list" where "c_string = takeWhile (\<lambda>c. c \<noteq> 0)"

definition client_item :: "int \<Rightarrow> StpToken \<Rightarrow> u8 list \<Rightarrow> CryptoItem" where
  "client_item res t old =
     \<lparr>ci_group = StpToken_group t, ci_idx = StpToken_idx t,
      ci_key = (if res \<noteq> 0 then replicate 36 0
                else c_string (StpToken_key t) @ replicate (36 - length (c_string (StpToken_key t))) 0),
      ci_use_crypto = (res = 0), ci_expires = (if res \<noteq> 0 then -1 else StpToken_expires t),
      ci_zero = ci_zero (read_item old)\<rparr>"

text \<open>The client's segment is attached and has room for its slot.\<close>

definition client_ready :: "('b, 'os) client \<Rightarrow> int \<Rightarrow> nat \<Rightarrow> u8 list \<Rightarrow> bool" where
  "client_ready s b off seg \<longleftrightarrow> cg_addr (c_cg s) = Ptr b off \<and> 0 \<le> max_idx (cg_mgr (c_cg s))
     \<and> w_mem (c_world s) b = Some seg \<and> off + 64 \<le> length seg"

lemma client_slot: "client_ready s b off seg \<Longrightarrow> GetCryptoItemByIdx 0 (c_cg s) = Ptr b off"
  by (simp add: GetCryptoItemByIdx_def client_ready_def)

lemma nul_terminated:
  assumes "length k < 36" "off + 36 \<le> length seg"
  shows "overwrite off (k @ [0]) (overwrite off (replicate 36 0) seg) = overwrite off (k @ replicate (36 - length k) (0 :: u8)) seg"
proof -
  have "replicate (36 - length k) (0 :: u8) = 0 # replicate (35 - length k) 0"
    using assms(1) by (cases "36 - length k") auto
  then show ?thesis using assms by (simp add: overwrite_prefix)
qed

lemma update_block:
  assumes "client_ready s b off seg" "res = 0 \<longrightarrow> length (c_string (StpToken_key t)) < 36"
  shows "UpdateCryptoShmInfo res t s =
    Ret (True, s\<lparr>c_world := (c_world s)\<lparr>w_mem := (w_mem (c_world s))
      (b \<mapsto> overwrite off (item_bytes (client_item res t (drop off seg))) seg)\<rparr>\<rparr>)"
proof -
  let ?m = "w_mem (c_world s)"
  let ?it = "client_item res t (drop off seg)"
  have m: "?m b = Some seg" and room: "off + 64 \<le> length seg" using assms(1) by (simp_all add: client_ready_def)
  obtain pre g0 i0 k u e0 z post where seg: "seg = pre @ g0 @ i0 @ k @ u @ e0 @ z @ post"
    and len: "length pre = off" "length g0 = 4" "length i0 = 4" "length k = 36" "length u = 1"
      "length e0 = 8" "length z = 11" and z: "z = ci_zero (read_item (drop off seg))"
    by (rule split_item [OF room])
  note ov = overwrite_skip overwrite_Cons overwrite_here len
  let ?g = "le32 (StpToken_group t)" let ?i = "le32 (StpToken_idx t)" let ?s = "c_string (StpToken_key t)"
  obtain key where key: "key = ci_key ?it" by simp
  obtain flag where flag: "flag = (if res = 0 then 1 else 0 :: u8)" by simp
  obtain ex where ex: "ex = le64 (ci_expires ?it)" by simp
  let ?s1 = "pre @ ?g @ i0 @ k @ u @ e0 @ z @ post"
  let ?s2 = "pre @ ?g @ ?i @ k @ u @ e0 @ z @ post"
  let ?s3 = "pre @ ?g @ ?i @ replicate 36 0 @ u @ e0 @ z @ post"
  let ?s4 = "pre @ ?g @ ?i @ key @ u @ e0 @ z @ post"
  let ?s5 = "pre @ ?g @ ?i @ key @ flag # e0 @ z @ post"
  let ?s6 = "pre @ ?g @ ?i @ key @ flag # ex @ z @ post"
  have kl: "length key = 36" "length ex = 8" using assms(2) by (auto simp: client_item_def key ex)
  have s1: "set_item_group (Ptr b off) (StpToken_group t) ?m = Ret (?m(b \<mapsto> ?s1))"
    using m unfolding set_item_group_def seg by (simp add: ov)
  have s2: "set_item_idx (Ptr b off) (StpToken_idx t) (?m(b \<mapsto> ?s1)) = Ret (?m(b \<mapsto> ?s2))"
    unfolding set_item_idx_def by (simp add: ov)
  have s3: "mem_store (item_key_addr (Ptr b off)) (replicate 36 0) (?m(b \<mapsto> ?s2)) = Ret (?m(b \<mapsto> ?s3))"
    unfolding item_key_addr_def by (simp add: ov)
  have s4: "store_chars (item_key_addr (Ptr b off)) (?s @ [0]) (?m(b \<mapsto> ?s3)) = Ret (?m(b \<mapsto> ?s4))" if "res = 0"
  proof -
    have k: "length ?s < 36" using assms(2) that by simp
    have "overwrite (off + 8) (?s @ [0]) (overwrite (off + 8) (replicate 36 0) ?s2) = overwrite (off + 8) key ?s2"
      using nul_terminated [OF k, of "off + 8" ?s2] that by (simp add: len key client_item_def)
    moreover have "overwrite (off + 8) (replicate 36 0) ?s2 = ?s3" "overwrite (off + 8) key ?s2 = ?s4"
      using kl by (simp_all add: ov)
    ultimately have "overwrite (off + 8) (?s @ [0]) ?s3 = ?s4" by simp
    then show ?thesis
      using store_chars_block [of "?m(b \<mapsto> ?s3)" b ?s3 "off + 8" "?s @ [0]"] k by (simp add: item_key_addr_def len)
  qed
  have s34: "?s3 = ?s4" if "res \<noteq> 0" using that by (simp add: key client_item_def)
  have s5: "set_item_use_crypto (Ptr b off) (res = 0) (?m(b \<mapsto> ?s4)) = Ret (?m(b \<mapsto> ?s5))"
    using kl unfolding set_item_use_crypto_def by (simp add: ov flag)
  have s6: "set_item_expires (Ptr b off) (ci_expires ?it) (?m(b \<mapsto> ?s5)) = Ret (?m(b \<mapsto> ?s6))"
    using kl unfolding set_item_expires_def ex [symmetric] by (simp add: ov)
  have f: "[if ci_use_crypto ?it then 1 else 0] = [flag]" by (simp add: flag client_item_def)
  have "item_bytes ?it = ?g @ ?i @ key @ [flag] @ ex @ z"
    unfolding item_bytes_def f key ex using z by (simp add: client_item_def)
  then have e: "overwrite off (item_bytes ?it) seg = ?s6"
    unfolding seg overwrite_def using kl by (simp add: len)
  show ?thesis
  proof (cases "res = 0")
    case True
    have "ci_expires ?it = StpToken_expires t" using True by (simp add: client_item_def)
    then show ?thesis unfolding e using s1 s2 s3 s4 [OF True] s5 s6 True
      by (simp add: UpdateCryptoShmInfo_def client_slot [OF assms(1)] c_string_def [symmetric])
  next
    case False
    have "ci_expires ?it = -1" using False by (simp add: client_item_def)
    then show ?thesis unfolding e using s1 s2 s3 [unfolded s34 [OF False]] s5 s6 False
      by (simp add: UpdateCryptoShmInfo_def client_slot [OF assms(1)])
  qed
qed

lemma client_item_wf:
  assumes "client_ready s b off seg" "res = 0 \<longrightarrow> length (c_string (StpToken_key t)) < 36"
    and "in_s32 (StpToken_group t)" "in_s32 (StpToken_idx t)" "in_s64 (StpToken_expires t)"
  shows "item_wf (client_item res t (drop off seg))"
  using assms by (auto simp: client_ready_def item_wf_def client_item_def read_item_def in_s64_def)

lemma client_keeps_answer:
  assumes "client_ready s b off seg" "res = 0 \<longrightarrow> length (c_string (StpToken_key t)) < 36"
    and "in_s32 (StpToken_group t)" "in_s32 (StpToken_idx t)" "in_s64 (StpToken_expires t)"
  shows "\<exists>seg'. UpdateCryptoShmInfo res t s = Ret (True, s\<lparr>c_world := (c_world s)\<lparr>w_mem := (w_mem (c_world s))(b \<mapsto> seg')\<rparr>\<rparr>)
    \<and> take off seg' = take off seg \<and> drop (off + 64) seg' = drop (off + 64) seg
    \<and> length seg' = length seg \<and> read_item (slot off 0 seg') =
        \<lparr>ci_group = StpToken_group t, ci_idx = StpToken_idx t,
         ci_key = (if res \<noteq> 0 then replicate 36 0
                   else c_string (StpToken_key t) @ replicate (36 - length (c_string (StpToken_key t))) 0),
         ci_use_crypto = (res = 0), ci_expires = (if res \<noteq> 0 then -1 else StpToken_expires t),
         ci_zero = ci_zero (read_item (slot off 0 seg))\<rparr>"
proof -
  let ?it = "client_item res t (drop off seg)"
  let ?seg = "overwrite off (item_bytes ?it) seg"
  have room: "off + 64 * 0 + 64 \<le> length seg" using assms(1) by (simp add: client_ready_def)
  note wf = client_item_wf [OF assms]
  have l: "length (item_bytes ?it) = 64" using length_item_bytes [OF wf] by (simp add: sizeof_CryptoItem_def)
  have "take off ?seg = take off seg" "drop (off + 64) ?seg = drop (off + 64) seg" "length ?seg = length seg"
    using room l by (simp_all add: overwrite_def)
  moreover have "read_item (slot off 0 ?seg) = ?it"
    using slots_after(1) [OF room wf] by (simp add: slot_def sizeof_CryptoItem_def)
  moreover have "ci_zero ?it = ci_zero (read_item (slot off 0 seg))"
    by (simp add: client_item_def slot_def sizeof_CryptoItem_def ci_zero_slot)
  ultimately show ?thesis using update_block [OF assms(1,2)] by (intro exI [of _ ?seg]) (simp add: client_item_def)
qed

text \<open>
  The client keeps what the server answered: after \<open>UpdateCryptoShmInfo\<close> its slot holds the token's
  group and index and, for \<open>SR_OK\<close> and a key of at most 35 characters, the key padded with NULs,
  \<open>use_crypto\<close> set and the expiry time; for any other result a zeroed key, \<open>use_crypto\<close> cleared and the
  expiry time -1.  Nothing else of the segment changes.
\<close>

theorem client_stores_answer:
  assumes "client_ready s b off seg" "res = 0 \<longrightarrow> length (c_string (StpToken_key t)) < 36"
    and "in_s32 (StpToken_group t)" "in_s32 (StpToken_idx t)" "in_s64 (StpToken_expires t)"
  shows "\<exists>seg'. UpdateCryptoShmInfo res t s = Ret (True, s\<lparr>c_world := (c_world s)\<lparr>w_mem := (w_mem (c_world s))(b \<mapsto> seg')\<rparr>\<rparr>)
    \<and> take off seg' = take off seg \<and> drop (off + 64) seg' = drop (off + 64) seg
    \<and> read_item (slot off 0 seg') =
        \<lparr>ci_group = StpToken_group t, ci_idx = StpToken_idx t,
         ci_key = (if res \<noteq> 0 then replicate 36 0
                   else c_string (StpToken_key t) @ replicate (36 - length (c_string (StpToken_key t))) 0),
         ci_use_crypto = (res = 0), ci_expires = (if res \<noteq> 0 then -1 else StpToken_expires t),
         ci_zero = ci_zero (read_item (slot off 0 seg))\<rparr>"
  using client_keeps_answer [OF assms] by blast

definition demo_client :: "(u8 list, unit) client" where
  "demo_client = \<lparr>c_cg = demo_group [], c_world = demo_world 64, c_conn = Some list_connection, c_buf = replicate 2048 0\<rparr>"

definition answer_token :: "u8 list \<Rightarrow> StpToken" where
  "answer_token key = \<lparr>tk_stp_guid = Some 7, tk_group = Some 0, tk_idx = Some 0, tk_expires = Some 8200,
     tk_key = Some key, tk_unknown = []\<rparr>"

lemma demo_client_ready: "client_ready demo_client 5 0 (replicate 64 0)"
  by (simp add: client_ready_def demo_client_def demo_group_def demo_world_def max_idx_def)

lemma answer_token_fields [simp]:
  "StpToken_group (answer_token key) = 0" "StpToken_idx (answer_token key) = 0"
  "StpToken_expires (answer_token key) = 8200" "StpToken_key (answer_token key) = key"
  by (simp_all add: answer_token_def StpToken_group_def StpToken_idx_def StpToken_expires_def StpToken_key_def)

theorem client_stores_answer_witness:
  "\<exists>seg'. UpdateCryptoShmInfo 0 (answer_token [65, 66]) demo_client =
      Ret (True, demo_client\<lparr>c_world := (demo_world 64)\<lparr>w_mem := [5 \<mapsto> replicate 64 0, 5 \<mapsto> seg']\<rparr>\<rparr>)
    \<and> ci_key (read_item (slot 0 0 seg')) = [65, 66] @ replicate 34 0"
  using client_stores_answer [OF demo_client_ready, of 0 "answer_token [65, 66]"]
  by (auto simp: c_string_def in_s32_def in_s64_def demo_client_def demo_world_def)

section \<open>Long keys\<close>

lemma store_chars_fault:
  assumes "m b = Some bytes" "length bytes < off + length cs" "off \<le> length bytes"
  shows "store_chars (Ptr b off) cs m = Fault"
  using assms
proof (induction cs arbitrary: off m bytes)
  case (Cons c cs)
  show ?case
  proof (cases "off < length bytes")
    case True
    have "store_chars (Ptr b (off + 1)) cs (m(b \<mapsto> overwrite off [c] bytes)) = Fault"
      by (rule Cons.IH [of _ "overwrite off [c] bytes"]) (use Cons.prems True in simp_all)
    then show ?thesis using Cons.prems True by simp
  qed (use Cons.prems in simp)
qed simp

text \<open>
  C36. Nothing bounds the key a server sends: on an accepting answer, in a segment of exactly one slot,
  \<open>strcpy\<close> writes outside the segment as soon as the key has 56 characters; with 36 to 55 it still
  writes past the key field.
\<close>

theorem client_key_overflow:
  assumes "client_ready s b off seg" "length seg = off + sizeof_CryptoItem"
  shows "UpdateCryptoShmInfo 0 t s = Fault \<longleftrightarrow> 56 \<le> length (c_string (StpToken_key t))"
proof -
  let ?m = "w_mem (c_world s)" let ?k = "c_string (StpToken_key t) @ [0]"
  have l: "length seg = off + 64" and m: "?m b = Some seg"
    using assms by (simp_all add: sizeof_CryptoItem_def client_ready_def)
  obtain seg3 where seg3: "seg3 = overwrite (off + 8) (replicate 36 0) (overwrite (off + 4) (le32 (StpToken_idx t))
      (overwrite off (le32 (StpToken_group t)) seg))" by simp
  have l3: "length seg3 = off + 64" using l by (simp add: seg3)
  have s3: "run_bind (set_item_group (Ptr b off) (StpToken_group t) ?m) (\<lambda>m.
       run_bind (set_item_idx (Ptr b off) (StpToken_idx t) m) (mem_store (item_key_addr (Ptr b off)) (replicate 36 0)))
     = Ret (?m(b \<mapsto> seg3))"
    using l m by (simp add: set_item_group_def set_item_idx_def item_key_addr_def seg3)
  have u: "UpdateCryptoShmInfo 0 t s =
      run_bind (store_chars (Ptr b (off + 8)) ?k (?m(b \<mapsto> seg3))) (\<lambda>m.
      run_bind (run_bind (set_item_use_crypto (Ptr b off) True m) (set_item_expires (Ptr b off) (StpToken_expires t)))
        (\<lambda>m. Ret (True, s\<lparr>c_world := (c_world s)\<lparr>w_mem := m\<rparr>\<rparr>)))"
    using s3 by (simp add: UpdateCryptoShmInfo_def client_slot [OF assms(1)] c_string_def set_item_group_def set_item_idx_def
        item_key_addr_def l m Let_def run_bind_assoc)
  show ?thesis
  proof (cases "56 \<le> length (c_string (StpToken_key t))")
    case True
    have "store_chars (Ptr b (off + 8)) ?k (?m(b \<mapsto> seg3)) = Fault"
      by (rule store_chars_fault [where bytes = seg3]) (use l3 True in simp_all)
    then show ?thesis using u True by simp
  next
    case False
    then have "store_chars (Ptr b (off + 8)) ?k (?m(b \<mapsto> seg3)) = Ret (?m(b \<mapsto> overwrite (off + 8) ?k seg3))"
      using store_chars_block [of "?m(b \<mapsto> seg3)" b seg3 "off + 8" ?k] l3 by simp
    then show ?thesis using u False l3 by (simp add: set_item_use_crypto_def set_item_expires_def)
  qed
qed

theorem client_key_overflow_witness: "UpdateCryptoShmInfo 0 (answer_token (replicate 60 65)) demo_client = Fault"
  using client_key_overflow [OF demo_client_ready, of "answer_token (replicate 60 65)"]
  by (simp add: c_string_def sizeof_CryptoItem_def)

end
