(* ===== verification/Exchange.thy ===== *)
theory Exchange
  imports Stp_Server Client_Proof
begin

text \<open>
  One negotiation from end to end: the client's timer sends a request, the server's read event answers
  it, and the client's read event stores the answer.
\<close>

section \<open>A message that arrives\<close>

definition arrives :: "'b evbuffer_api \<Rightarrow> u8 list \<Rightarrow> 'b connection \<Rightarrow> 'b connection" where
  "arrives api d c = c\<lparr>ev_read_buf := eb_arrive api d (ev_read_buf c)\<rparr>"

text \<open>A connection between two messages: nothing is waiting.\<close>

definition idle :: "('b \<Rightarrow> u8 list) \<Rightarrow> 'b connection \<Rightarrow> bool" where
  "idle bytes c \<longleftrightarrow> buf_ok c \<and> read_buf_list c = [] \<and> bytes (ev_read_buf c) = []"

lemma frame_received:
  assumes "evbuffer_laws api bytes" "idle bytes c" "length m < 2 ^ 32"
  obtains c1 c2 where "RecvNetMessage api (arrives api (frame m) c) = (True, c1)" "GetNetMessage c1 = (Some m, c2)"
    "idle bytes c2" "ev_write_buf c2 = ev_write_buf c"
proof -
  have "buf_ok (arrives api (frame m) c)" "bytes (ev_read_buf (arrives api (frame m) c)) = frame m @ []"
    using assms(2) laws(4) [OF assms(1)] by (simp_all add: arrives_def idle_def buf_ok_def)
  from recv_whole [OF assms(1) this(1) assms(3) this(2)] obtain c1 where
    c1: "RecvNetMessage api (arrives api (frame m) c) = (True, c1)" "bytes (ev_read_buf c1) = []"
      "read_buf_list c1 = [m]" "ev_write_buf c1 = ev_write_buf c" "buf_ok c1"
    using assms(2) by (auto simp: arrives_def idle_def)
  show thesis
  proof (rule that)
    show "RecvNetMessage api (arrives api (frame m) c) = (True, c1)" by fact
    show "GetNetMessage c1 = (Some m, c1\<lparr>read_buf_list := []\<rparr>)" by (simp add: GetNetMessage_def c1(3))
    show "idle bytes (c1\<lparr>read_buf_list := []\<rparr>)" using c1 by (simp add: idle_def buf_ok_def)
  qed (use c1 in simp)
qed

text \<open>A message on the wire: its envelope, framed.\<close>

definition packet :: "wire_api \<Rightarrow> proto_message \<Rightarrow> u8 list" where
  "packet api m = frame (Request_Serialize api (envelope api m))"

lemma server_receives:
  assumes "evbuffer_laws (sv_evbuffer sv) bytes" "wire_laws (sv_wire sv)" "idle bytes (s_conn s)"
    and "message_ok m" "length (message_bytes (sv_wire sv) m) < 2 ^ 20"
  obtains c where "server_ProcessReadEvent sv now (s\<lparr>s_conn := arrives (sv_evbuffer sv) (packet (sv_wire sv) m) (s_conn s)\<rparr>) =
      (case map_of (callback_map (server_dispatcher sv now)) (GetTypeName m) of
         None \<Rightarrow> Ret (s\<lparr>s_conn := c\<rparr>) | Some h \<Rightarrow> h m (s\<lparr>s_conn := c\<rparr>))"
    "idle bytes c" "ev_write_buf c = ev_write_buf (s_conn s)"
proof -
  have "length (Request_Serialize (sv_wire sv) (envelope (sv_wire sv) m)) < 2 ^ 32"
    using envelope_length(2) [OF assms(2,5)] assms(5) by simp
  from frame_received [OF assms(1,3) this] obtain c1 c2 where
    c: "RecvNetMessage (sv_evbuffer sv) (arrives (sv_evbuffer sv) (packet (sv_wire sv) m) (s_conn s)) = (True, c1)"
      "GetNetMessage c1 = (Some (Request_Serialize (sv_wire sv) (envelope (sv_wire sv) m)), c2)"
      "idle bytes c2" "ev_write_buf c2 = ev_write_buf (s_conn s)"
    unfolding packet_def by metis
  then show thesis
    by (intro that [of c2]) (simp_all add: server_ProcessReadEvent_def ProcessReadEvent_def server_HandleReadEvent_def
        run_bind_assoc dispatch_envelope [OF assms(2,4,5)] split: option.split)
qed

lemma client_receives:
  assumes "evbuffer_laws (cs_evbuffer cs) bytes" "wire_laws (cs_wire cs)" "c_conn s = Some c0" "idle bytes c0"
    and "message_ok m" "length (message_bytes (cs_wire cs) m) < 2 ^ 20"
  obtains c where "client_ProcessReadEvent cs (s\<lparr>c_conn := Some (arrives (cs_evbuffer cs) (packet (cs_wire cs) m) c0)\<rparr>) =
      (case map_of (callback_map client_dispatcher) (GetTypeName m) of
         None \<Rightarrow> Ret (s\<lparr>c_conn := Some c\<rparr>) | Some h \<Rightarrow> h m (s\<lparr>c_conn := Some c\<rparr>))"
    "idle bytes c" "ev_write_buf c = ev_write_buf c0"
proof -
  have "length (Request_Serialize (cs_wire cs) (envelope (cs_wire cs) m)) < 2 ^ 32"
    using envelope_length(2) [OF assms(2,6)] assms(6) by simp
  from frame_received [OF assms(1,4) this] obtain c1 c2 where
    c: "RecvNetMessage (cs_evbuffer cs) (arrives (cs_evbuffer cs) (packet (cs_wire cs) m) c0) = (True, c1)"
      "GetNetMessage c1 = (Some (Request_Serialize (cs_wire cs) (envelope (cs_wire cs) m)), c2)"
      "idle bytes c2" "ev_write_buf c2 = ev_write_buf c0"
    unfolding packet_def by metis
  then show thesis
    by (intro that [of c2]) (simp_all add: client_ProcessReadEvent_def ProcessReadEvent_def client_HandleReadEvent_def
        run_bind_assoc dispatch_envelope [OF assms(2,5,6)] split: option.split)
qed

section \<open>The client's request\<close>

definition client_request :: "('b, 'os) client_services \<Rightarrow> proto_message" where
  "client_request cs = MsgC2SNegotiate (C2S_StpCryptoNegotiate_set_stp_guid (word_of_int (clnt_stp_guid (cs_config cs)))
       C2S_StpCryptoNegotiate_default)"

lemma client_request_message:
  "client_request cs = MsgC2SNegotiate \<lparr>cn_stp_guid = Some (word_of_int (clnt_stp_guid (cs_config cs))), cn_token = None, cn_unknown = []\<rparr>"
  by (simp add: client_request_def C2S_StpCryptoNegotiate_set_stp_guid_def C2S_StpCryptoNegotiate_default_def)

lemma client_request_ok: "message_ok (client_request cs)"
  by (simp add: client_request_message c2s_ok_def)

lemma client_request_length:
  assumes "wire_laws api"
  shows "length (message_bytes api (client_request cs)) \<le> 11"
  using c2s_length [OF assms, of "\<lparr>cn_stp_guid = Some (word_of_int (clnt_stp_guid (cs_config cs))), cn_token = None, cn_unknown = []\<rparr>"]
  by (simp add: client_request_message c2s_ok_def)

lemma client_sends:
  assumes "evbuffer_laws (cs_evbuffer cs) bytes" "adds (cs_evbuffer cs)" "wire_laws (cs_wire cs)"
    and "c_conn s = Some c" "length (c_buf s) = sizeof_buf" "length (message_bytes (cs_wire cs) m) \<le> 1900"
  obtains buf c' where "client_send cs m s = Ret (s\<lparr>c_buf := buf, c_conn := Some c'\<rparr>)" "length buf = sizeof_buf"
    "bytes (ev_write_buf c') = bytes (ev_write_buf c) @ packet (cs_wire cs) m"
    "idle bytes c' = idle bytes c"
proof -
  let ?w = "cs_wire cs" let ?e = "Request_Serialize ?w (envelope ?w m)"
  obtain buf where b: "SerializeToArray ?w m (c_buf s) sizeof_buf = Ret (True, buf, length ?e)"
    "length buf = length (c_buf s)" "take (length ?e) buf = ?e"
    by (rule serialize_fits [OF assms(3), of m sizeof_buf "c_buf s"]) (use assms(5,6) in \<open>simp_all add: sizeof_buf_def\<close>)
  obtain c' where c': "SendNetMessage (cs_evbuffer cs) ?e c = (True, c')"
    "bytes (ev_write_buf c') = bytes (ev_write_buf c) @ frame ?e"
    "read_buf_list c' = read_buf_list c" "ev_read_buf c' = ev_read_buf c" "read_buf c' = read_buf c"
    by (rule send_ok [OF assms(1,2)])
  show thesis
    by (rule that [where buf = buf and c' = c'])
      (use b c' assms(4,5) in \<open>simp_all add: client_send_def packet_def idle_def buf_ok_def\<close>)
qed

section \<open>The server's answer\<close>

text \<open>The current group of the server is usable, with its slot 0 in the segment \<open>seg\<close>.\<close>

definition server_ready ::
    "('b, 'os, 'db) services \<Rightarrow> ('b, 'os, 'db) server \<Rightarrow> CryptoGroup \<Rightarrow> int \<Rightarrow> nat \<Rightarrow> u8 list \<Rightarrow> bool" where
  "server_ready sv v cg b off seg \<longleftrightarrow>
     0 \<le> cur_group (s_nego v) \<and> cur_group (s_nego v) < max_group (sv_config sv)
     \<and> map_of (shm_map (s_nego v)) (cur_group (s_nego v)) = Some cg
     \<and> usable_group cg b off seg (w_mem (s_world v)) \<and> 0 < max_idx (cg_mgr cg)"

definition granted :: "u64 \<Rightarrow> int \<Rightarrow> u8 list \<Rightarrow> S2C_StpCryptoNegotiate" where
  "granted guid e key = \<lparr>sn_res = Some 0, sn_stp_guid = Some guid,
     sn_token = Some \<lparr>tk_stp_guid = Some guid, tk_group = Some 0, tk_idx = Some 0, tk_expires = Some e,
       tk_key = Some key, tk_unknown = []\<rparr>, sn_unknown = []\<rparr>"

lemma server_grants:
  assumes "server_ready sv v cg b off seg" "CheckStpGuidValid (sv_mysql sv) guid (s_db v) = (True, db)"
    and "cn_stp_guid req = Some guid" "cn_token req = None" "in_s64 (t1 + token_expires (sv_config sv))"
  obtains seg' db' where
    "negotiate_reply sv (t1, t2) req v = Ret (granted guid (t1 + token_expires (sv_config sv)) (random_key (env_random (sv_env sv)) t2),
       v\<lparr>s_world := (s_world v)\<lparr>w_mem := (w_mem (s_world v))(b \<mapsto> seg')\<rparr>, s_db := db'\<rparr>)"
    "length seg' = length seg"
    "read_item (slot off 0 seg') = \<lparr>ci_group = 0, ci_idx = 0, ci_key = random_key (env_random (sv_env sv)) t2 @ [0, 0, 0, 0],
       ci_use_crypto = True, ci_expires = t1 + token_expires (sv_config sv), ci_zero = ci_zero (read_item (slot off 0 seg))\<rparr>"
    "\<forall>j>0. slot off j seg' = slot off j seg"
proof -
  let ?a = "\<lparr>a_group = 0, a_idx = 0, a_expires = 0, a_key = []\<rparr>"
  let ?e = "t1 + token_expires (sv_config sv)" let ?k = "random_key (env_random (sv_env sv)) t2"
  note r = assms(1) [unfolded server_ready_def]
  obtain seg' where n: "CryptoNegotiate (sv_env sv) (sv_config sv) (t1, t2) ?a (s_nego v, s_world v) =
      Ret (True, ?a\<lparr>a_expires := ?e, a_key := ?k\<rparr>, s_nego v, (s_world v)\<lparr>w_mem := (w_mem (s_world v))(b \<mapsto> seg')\<rparr>)"
    and seg': "length seg' = length seg"
    "read_item (slot off 0 seg') = \<lparr>ci_group = 0, ci_idx = 0, ci_key = ?k @ [0, 0, 0, 0],
       ci_use_crypto = True, ci_expires = ?e, ci_zero = ci_zero (read_item (slot off 0 seg))\<rparr>"
    "\<forall>j\<ge>0. j \<noteq> 0 \<longrightarrow> slot off j seg' = slot off j seg"
    using negotiate_existing_slot [of "s_nego v" "sv_config sv" cg b off seg "s_world v" ?a t1 "sv_env sv" t2] r assms(5)
    by (auto simp: in_s32_def)
  have tok: "StpToken_group (C2S_StpCryptoNegotiate_token req) = 0" "StpToken_idx (C2S_StpCryptoNegotiate_token req) = 0"
    "StpToken_expires (C2S_StpCryptoNegotiate_token req) = 0"
    using assms(4) by (simp_all add: C2S_StpCryptoNegotiate_token_def StpToken_default_def StpToken_group_def StpToken_idx_def StpToken_expires_def)
  obtain ok db' where ins: "InsertCryptoStatus (sv_mysql sv) (sv_desc sv) guid 0 0 ?e ?k db = (ok, db')" by fastforce
  have g: "C2S_StpCryptoNegotiate_has_stp_guid req" "C2S_StpCryptoNegotiate_stp_guid req = guid"
    using assms(3) by (simp_all add: C2S_StpCryptoNegotiate_has_stp_guid_def C2S_StpCryptoNegotiate_stp_guid_def)
  have f: "S2C_StpCryptoNegotiate_mutable_token (\<lambda>t. snd (GenerateToken guid 0 0 ?e ?k t))
      (S2C_StpCryptoNegotiate_set_stp_guid guid (S2C_StpCryptoNegotiate_set_res 0 S2C_StpCryptoNegotiate_default)) = granted guid ?e ?k"
    by (simp add: S2C_StpCryptoNegotiate_mutable_token_def S2C_StpCryptoNegotiate_set_stp_guid_def
        S2C_StpCryptoNegotiate_set_res_def S2C_StpCryptoNegotiate_default_def S2C_StpCryptoNegotiate_token_def generated_token granted_def)
  have h: "StpToken_expires (S2C_StpCryptoNegotiate_token (granted guid ?e ?k)) = ?e"
    "StpToken_key (S2C_StpCryptoNegotiate_token (granted guid ?e ?k)) = ?k"
    by (simp_all add: granted_def S2C_StpCryptoNegotiate_token_def StpToken_expires_def StpToken_key_def)
  have "negotiate_reply sv (t1, t2) req v = Ret (granted guid ?e ?k,
       v\<lparr>s_world := (s_world v)\<lparr>w_mem := (w_mem (s_world v))(b \<mapsto> seg')\<rparr>, s_db := db'\<rparr>)"
    using n by (simp add: negotiate_reply_def assms(2) g tok f h ins Let_def)
  then show thesis using seg' by (intro that) auto
qed

lemma server_handler:
  "map_of (callback_map (server_dispatcher sv now)) (GetTypeName (MsgC2SNegotiate r)) =
     Some (\<lambda>m s. case m of MsgC2SNegotiate req \<Rightarrow> HandleProtocol_StpCryptoNegotiate sv now req s | _ \<Rightarrow> Fault)"
  by (simp add: server_dispatcher_def RegisterMessageCallback_def)

lemma client_handler:
  "map_of (callback_map client_dispatcher) (GetTypeName (MsgS2CNegotiate r)) =
     Some (\<lambda>m s. case m of MsgS2CNegotiate rsp \<Rightarrow> HandleProtocol_CryptoNegotiate rsp s | _ \<Rightarrow> Fault)"
  by (simp add: client_dispatcher_def RegisterMessageCallback_def)

lemma granted_ok:
  assumes "in_s64 e" "length key = 32"
  shows "message_ok (MsgS2CNegotiate (granted guid e key))"
    "wire_laws api \<Longrightarrow> length (message_bytes api (MsgS2CNegotiate (granted guid e key))) \<le> 120"
proof -
  have ok: "s2c_ok (granted guid e key)"
    using assms by (simp add: s2c_ok_def granted_def S2C_StpCryptoNegotiate_res_def StpResult_IsValid_def token_ok_def
        StpToken_group_def StpToken_idx_def StpToken_expires_def StpToken_key_def in_s32_def)
  then show "message_ok (MsgS2CNegotiate (granted guid e key))" by simp
  show "length (message_bytes api (MsgS2CNegotiate (granted guid e key))) \<le> 120" if "wire_laws api"
    using s2c_length [OF that ok] assms(2) by (simp add: granted_def StpToken_key_def)
qed

text \<open>The server's read event on the client's request.\<close>

lemma server_answers:
  assumes "evbuffer_laws (sv_evbuffer sv) bytes" "adds (sv_evbuffer sv)" "wire_laws (sv_wire sv)"
    and "idle bytes (s_conn v)" "bytes (ev_write_buf (s_conn v)) = []" "length (s_send_buf v) = sizeof_send_buf"
    and "server_ready sv v cg b off seg" "CheckStpGuidValid (sv_mysql sv) guid (s_db v) = (True, db)"
    and "in_s64 (t1 + token_expires (sv_config sv))"
  obtains v' seg' where
    "server_ProcessReadEvent sv (t1, t2) (v\<lparr>s_conn := arrives (sv_evbuffer sv) (packet (sv_wire sv)
       (MsgC2SNegotiate \<lparr>cn_stp_guid = Some guid, cn_token = None, cn_unknown = []\<rparr>)) (s_conn v)\<rparr>) = Ret v'"
    "bytes (ev_write_buf (s_conn v')) = packet (sv_wire sv) (MsgS2CNegotiate
       (granted guid (t1 + token_expires (sv_config sv)) (random_key (env_random (sv_env sv)) t2)))"
    "w_mem (s_world v') = (w_mem (s_world v))(b \<mapsto> seg')"
    "server_ready sv v' cg b off seg'" "length (s_send_buf v') = sizeof_send_buf"
    "read_item (slot off 0 seg') = \<lparr>ci_group = 0, ci_idx = 0, ci_key = random_key (env_random (sv_env sv)) t2 @ [0, 0, 0, 0],
       ci_use_crypto = True, ci_expires = t1 + token_expires (sv_config sv), ci_zero = ci_zero (read_item (slot off 0 seg))\<rparr>"
proof -
  let ?req = "\<lparr>cn_stp_guid = Some guid, cn_token = None, cn_unknown = []\<rparr>"
  let ?rsp = "granted guid (t1 + token_expires (sv_config sv)) (random_key (env_random (sv_env sv)) t2)"
  have m: "message_ok (MsgC2SNegotiate ?req)" by (simp add: c2s_ok_def)
  have l: "length (message_bytes (sv_wire sv) (MsgC2SNegotiate ?req)) < 2 ^ 20"
    using c2s_length [OF assms(3), of ?req] by (simp add: c2s_ok_def)
  from server_receives [OF assms(1,3,4) m l, where now = "(t1, t2)"] obtain c where
    c: "server_ProcessReadEvent sv (t1, t2) (v\<lparr>s_conn := arrives (sv_evbuffer sv) (packet (sv_wire sv) (MsgC2SNegotiate ?req)) (s_conn v)\<rparr>) =
      HandleProtocol_StpCryptoNegotiate sv (t1, t2) ?req (v\<lparr>s_conn := c\<rparr>)"
      "ev_write_buf c = ev_write_buf (s_conn v)"
    unfolding server_handler by auto
  have rdy: "server_ready sv (v\<lparr>s_conn := c\<rparr>) cg b off seg" using assms(7) by (simp add: server_ready_def)
  have valid: "CheckStpGuidValid (sv_mysql sv) guid (s_db (v\<lparr>s_conn := c\<rparr>)) = (True, db)" using assms(8) by simp
  obtain seg' db' where
    g: "negotiate_reply sv (t1, t2) ?req (v\<lparr>s_conn := c\<rparr>) = Ret (?rsp,
       v\<lparr>s_conn := c, s_world := (s_world v)\<lparr>w_mem := (w_mem (s_world v))(b \<mapsto> seg')\<rparr>, s_db := db'\<rparr>)"
    "length seg' = length seg" "read_item (slot off 0 seg') = \<lparr>ci_group = 0, ci_idx = 0, ci_key = random_key (env_random (sv_env sv)) t2 @ [0, 0, 0, 0],
       ci_use_crypto = True, ci_expires = t1 + token_expires (sv_config sv), ci_zero = ci_zero (read_item (slot off 0 seg))\<rparr>"
    by (rule server_grants [OF rdy valid, of ?req t1 t2]) (use assms(9) in auto)
  let ?v = "v\<lparr>s_conn := c, s_world := (s_world v)\<lparr>w_mem := (w_mem (s_world v))(b \<mapsto> seg')\<rparr>, s_db := db'\<rparr>"
  have len: "length (message_bytes (sv_wire sv) (MsgS2CNegotiate ?rsp)) \<le> 900"
    using granted_ok(2) [OF assms(9) _ assms(3), of "random_key (env_random (sv_env sv)) t2" guid] by simp
  obtain buf c' where r: "server_reply sv (MsgS2CNegotiate ?rsp) ?v = Ret (?v\<lparr>s_send_buf := buf, s_conn := c'\<rparr>)"
    "length buf = sizeof_send_buf"
    "bytes (ev_write_buf c') = bytes (ev_write_buf (s_conn ?v)) @ frame (Request_Serialize (sv_wire sv) (envelope (sv_wire sv) (MsgS2CNegotiate ?rsp)))"
    by (rule server_reply_sends [OF assms(1-3) _ len, of ?v]) (use assms(6) in auto)
  have w: "bytes (ev_write_buf c') = packet (sv_wire sv) (MsgS2CNegotiate ?rsp)"
    using r(3) c(2) assms(5) by (simp add: packet_def)
  have rdy': "server_ready sv (?v\<lparr>s_send_buf := buf, s_conn := c'\<rparr>) cg b off seg'"
    using assms(7) g(2) by (simp add: server_ready_def usable_group_def)
  show thesis
    using g r(1,2) w rdy' by (intro that [where v' = "?v\<lparr>s_send_buf := buf, s_conn := c'\<rparr>" and seg' = seg'])
      (simp_all add: c(1) HandleProtocol_StpCryptoNegotiate_def)
qed

text \<open>The client's read event on the server's answer.\<close>

lemma client_accepts:
  assumes "evbuffer_laws (cs_evbuffer cs) bytes" "wire_laws (cs_wire cs)" "c_conn s = Some c0" "idle bytes c0"
    and "client_ready s b off seg" "in_s64 e" "length key = 32" "0 \<notin> set key"
  obtains s' seg' where
    "client_ProcessReadEvent cs (s\<lparr>c_conn := Some (arrives (cs_evbuffer cs) (packet (cs_wire cs) (MsgS2CNegotiate (granted guid e key))) c0)\<rparr>) = Ret s'"
    "w_mem (c_world s') = (w_mem (c_world s))(b \<mapsto> seg')"
    "read_item (slot off 0 seg') = \<lparr>ci_group = 0, ci_idx = 0, ci_key = key @ [0, 0, 0, 0],
       ci_use_crypto = True, ci_expires = e, ci_zero = ci_zero (read_item (slot off 0 seg))\<rparr>"
proof -
  let ?rsp = "granted guid e key" let ?t = "S2C_StpCryptoNegotiate_token ?rsp"
  have "length (message_bytes (cs_wire cs) (MsgS2CNegotiate ?rsp)) < 2 ^ 20"
    using granted_ok(2) [OF assms(6,7,2), of guid] by simp
  from client_receives [OF assms(1-4) granted_ok(1) [OF assms(6,7)] this] obtain c where
    c: "client_ProcessReadEvent cs (s\<lparr>c_conn := Some (arrives (cs_evbuffer cs) (packet (cs_wire cs) (MsgS2CNegotiate ?rsp)) c0)\<rparr>) =
      HandleProtocol_CryptoNegotiate ?rsp (s\<lparr>c_conn := Some c\<rparr>)"
    unfolding client_handler by auto
  have t: "StpToken_group ?t = 0" "StpToken_idx ?t = 0" "StpToken_expires ?t = e" "StpToken_key ?t = key"
    "S2C_StpCryptoNegotiate_res ?rsp = 0"
    by (simp_all add: granted_def S2C_StpCryptoNegotiate_token_def S2C_StpCryptoNegotiate_res_def StpToken_group_def
        StpToken_idx_def StpToken_expires_def StpToken_key_def)
  have k: "c_string key = key" using assms(8) by (simp add: c_string_def takeWhile_eq_all_conv) metis
  have r: "client_ready (s\<lparr>c_conn := Some c\<rparr>) b off seg" using assms(5) by (simp add: client_ready_def)
  show thesis
    using client_keeps_answer [OF r, of 0 ?t] t k assms(6,7) four_nul
    by (auto simp: in_s32_def c HandleProtocol_CryptoNegotiate_def intro!: that)
qed

section \<open>A rejected request\<close>

definition rejected :: S2C_StpCryptoNegotiate where
  "rejected = \<lparr>sn_res = Some 4, sn_stp_guid = None, sn_token = None, sn_unknown = []\<rparr>"

lemma rejected_ok:
  "message_ok (MsgS2CNegotiate rejected)"
  "wire_laws api \<Longrightarrow> length (message_bytes api (MsgS2CNegotiate rejected)) \<le> 22"
proof -
  have ok: "s2c_ok rejected"
    by (simp add: s2c_ok_def rejected_def S2C_StpCryptoNegotiate_res_def StpResult_IsValid_def)
  then show "message_ok (MsgS2CNegotiate rejected)" by simp
  show "length (message_bytes api (MsgS2CNegotiate rejected)) \<le> 22" if "wire_laws api"
    using s2c_length [OF that ok] by (simp add: rejected_def)
qed

lemma server_rejects:
  assumes "evbuffer_laws (sv_evbuffer sv) bytes" "adds (sv_evbuffer sv)" "wire_laws (sv_wire sv)"
    and "idle bytes (s_conn v)" "bytes (ev_write_buf (s_conn v)) = []" "length (s_send_buf v) = sizeof_send_buf"
    and "CheckStpGuidValid (sv_mysql sv) guid (s_db v) = (False, db)"
  obtains v' where
    "server_ProcessReadEvent sv now (v\<lparr>s_conn := arrives (sv_evbuffer sv) (packet (sv_wire sv)
       (MsgC2SNegotiate \<lparr>cn_stp_guid = Some guid, cn_token = None, cn_unknown = []\<rparr>)) (s_conn v)\<rparr>) = Ret v'"
    "bytes (ev_write_buf (s_conn v')) = packet (sv_wire sv) (MsgS2CNegotiate rejected)"
    "s_world v' = s_world v" "s_nego v' = s_nego v"
proof -
  let ?req = "\<lparr>cn_stp_guid = Some guid, cn_token = None, cn_unknown = []\<rparr>"
  have m: "message_ok (MsgC2SNegotiate ?req)" by (simp add: c2s_ok_def)
  have l: "length (message_bytes (sv_wire sv) (MsgC2SNegotiate ?req)) < 2 ^ 20"
    using c2s_length [OF assms(3), of ?req] by (simp add: c2s_ok_def)
  from server_receives [OF assms(1,3,4) m l, where now = now] obtain c where
    c: "server_ProcessReadEvent sv now (v\<lparr>s_conn := arrives (sv_evbuffer sv) (packet (sv_wire sv) (MsgC2SNegotiate ?req)) (s_conn v)\<rparr>) =
      HandleProtocol_StpCryptoNegotiate sv now ?req (v\<lparr>s_conn := c\<rparr>)"
      "ev_write_buf c = ev_write_buf (s_conn v)"
    unfolding server_handler by auto
  let ?v = "v\<lparr>s_conn := c, s_db := db\<rparr>"
  have g: "negotiate_reply sv now ?req (v\<lparr>s_conn := c\<rparr>) = Ret (rejected, ?v)"
    using assms(7) by (simp add: negotiate_reply_def C2S_StpCryptoNegotiate_has_stp_guid_def C2S_StpCryptoNegotiate_stp_guid_def
        S2C_StpCryptoNegotiate_set_res_def S2C_StpCryptoNegotiate_default_def rejected_def Let_def)
  have len: "length (message_bytes (sv_wire sv) (MsgS2CNegotiate rejected)) \<le> 900"
    using rejected_ok(2) [OF assms(3)] by simp
  obtain buf c' where r: "server_reply sv (MsgS2CNegotiate rejected) ?v = Ret (?v\<lparr>s_send_buf := buf, s_conn := c'\<rparr>)"
    "bytes (ev_write_buf c') = bytes (ev_write_buf (s_conn ?v)) @ frame (Request_Serialize (sv_wire sv) (envelope (sv_wire sv) (MsgS2CNegotiate rejected)))"
    by (rule server_reply_sends [OF assms(1-3) _ len, of ?v]) (use assms(6) in auto)
  have w: "bytes (ev_write_buf c') = packet (sv_wire sv) (MsgS2CNegotiate rejected)"
    using r(2) c(2) assms(5) by (simp add: packet_def)
  show thesis
    using g r(1) w by (intro that [where v' = "?v\<lparr>s_send_buf := buf, s_conn := c'\<rparr>"])
      (simp_all add: c(1) HandleProtocol_StpCryptoNegotiate_def)
qed

lemma client_disabled:
  assumes "evbuffer_laws (cs_evbuffer cs) bytes" "wire_laws (cs_wire cs)" "c_conn s = Some c0" "idle bytes c0"
    and "client_ready s b off seg"
  obtains s' seg' where
    "client_ProcessReadEvent cs (s\<lparr>c_conn := Some (arrives (cs_evbuffer cs) (packet (cs_wire cs) (MsgS2CNegotiate rejected)) c0)\<rparr>) = Ret s'"
    "w_mem (c_world s') = (w_mem (c_world s))(b \<mapsto> seg')"
    "read_item (slot off 0 seg') = \<lparr>ci_group = 0, ci_idx = 0, ci_key = replicate 36 0,
       ci_use_crypto = False, ci_expires = -1, ci_zero = ci_zero (read_item (slot off 0 seg))\<rparr>"
proof -
  let ?t = "S2C_StpCryptoNegotiate_token rejected"
  have "length (message_bytes (cs_wire cs) (MsgS2CNegotiate rejected)) < 2 ^ 20"
    using rejected_ok(2) [OF assms(2)] by simp
  from client_receives [OF assms(1-4) rejected_ok(1) this] obtain c where
    c: "client_ProcessReadEvent cs (s\<lparr>c_conn := Some (arrives (cs_evbuffer cs) (packet (cs_wire cs) (MsgS2CNegotiate rejected)) c0)\<rparr>) =
      HandleProtocol_CryptoNegotiate rejected (s\<lparr>c_conn := Some c\<rparr>)"
    unfolding client_handler by auto
  have t: "StpToken_group ?t = 0" "StpToken_idx ?t = 0" "StpToken_expires ?t = 0" "S2C_StpCryptoNegotiate_res rejected = 4"
    by (simp_all add: rejected_def S2C_StpCryptoNegotiate_token_def S2C_StpCryptoNegotiate_res_def StpToken_default_def
        StpToken_group_def StpToken_idx_def StpToken_expires_def)
  have r: "client_ready (s\<lparr>c_conn := Some c\<rparr>) b off seg" using assms(5) by (simp add: client_ready_def)
  show thesis
    using client_keeps_answer [OF r, of 4 ?t] t
    by (auto simp: in_s32_def in_s64_def c HandleProtocol_CryptoNegotiate_def intro!: that)
qed

section \<open>A concrete client and server\<close>

definition key_request :: "wire_api \<Rightarrow> u64 \<Rightarrow> u8 list" where
  "key_request api guid = packet api (MsgC2SNegotiate \<lparr>cn_stp_guid = Some guid, cn_token = None, cn_unknown = []\<rparr>)"

definition demo_client_services :: "(u8 list, unit) client_services" where
  "demo_client_services = \<lparr>cs_shm = env_shm demo_env, cs_ftok = (\<lambda>_ i. i + 1), cs_junk = (0, Null), cs_wire = proto_wire,
     cs_evbuffer = list_evbuffer, cs_config = \<lparr>clnt_svr_ip = str ''127.0.0.1'', clnt_svr_port = 9999, clnt_path = [],
       clnt_flag = 100, clnt_stp_guid = 7, clnt_max_idx = 1\<rparr>\<rparr>"

text \<open>A database that holds every guid, or none.\<close>

definition demo_mysql :: "bool \<Rightarrow> nat list mysql_api" where
  "demo_mysql known = (pool_api False)\<lparr>my_GetConnection := \<lambda>db. (Done (Some 1), db), my_Next := \<lambda>_ db. (Done known, db),
     my_ReleaseConnection := \<lambda>_ db. (Done (), db)\<rparr>"

lemma demo_mysql_check: "CheckStpGuidValid (demo_mysql known) g db = (known, db)"
  by (simp add: CheckStpGuidValid_def demo_mysql_def pool_api_def try_step_def)

definition demo_services :: "bool \<Rightarrow> (u8 list, unit, nat list) services" where
  "demo_services known = \<lparr>sv_env = demo_env, sv_wire = proto_wire, sv_evbuffer = list_evbuffer, sv_mysql = demo_mysql known,
     sv_config = empty_document_config, sv_desc = []\<rparr>"

definition demo_server :: "(u8 list, unit, nat list) server" where
  "demo_server = \<lparr>s_nego = demo_negotiate [], s_world = demo_world 6400, s_db = [1], s_conn = list_connection,
     s_send_buf = replicate 1024 0\<rparr>"

lemma list_evbuffer_adds: "adds list_evbuffer" by (simp add: adds_def list_evbuffer_def)

lemma list_connection_idle: "idle (\<lambda>b. b) list_connection" "ev_write_buf list_connection = []"
  by (simp_all add: idle_def list_connection_def buf_ok_def sizeof_read_buf_def)

lemma demo_server_ready: "server_ready (demo_services known) demo_server (demo_group []) 5 0 (replicate 6400 0)"
  by (simp add: server_ready_def demo_services_def demo_server_def demo_defs usable_group_def max_idx_def)

lemma demo_fields:
  "cs_evbuffer demo_client_services = list_evbuffer" "cs_wire demo_client_services = proto_wire"
  "sv_evbuffer (demo_services known) = list_evbuffer" "sv_wire (demo_services known) = proto_wire"
  "c_conn demo_client = Some list_connection" "length (c_buf demo_client) = sizeof_buf"
  "s_db demo_server = [1]" "s_conn demo_server = list_connection" "length (s_send_buf demo_server) = sizeof_send_buf"
  "CheckStpGuidValid (sv_mysql (demo_services known)) g db = (known, db)"
  "in_s64 (1000 + token_expires (sv_config (demo_services known)))" "in_s64 (1001 + token_expires (sv_config (demo_services known)))"
  by (simp_all add: demo_client_services_def demo_services_def demo_client_def demo_server_def demo_mysql_check
      sizeof_buf_def sizeof_send_buf_def in_s64_def empty_document_config_def)

end
