(* ===== verification/Simulation.thy ===== *)
theory Simulation
  imports Prelude
begin

text \<open>
  Runs of a component against what it promises: a step of the code on an event returns an output and a new
  state, the specification gives both on an abstract state, and the abstraction of the new state is the
  new abstract state.  The locale lifts this from one event to any sequence of them.
\<close>

fun run_steps :: "('e \<Rightarrow> 's \<Rightarrow> ('o \<times> 's) run) \<Rightarrow> 'e list \<Rightarrow> 's \<Rightarrow> ('o list \<times> 's) run" where
  "run_steps step [] s = Ret ([], s)"
| "run_steps step (e # es) s =
     run_bind (step e s) (\<lambda>(x, s'). run_bind (run_steps step es s') (\<lambda>(xs, s''). Ret (x # xs, s'')))"

fun run_spec :: "('e \<Rightarrow> 'a \<Rightarrow> 'o \<times> 'a) \<Rightarrow> 'e list \<Rightarrow> 'a \<Rightarrow> 'o list \<times> 'a" where
  "run_spec spec [] a = ([], a)"
| "run_spec spec (e # es) a =
     (let (x, a') = spec e a; (xs, a'') = run_spec spec es a' in (x # xs, a''))"

lemma run_spec_append:
  "run_spec spec (es @ fs) a = (fst (run_spec spec es a) @ fst (run_spec spec fs (snd (run_spec spec es a))),
     snd (run_spec spec fs (snd (run_spec spec es a))))"
  by (induction es arbitrary: a) (simp_all add: Let_def split_def)

lemma run_spec_snd: "snd (run_spec spec es a) = fold (\<lambda>e a. snd (spec e a)) es a"
  by (induction es arbitrary: a) (simp_all add: Let_def split_def)

locale simulation =
  fixes step :: "'e \<Rightarrow> 's \<Rightarrow> ('o \<times> 's) run"
    and spec :: "'e \<Rightarrow> 'a \<Rightarrow> 'o \<times> 'a"
    and view :: "'s \<Rightarrow> 'a"
    and inv :: "'s \<Rightarrow> bool"
    and legal :: "'e \<Rightarrow> bool"
  assumes simulates: "inv s \<Longrightarrow> legal e \<Longrightarrow>
    \<exists>s'. step e s = Ret (fst (spec e (view s)), s') \<and> view s' = snd (spec e (view s)) \<and> inv s'"
begin

lemma run_refines:
  "inv s \<Longrightarrow> list_all legal es \<Longrightarrow>
   \<exists>s'. run_steps step es s = Ret (fst (run_spec spec es (view s)), s') \<and> view s' = snd (run_spec spec es (view s)) \<and> inv s'"
proof (induction es arbitrary: s)
  case (Cons e es)
  then obtain s1 where s1: "step e s = Ret (fst (spec e (view s)), s1)" "view s1 = snd (spec e (view s))" "inv s1"
    using simulates [OF Cons(2), of e] by auto
  obtain s2 where "run_steps step es s1 = Ret (fst (run_spec spec es (view s1)), s2)"
    "view s2 = snd (run_spec spec es (view s1))" "inv s2"
    using Cons s1(3) by auto
  then show ?case using s1 by (auto simp: Let_def split_def)
qed simp

lemma run_ends: "inv s \<Longrightarrow> list_all legal es \<Longrightarrow> run_steps step es s \<notin> {Abort, Fault}"
  using run_refines by fastforce

end

end
