(* ===== verification/Key_Service.thy ===== *)
theory Key_Service
  imports Exchange Simulation
begin

text \<open>
  What the server and its clients promise as a whole: the server is a table of slots that a request with a
  known guid renews, every client holds what the last answer to it said.  The abstract service is a few
  lines; the simulations show that the handlers, with connections, codec, dispatcher and shared memory,
  implement it over any sequence of requests.
\<close>

section \<open>The server as a table of slots\<close>

lemma message_tokens:
  "c2s_ok req \<Longrightarrow> token_ok (C2S_StpCryptoNegotiate_token req)"
  "s2c_ok rsp \<Longrightarrow> token_ok (S2C_StpCryptoNegotiate_token rsp)"
proof -
  have d: "token_ok StpToken_default"
    by (simp add: token_ok_def StpToken_default_def StpToken_group_def StpToken_idx_def StpToken_expires_def StpToken_key_def
        in_s32_def in_s64_def)
  show "c2s_ok req \<Longrightarrow> token_ok (C2S_StpCryptoNegotiate_token req)"
    using d by (cases "cn_token req") (simp_all add: c2s_ok_def C2S_StpCryptoNegotiate_token_def)
  show "s2c_ok rsp \<Longrightarrow> token_ok (S2C_StpCryptoNegotiate_token rsp)"
    using d by (cases "sn_token rsp") (simp_all add: s2c_ok_def S2C_StpCryptoNegotiate_token_def)
qed

text \<open>The slots of a segment.\<close>

definition slot_table :: "nat \<Rightarrow> nat \<Rightarrow> u8 list \<Rightarrow> CryptoItem list" where
  "slot_table off k seg = map (\<lambda>j. read_item (slot off (int j) seg)) [0..<k]"

lemma length_slot_table [simp]: "length (slot_table off k seg) = k"
  by (simp add: slot_table_def)

lemma slot_table_nth: "i < k \<Longrightarrow> slot_table off k seg ! i = read_item (slot off (int i) seg)"
  by (simp add: slot_table_def)

lemma slot_table_update:
  assumes "0 \<le> i" "i < int k" "read_item (slot off i seg') = it" "\<And>j. 0 \<le> j \<Longrightarrow> j \<noteq> i \<Longrightarrow> slot off j seg' = slot off j seg"
  shows "slot_table off k seg' = (slot_table off k seg)[nat i := it]"
  by (rule nth_equalityI) (use assms in \<open>auto simp: slot_table_nth nth_list_update\<close>)

definition server_answer :: "int \<Rightarrow> u64 \<Rightarrow> int \<Rightarrow> int \<Rightarrow> int \<Rightarrow> u8 list \<Rightarrow> S2C_StpCryptoNegotiate" where
  "server_answer res guid g i e key =
     (if res \<noteq> 0 then \<lparr>sn_res = Some res, sn_stp_guid = None, sn_token = None, sn_unknown = []\<rparr>
      else \<lparr>sn_res = Some 0, sn_stp_guid = Some guid,
        sn_token = Some \<lparr>tk_stp_guid = Some guid, tk_group = Some g, tk_idx = Some i, tk_expires = Some e,
          tk_key = Some key, tk_unknown = []\<rparr>, sn_unknown = []\<rparr>)"

text \<open>The answer to a request, and the table after it: 4 is an unknown guid, 1 a slot the table does not have.\<close>

definition serve_request ::
    "('b, 'os, 'db) services \<Rightarrow> (u64 \<Rightarrow> bool) \<Rightarrow> int \<times> int \<Rightarrow> C2S_StpCryptoNegotiate \<Rightarrow> CryptoItem list \<Rightarrow>
     S2C_StpCryptoNegotiate \<times> CryptoItem list" where
  "serve_request sv known now req tbl =
     (let guid = C2S_StpCryptoNegotiate_stp_guid req; tok = C2S_StpCryptoNegotiate_token req;
          g = StpToken_group tok; i = StpToken_idx tok;
          e = fst now + token_expires (sv_config sv); key = random_key (env_random (sv_env sv)) (snd now)
      in if \<not> (C2S_StpCryptoNegotiate_has_stp_guid req \<and> known guid) then (server_answer 4 0 0 0 0 [], tbl)
         else if i < 0 \<or> int (length tbl) \<le> i then (server_answer 1 0 0 0 0 [], tbl)
         else (server_answer 0 guid g i e key,
               tbl[nat i := \<lparr>ci_group = g, ci_idx = i, ci_key = key @ [0, 0, 0, 0], ci_use_crypto = True,
                 ci_expires = e, ci_zero = ci_zero (tbl ! nat i)\<rparr>]))"

text \<open>
  A request arrives on a connection on which nothing is pending.  It names a slot, and not the one behind
  the last.
\<close>

record 'b request_event =
  rq_conn :: "'b connection"
  rq_clock :: "int \<times> int"
  rq_msg :: C2S_StpCryptoNegotiate

definition legal_request ::
    "('b, 'os, 'db) services \<Rightarrow> ('b \<Rightarrow> u8 list) \<Rightarrow> nat \<Rightarrow> 'b request_event \<Rightarrow> bool" where
  "legal_request sv bytes k ev \<longleftrightarrow>
     idle bytes (rq_conn ev) \<and> bytes (ev_write_buf (rq_conn ev)) = [] \<and>
     c2s_ok (rq_msg ev) \<and> length (message_bytes (sv_wire sv) (MsgC2SNegotiate (rq_msg ev))) < 2 ^ 20 \<and>
     in_s64 (fst (rq_clock ev) + token_expires (sv_config sv)) \<and>
     StpToken_group (C2S_StpCryptoNegotiate_token (rq_msg ev)) \<noteq> -1 \<and>
     StpToken_idx (C2S_StpCryptoNegotiate_token (rq_msg ev)) \<notin> {-1, int k}"

definition serving ::
    "('b, 'os, 'db) services \<Rightarrow> ('b \<Rightarrow> u8 list) \<Rightarrow> (u64 \<Rightarrow> bool) \<Rightarrow> CryptoGroup \<Rightarrow> int \<Rightarrow> nat \<Rightarrow>
     ('b, 'os, 'db) server \<Rightarrow> bool" where
  "serving sv bytes known cg b off v \<longleftrightarrow>
     evbuffer_laws (sv_evbuffer sv) bytes \<and> adds (sv_evbuffer sv) \<and> wire_laws (sv_wire sv) \<and>
     length (s_send_buf v) = sizeof_send_buf \<and> (\<forall>g db. fst (CheckStpGuidValid (sv_mysql sv) g db) = known g) \<and>
     (\<exists>seg. server_ready sv v cg b off seg)"

definition server_table :: "CryptoGroup \<Rightarrow> int \<Rightarrow> nat \<Rightarrow> ('b, 'os, 'db) server \<Rightarrow> CryptoItem list" where
  "server_table cg b off v = slot_table off (nat (max_idx (cg_mgr cg))) (the (w_mem (s_world v) b))"

text \<open>The read event, and what it leaves to be sent.\<close>

definition request_step ::
    "('b, 'os, 'db) services \<Rightarrow> ('b \<Rightarrow> u8 list) \<Rightarrow> 'b request_event \<Rightarrow> ('b, 'os, 'db) server \<Rightarrow>
     (u8 list \<times> ('b, 'os, 'db) server) run" where
  "request_step sv bytes ev v =
     run_bind (server_ProcessReadEvent sv (rq_clock ev)
         (v\<lparr>s_conn := arrives (sv_evbuffer sv) (packet (sv_wire sv) (MsgC2SNegotiate (rq_msg ev))) (rq_conn ev)\<rparr>))
       (\<lambda>v. Ret (bytes (ev_write_buf (s_conn v)), v))"

definition request_spec ::
    "('b, 'os, 'db) services \<Rightarrow> (u64 \<Rightarrow> bool) \<Rightarrow> 'b request_event \<Rightarrow> CryptoItem list \<Rightarrow> u8 list \<times> CryptoItem list" where
  "request_spec sv known ev tbl =
     (case serve_request sv known (rq_clock ev) (rq_msg ev) tbl of
        (rsp, tbl') \<Rightarrow> (packet (sv_wire sv) (MsgS2CNegotiate rsp), tbl'))"

lemma server_answer_ok:
  assumes "in_s64 e" "in_s32 g" "in_s32 i" "length key = 32" "StpResult_IsValid res"
  shows "message_ok (MsgS2CNegotiate (server_answer res guid g i e key))"
    "wire_laws api \<Longrightarrow> length (message_bytes api (MsgS2CNegotiate (server_answer res guid g i e key))) \<le> 120"
proof -
  let ?a = "server_answer res guid g i e key"
  have ok: "s2c_ok ?a"
    using assms by (auto simp: s2c_ok_def server_answer_def S2C_StpCryptoNegotiate_res_def token_ok_def StpResult_IsValid_def
        StpToken_group_def StpToken_idx_def StpToken_expires_def StpToken_key_def)
  then show "message_ok (MsgS2CNegotiate ?a)" by simp
  show "length (message_bytes api (MsgS2CNegotiate ?a)) \<le> 120" if "wire_laws api"
    using s2c_length [OF that ok] assms(4) by (auto simp: server_answer_def StpToken_key_def split: if_splits)
qed

text \<open>The handler between the codec and the answer.\<close>

lemma negotiate_refused:
  assumes "0 \<le> cur_group n" "cur_group n < max_group cfg" "map_of (shm_map n) (cur_group n) = Some cg"
    and "cg_group cg \<noteq> -1" "a_group a \<noteq> -1" "a_idx a \<noteq> -1" "a_idx a < 0 \<or> max_idx (cg_mgr cg) < a_idx a"
  shows "CryptoNegotiate env cfg now a (n, w) = Ret (False, a, n, w)"
  using assms by (simp add: current_group [OF assms(1-4)] negotiate_item_def GetCryptoItemByIdx_def)

lemma granted_message:
  "S2C_StpCryptoNegotiate_mutable_token (\<lambda>t. snd (GenerateToken guid g i e k t))
     (S2C_StpCryptoNegotiate_set_stp_guid guid (S2C_StpCryptoNegotiate_set_res 0 S2C_StpCryptoNegotiate_default)) = server_answer 0 guid g i e k"
  by (simp add: S2C_StpCryptoNegotiate_mutable_token_def S2C_StpCryptoNegotiate_set_stp_guid_def
      S2C_StpCryptoNegotiate_set_res_def S2C_StpCryptoNegotiate_default_def S2C_StpCryptoNegotiate_token_def generated_token server_answer_def)

lemma error_message: "r \<noteq> 0 \<Longrightarrow> S2C_StpCryptoNegotiate_set_res r S2C_StpCryptoNegotiate_default = server_answer r 0 0 0 0 []"
  by (simp add: S2C_StpCryptoNegotiate_set_res_def S2C_StpCryptoNegotiate_default_def server_answer_def)

lemma negotiate_serves:
  assumes "server_ready sv v cg b off seg" "\<And>g db. fst (CheckStpGuidValid (sv_mysql sv) g db) = known g"
    and "in_s64 (fst now + token_expires (sv_config sv))"
    and "StpToken_group (C2S_StpCryptoNegotiate_token req) \<noteq> -1" "in_s32 (StpToken_group (C2S_StpCryptoNegotiate_token req))"
    and "StpToken_idx (C2S_StpCryptoNegotiate_token req) \<notin> {-1, max_idx (cg_mgr cg)}" "in_s32 (StpToken_idx (C2S_StpCryptoNegotiate_token req))"
  obtains seg' db' where
    "negotiate_reply sv now req v = Ret (fst (serve_request sv known now req (server_table cg b off v)),
       v\<lparr>s_world := (s_world v)\<lparr>w_mem := (w_mem (s_world v))(b \<mapsto> seg')\<rparr>, s_db := db'\<rparr>)"
    "length seg' = length seg"
    "slot_table off (nat (max_idx (cg_mgr cg))) seg' = snd (serve_request sv known now req (server_table cg b off v))"
proof -
  let ?guid = "C2S_StpCryptoNegotiate_stp_guid req" let ?tok = "C2S_StpCryptoNegotiate_token req"
  let ?a = "\<lparr>a_group = StpToken_group ?tok, a_idx = StpToken_idx ?tok, a_expires = StpToken_expires ?tok, a_key = []\<rparr>"
  let ?e = "fst now + token_expires (sv_config sv)" let ?k = "random_key (env_random (sv_env sv)) (snd now)"
  note r = assms(1) [unfolded server_ready_def]
  have seg: "w_mem (s_world v) b = Some seg" "cg_group cg \<noteq> -1" using r by (simp_all add: usable_group_def)
  have tbl: "server_table cg b off v = slot_table off (nat (max_idx (cg_mgr cg))) seg" by (simp add: server_table_def seg)
  have same: "v\<lparr>s_world := (s_world v)\<lparr>w_mem := (w_mem (s_world v))(b \<mapsto> seg)\<rparr>, s_db := db\<rparr> = v\<lparr>s_db := db\<rparr>" for db
    using seg by (simp add: fun_upd_idem)
  obtain ok db where db: "CheckStpGuidValid (sv_mysql sv) ?guid (s_db v) = (ok, db)" "ok = known ?guid"
    using assms(2) [of ?guid "s_db v"] by (metis prod.collapse)
  consider (unknown) "\<not> (C2S_StpCryptoNegotiate_has_stp_guid req \<and> known ?guid)"
    | (refused) "C2S_StpCryptoNegotiate_has_stp_guid req" "known ?guid" "StpToken_idx ?tok < 0 \<or> max_idx (cg_mgr cg) < StpToken_idx ?tok"
    | (granted) "C2S_StpCryptoNegotiate_has_stp_guid req" "known ?guid" "0 \<le> StpToken_idx ?tok" "StpToken_idx ?tok < max_idx (cg_mgr cg)"
    using assms(6) by force
  then show thesis
  proof cases
    case unknown
    let ?db = "if C2S_StpCryptoNegotiate_has_stp_guid req then db else s_db v"
    show thesis
      by (rule that [where seg' = seg and db' = ?db]) (use unknown db in \<open>auto simp: negotiate_reply_def same tbl serve_request_def error_message Let_def\<close>)
  next
    case refused
    have "CryptoNegotiate (sv_env sv) (sv_config sv) now ?a (s_nego v, s_world v) = Ret (False, ?a, s_nego v, s_world v)"
      by (rule negotiate_refused) (use r seg refused assms(4,6) in auto)
    moreover have "StpToken_idx ?tok < 0 \<or> int (length (server_table cg b off v)) \<le> StpToken_idx ?tok"
      using refused r unfolding tbl by auto
    ultimately show thesis
      by (intro that [where seg' = seg and db' = db]) (use refused db in \<open>simp_all add: negotiate_reply_def same serve_request_def error_message Let_def, simp add: tbl\<close>)
  next
    case granted
    obtain seg' where n: "CryptoNegotiate (sv_env sv) (sv_config sv) now ?a (s_nego v, s_world v) =
        Ret (True, ?a\<lparr>a_expires := ?e, a_key := ?k\<rparr>, s_nego v, (s_world v)\<lparr>w_mem := (w_mem (s_world v))(b \<mapsto> seg')\<rparr>)"
      and seg': "length seg' = length seg"
      "read_item (slot off (StpToken_idx ?tok) seg') = \<lparr>ci_group = StpToken_group ?tok, ci_idx = StpToken_idx ?tok, ci_key = ?k @ [0, 0, 0, 0],
         ci_use_crypto = True, ci_expires = ?e, ci_zero = ci_zero (read_item (slot off (StpToken_idx ?tok) seg))\<rparr>"
      "\<forall>j\<ge>0. j \<noteq> StpToken_idx ?tok \<longrightarrow> slot off j seg' = slot off j seg"
      using negotiate_existing_slot [of "s_nego v" "sv_config sv" cg b off seg "s_world v" ?a "fst now" "sv_env sv" "snd now"] r assms(3-7) granted
      by auto
    obtain ok' db' where ins: "InsertCryptoStatus (sv_mysql sv) (sv_desc sv) ?guid (StpToken_group ?tok) (StpToken_idx ?tok)
        (StpToken_expires (S2C_StpCryptoNegotiate_token (server_answer 0 ?guid (StpToken_group ?tok) (StpToken_idx ?tok) ?e ?k)))
        (StpToken_key (S2C_StpCryptoNegotiate_token (server_answer 0 ?guid (StpToken_group ?tok) (StpToken_idx ?tok) ?e ?k))) db = (ok', db')"
      by fastforce
    have i: "StpToken_idx ?tok < int (nat (max_idx (cg_mgr cg)))" "nat (StpToken_idx ?tok) < nat (max_idx (cg_mgr cg))" using granted by simp_all
    have "slot_table off (nat (max_idx (cg_mgr cg))) seg' = (slot_table off (nat (max_idx (cg_mgr cg))) seg)[nat (StpToken_idx ?tok) :=
        \<lparr>ci_group = StpToken_group ?tok, ci_idx = StpToken_idx ?tok, ci_key = ?k @ [0, 0, 0, 0],
         ci_use_crypto = True, ci_expires = ?e, ci_zero = ci_zero (slot_table off (nat (max_idx (cg_mgr cg))) seg ! nat (StpToken_idx ?tok))\<rparr>]"
      by (rule slot_table_update) (use granted i seg' in \<open>simp_all add: slot_table_nth\<close>)
    then show thesis
      by (intro that [where seg' = seg' and db' = db']) (use granted db n ins seg' in \<open>simp_all add: negotiate_reply_def serve_request_def granted_message tbl Let_def\<close>)
  qed
qed

lemma serve_request_short:
  assumes "wire_laws (sv_wire sv)" "in_s64 (fst now + token_expires (sv_config sv))" "c2s_ok req"
  shows "message_ok (MsgS2CNegotiate (fst (serve_request sv known now req tbl)))"
    "length (message_bytes (sv_wire sv) (MsgS2CNegotiate (fst (serve_request sv known now req tbl)))) \<le> 900"
proof -
  let ?tok = "C2S_StpCryptoNegotiate_token req"
  have t: "in_s32 (StpToken_group ?tok)" "in_s32 (StpToken_idx ?tok)"
    using message_tokens(1) [OF assms(3)] by (simp_all add: token_ok_def)
  have z: "server_answer r 0 0 0 0 [] = server_answer r 0 0 0 0 (replicate 32 0)" if "r \<noteq> 0" for r
    using that by (simp add: server_answer_def)
  have s: "in_s64 0" "in_s32 0" "StpResult_IsValid 4" "StpResult_IsValid 1" "StpResult_IsValid 0"
    by (simp_all add: in_s64_def in_s32_def StpResult_IsValid_def)
  have k: "length (replicate 32 (0 :: u8)) = 32" "length (random_key (env_random (sv_env sv)) (snd now)) = 32" by simp_all
  have r: "fst (serve_request sv known now req tbl) \<in> {server_answer 4 0 0 0 0 (replicate 32 0), server_answer 1 0 0 0 0 (replicate 32 0),
      server_answer 0 (C2S_StpCryptoNegotiate_stp_guid req) (StpToken_group ?tok) (StpToken_idx ?tok)
        (fst now + token_expires (sv_config sv)) (random_key (env_random (sv_env sv)) (snd now))}"
    unfolding z [of 4, symmetric, simplified] z [of 1, symmetric, simplified] by (simp add: serve_request_def Let_def)
  show "message_ok (MsgS2CNegotiate (fst (serve_request sv known now req tbl)))"
    using r server_answer_ok(1) [OF s(1,2,2) k(1) s(3)] server_answer_ok(1) [OF s(1,2,2) k(1) s(4)]
      server_answer_ok(1) [OF assms(2) t k(2) s(5)] by (elim insertE emptyE) simp_all
  have "length (message_bytes (sv_wire sv) (MsgS2CNegotiate (fst (serve_request sv known now req tbl)))) \<le> 120"
    using r server_answer_ok(2) [OF s(1,2,2) k(1) s(3) assms(1)] server_answer_ok(2) [OF s(1,2,2) k(1) s(4) assms(1)]
      server_answer_ok(2) [OF assms(2) t k(2) s(5) assms(1)] by (elim insertE emptyE) (simp_all only:)
  then show "length (message_bytes (sv_wire sv) (MsgS2CNegotiate (fst (serve_request sv known now req tbl)))) \<le> 900" by simp
qed

lemma request_simulates:
  assumes "serving sv bytes known cg b off v" "legal_request sv bytes (nat (max_idx (cg_mgr cg))) ev"
  shows "\<exists>v'. request_step sv bytes ev v = Ret (fst (request_spec sv known ev (server_table cg b off v)), v')
    \<and> server_table cg b off v' = snd (request_spec sv known ev (server_table cg b off v)) \<and> serving sv bytes known cg b off v'"
proof -
  let ?req = "rq_msg ev" let ?c = "rq_conn ev" let ?now = "rq_clock ev"
  let ?rsp = "fst (serve_request sv known ?now ?req (server_table cg b off v))"
  obtain seg where r: "server_ready sv v cg b off seg" using assms(1) by (auto simp: serving_def)
  have laws: "evbuffer_laws (sv_evbuffer sv) bytes" "adds (sv_evbuffer sv)" "wire_laws (sv_wire sv)" "length (s_send_buf v) = sizeof_send_buf"
    and known: "\<And>g db. fst (CheckStpGuidValid (sv_mysql sv) g db) = known g" using assms(1) by (simp_all add: serving_def)
  have ev: "idle bytes ?c" "bytes (ev_write_buf ?c) = []" "c2s_ok ?req" "length (message_bytes (sv_wire sv) (MsgC2SNegotiate ?req)) < 2 ^ 20"
    "in_s64 (fst ?now + token_expires (sv_config sv))" using assms(2) by (simp_all add: legal_request_def)
  have conn: "idle bytes (s_conn (v\<lparr>s_conn := ?c\<rparr>))" "message_ok (MsgC2SNegotiate ?req)" using ev by simp_all
  from server_receives [OF laws(1,3) conn(1,2) ev(4), where now = ?now] obtain c where
    c: "server_ProcessReadEvent sv ?now (v\<lparr>s_conn := arrives (sv_evbuffer sv) (packet (sv_wire sv) (MsgC2SNegotiate ?req)) ?c\<rparr>) =
      HandleProtocol_StpCryptoNegotiate sv ?now ?req (v\<lparr>s_conn := c\<rparr>)"
      "ev_write_buf c = ev_write_buf ?c"
    unfolding server_handler by auto
  have rdy: "server_ready sv (v\<lparr>s_conn := c\<rparr>) cg b off seg" using r by (simp add: server_ready_def)
  have tok: "in_s32 (StpToken_group (C2S_StpCryptoNegotiate_token ?req))" "in_s32 (StpToken_idx (C2S_StpCryptoNegotiate_token ?req))"
    using message_tokens(1) [OF ev(3)] by (simp_all add: token_ok_def)
  have idx: "StpToken_group (C2S_StpCryptoNegotiate_token ?req) \<noteq> -1" "StpToken_idx (C2S_StpCryptoNegotiate_token ?req) \<notin> {-1, max_idx (cg_mgr cg)}"
    using assms(2) r by (auto simp: legal_request_def server_ready_def)
  have tbl: "server_table cg b off (v\<lparr>s_conn := c\<rparr>) = server_table cg b off v" by (simp add: server_table_def)
  obtain seg' db' where g: "negotiate_reply sv ?now ?req (v\<lparr>s_conn := c\<rparr>) = Ret (?rsp,
       (v\<lparr>s_conn := c\<rparr>)\<lparr>s_world := (s_world v)\<lparr>w_mem := (w_mem (s_world v))(b \<mapsto> seg')\<rparr>, s_db := db'\<rparr>)"
    "length seg' = length seg" "slot_table off (nat (max_idx (cg_mgr cg))) seg' = snd (serve_request sv known ?now ?req (server_table cg b off v))"
    by (rule negotiate_serves [OF rdy known ev(5) idx(1) tok(1) idx(2) tok(2)]) (unfold tbl, auto)
  let ?v = "(v\<lparr>s_conn := c\<rparr>)\<lparr>s_world := (s_world v)\<lparr>w_mem := (w_mem (s_world v))(b \<mapsto> seg')\<rparr>, s_db := db'\<rparr>"
  obtain buf c' where reply: "server_reply sv (MsgS2CNegotiate ?rsp) ?v = Ret (?v\<lparr>s_send_buf := buf, s_conn := c'\<rparr>)" "length buf = sizeof_send_buf"
    "bytes (ev_write_buf c') = bytes (ev_write_buf (s_conn ?v)) @ frame (Request_Serialize (sv_wire sv) (envelope (sv_wire sv) (MsgS2CNegotiate ?rsp)))"
    by (rule server_reply_sends [OF laws(1-3) _ serve_request_short(2) [OF laws(3) ev(5,3)], of ?v]) (use laws(4) in auto)
  let ?v' = "?v\<lparr>s_send_buf := buf, s_conn := c'\<rparr>"
  have sent: "bytes (ev_write_buf c') = packet (sv_wire sv) (MsgS2CNegotiate ?rsp)" using reply(3) ev(2) c(2) by (simp add: packet_def)
  have "request_step sv bytes ev v = Ret (packet (sv_wire sv) (MsgS2CNegotiate ?rsp), ?v')"
    using reply(1) g(1) by (simp add: request_step_def c HandleProtocol_StpCryptoNegotiate_def sent)
  moreover have "server_table cg b off ?v' = snd (serve_request sv known ?now ?req (server_table cg b off v))"
    using g(3) by (simp add: server_table_def)
  moreover have "server_ready sv ?v' cg b off seg'" using r g(2) by (simp add: server_ready_def usable_group_def)
  ultimately show ?thesis
    using laws known reply(2) by (intro exI [of _ ?v']) (auto simp: request_spec_def serving_def split_def)
qed

interpretation key_server: simulation "request_step sv bytes" "request_spec sv known" "server_table cg b off"
    "serving sv bytes known cg b off" "legal_request sv bytes (nat (max_idx (cg_mgr cg)))" for sv bytes known cg b off
  by unfold_locales (rule request_simulates)


definition demo_request :: "int \<Rightarrow> int option \<Rightarrow> u8 list request_event" where
  "demo_request t slot_no = \<lparr>rq_conn = list_connection, rq_clock = (t, t),
     rq_msg = \<lparr>cn_stp_guid = Some 7, cn_token = map_option (\<lambda>i. StpToken_default\<lparr>tk_group := Some 0, tk_idx := Some i\<rparr>) slot_no,
       cn_unknown = []\<rparr>\<rparr>"

lemma demo_serving: "serving (demo_services known) (\<lambda>b. b) (\<lambda>_. known) (demo_group []) 5 0 demo_server"
  using demo_server_ready [of known] list_evbuffer_laws list_evbuffer_adds proto_wire_laws
  by (auto simp: serving_def demo_fields)


section \<open>Server and clients\<close>

text \<open>
  A client's slot after an answer, and the rounds of a server and its clients: the client's timer sends its
  request, the server answers it, the client stores the answer.  Between rounds nothing is pending on the
  two ends of the connection.
\<close>

definition store_answer :: "S2C_StpCryptoNegotiate \<Rightarrow> CryptoItem \<Rightarrow> CryptoItem" where
  "store_answer rsp it =
     (let res = S2C_StpCryptoNegotiate_res rsp; t = S2C_StpCryptoNegotiate_token rsp; key = c_string (StpToken_key t)
      in \<lparr>ci_group = StpToken_group t, ci_idx = StpToken_idx t,
          ci_key = (if res \<noteq> 0 then replicate 36 0 else key @ replicate (36 - length key) 0),
          ci_use_crypto = (res = 0), ci_expires = (if res \<noteq> 0 then -1 else StpToken_expires t), ci_zero = ci_zero it\<rparr>)"

definition client_key_request :: "('b, 'os) client_services \<Rightarrow> C2S_StpCryptoNegotiate" where
  "client_key_request cs = \<lparr>cn_stp_guid = Some (word_of_int (clnt_stp_guid (cs_config cs))), cn_token = None, cn_unknown = []\<rparr>"

record ('b, 'c) round_event =
  rd_client :: nat
  rd_clock :: "int \<times> int"
  rd_server_conn :: "'b connection"
  rd_client_conn :: "'c connection"

definition round_step ::
    "('b, 'os, 'db) services \<Rightarrow> ('b \<Rightarrow> u8 list) \<Rightarrow> (nat \<Rightarrow> ('c, 'o) client_services) \<Rightarrow> ('c \<Rightarrow> u8 list) \<Rightarrow>
     ('b, 'c) round_event \<Rightarrow> ('b, 'os, 'db) server \<times> (nat \<Rightarrow> ('c, 'o) client) \<Rightarrow>
     (unit \<times> ('b, 'os, 'db) server \<times> (nat \<Rightarrow> ('c, 'o) client)) run" where
  "round_step sv sbytes cs cbytes ev s =
     (case s of (v, cl) \<Rightarrow>
        let i = rd_client ev
        in run_bind (CryptoNegotiateCallback (cs i) ((cl i)\<lparr>c_conn := Some (rd_client_conn ev)\<rparr>)) (\<lambda>c.
             case c_conn c of
               None \<Rightarrow> Fault
             | Some conn \<Rightarrow>
                 run_bind (server_ProcessReadEvent sv (rd_clock ev)
                     (v\<lparr>s_conn := arrives (sv_evbuffer sv) (cbytes (ev_write_buf conn)) (rd_server_conn ev)\<rparr>)) (\<lambda>v.
                 run_bind (client_ProcessReadEvent (cs i)
                     (c\<lparr>c_conn := Some (arrives (cs_evbuffer (cs i)) (sbytes (ev_write_buf (s_conn v))) conn)\<rparr>)) (\<lambda>c.
                 Ret ((), v, cl(i := c))))))"

definition round_spec ::
    "('b, 'os, 'db) services \<Rightarrow> (u64 \<Rightarrow> bool) \<Rightarrow> (nat \<Rightarrow> ('c, 'o) client_services) \<Rightarrow> ('b, 'c) round_event \<Rightarrow>
     CryptoItem list \<times> (nat \<Rightarrow> CryptoItem) \<Rightarrow> unit \<times> CryptoItem list \<times> (nat \<Rightarrow> CryptoItem)" where
  "round_spec sv known cs ev s =
     (case s of (tbl, items) \<Rightarrow>
        let i = rd_client ev; (rsp, tbl) = serve_request sv known (rd_clock ev) (client_key_request (cs i)) tbl
        in ((), tbl, items(i := store_answer rsp (items i))))"

definition client_item_of :: "(nat \<Rightarrow> int \<times> nat) \<Rightarrow> (nat \<Rightarrow> ('c, 'o) client) \<Rightarrow> nat \<Rightarrow> CryptoItem" where
  "client_item_of loc cl i = read_item (slot (snd (loc i)) 0 (the (w_mem (c_world (cl i)) (fst (loc i)))))"

definition client_running ::
    "('b, 'os, 'db) services \<Rightarrow> ('c, 'o) client_services \<Rightarrow> ('c \<Rightarrow> u8 list) \<Rightarrow> int \<times> nat \<Rightarrow> ('c, 'o) client \<Rightarrow> bool" where
  "client_running sv cs bytes loc c \<longleftrightarrow>
     evbuffer_laws (cs_evbuffer cs) bytes \<and> adds (cs_evbuffer cs) \<and> cs_wire cs = sv_wire sv \<and>
     length (c_buf c) = sizeof_buf \<and> (\<exists>seg. client_ready c (fst loc) (snd loc) seg)"

definition system_running ::
    "('b, 'os, 'db) services \<Rightarrow> ('b \<Rightarrow> u8 list) \<Rightarrow> (u64 \<Rightarrow> bool) \<Rightarrow> CryptoGroup \<Rightarrow> int \<Rightarrow> nat \<Rightarrow>
     (nat \<Rightarrow> ('c, 'o) client_services) \<Rightarrow> ('c \<Rightarrow> u8 list) \<Rightarrow> (nat \<Rightarrow> int \<times> nat) \<Rightarrow>
     ('b, 'os, 'db) server \<times> (nat \<Rightarrow> ('c, 'o) client) \<Rightarrow> bool" where
  "system_running sv sbytes known cg b off cs cbytes loc s \<longleftrightarrow>
     serving sv sbytes known cg b off (fst s) \<and> (\<forall>i. client_running sv (cs i) cbytes (loc i) (snd s i))"

definition system_view ::
    "CryptoGroup \<Rightarrow> int \<Rightarrow> nat \<Rightarrow> (nat \<Rightarrow> int \<times> nat) \<Rightarrow> ('b, 'os, 'db) server \<times> (nat \<Rightarrow> ('c, 'o) client) \<Rightarrow>
     CryptoItem list \<times> (nat \<Rightarrow> CryptoItem)" where
  "system_view cg b off loc s = (server_table cg b off (fst s), client_item_of loc (snd s))"

definition legal_round ::
    "('b, 'os, 'db) services \<Rightarrow> ('b \<Rightarrow> u8 list) \<Rightarrow> ('c \<Rightarrow> u8 list) \<Rightarrow> ('b, 'c) round_event \<Rightarrow> bool" where
  "legal_round sv sbytes cbytes ev \<longleftrightarrow>
     idle sbytes (rd_server_conn ev) \<and> sbytes (ev_write_buf (rd_server_conn ev)) = [] \<and>
     idle cbytes (rd_client_conn ev) \<and> cbytes (ev_write_buf (rd_client_conn ev)) = [] \<and>
     in_s64 (fst (rd_clock ev) + token_expires (sv_config sv))"

lemma client_stores:
  assumes "evbuffer_laws (cs_evbuffer cs) bytes" "wire_laws (cs_wire cs)" "c_conn s = Some c0" "idle bytes c0"
    and "client_ready s b off seg" "message_ok (MsgS2CNegotiate rsp)" "length (message_bytes (cs_wire cs) (MsgS2CNegotiate rsp)) \<le> 900"
    and "S2C_StpCryptoNegotiate_res rsp = 0 \<longrightarrow> length (c_string (StpToken_key (S2C_StpCryptoNegotiate_token rsp))) < 36"
  obtains s' seg' where
    "client_ProcessReadEvent cs (s\<lparr>c_conn := Some (arrives (cs_evbuffer cs) (packet (cs_wire cs) (MsgS2CNegotiate rsp)) c0)\<rparr>) = Ret s'"
    "client_ready s' b off seg'" "read_item (slot off 0 seg') = store_answer rsp (read_item (slot off 0 seg))" "c_buf s' = c_buf s"
proof -
  let ?t = "S2C_StpCryptoNegotiate_token rsp"
  have "length (message_bytes (cs_wire cs) (MsgS2CNegotiate rsp)) < 2 ^ 20" using assms(7) by simp
  from client_receives [OF assms(1-4,6) this] obtain c where
    c: "client_ProcessReadEvent cs (s\<lparr>c_conn := Some (arrives (cs_evbuffer cs) (packet (cs_wire cs) (MsgS2CNegotiate rsp)) c0)\<rparr>) =
      HandleProtocol_CryptoNegotiate rsp (s\<lparr>c_conn := Some c\<rparr>)"
    unfolding client_handler by auto
  have t: "in_s32 (StpToken_group ?t)" "in_s32 (StpToken_idx ?t)" "in_s64 (StpToken_expires ?t)"
    using message_tokens(2) [of rsp] assms(6) by (simp_all add: token_ok_def)
  have r: "client_ready (s\<lparr>c_conn := Some c\<rparr>) b off seg" using assms(5) by (simp add: client_ready_def)
  obtain seg' where u: "UpdateCryptoShmInfo (S2C_StpCryptoNegotiate_res rsp) ?t (s\<lparr>c_conn := Some c\<rparr>) = Ret (True,
      s\<lparr>c_conn := Some c, c_world := (c_world s)\<lparr>w_mem := (w_mem (c_world s))(b \<mapsto> seg')\<rparr>\<rparr>)"
    "length seg' = length seg" "read_item (slot off 0 seg') = store_answer rsp (read_item (slot off 0 seg))"
    using client_keeps_answer [OF r assms(8) t] by (auto simp: store_answer_def Let_def)
  have "off + 64 \<le> length seg'" using u(2) assms(5) by (simp add: client_ready_def)
  then show thesis
    using u r by (intro that [where seg' = seg' and s' = "s\<lparr>c_conn := Some c, c_world := (c_world s)\<lparr>w_mem := (w_mem (c_world s))(b \<mapsto> seg')\<rparr>\<rparr>"])
      (simp_all add: c HandleProtocol_CryptoNegotiate_def client_ready_def)
qed

text \<open>The answer of the server is one the client can store.\<close>

lemma serve_request_key:
  assumes "S2C_StpCryptoNegotiate_res (fst (serve_request sv known now req tbl)) = 0"
  shows "length (c_string (StpToken_key (S2C_StpCryptoNegotiate_token (fst (serve_request sv known now req tbl))))) < 36"
proof -
  have "length (c_string (random_key r t)) < 36" for r t
    unfolding c_string_def using length_takeWhile_le [of "\<lambda>c. c \<noteq> 0" "random_key r t"] by simp
  then show ?thesis
    using assms by (auto simp: serve_request_def Let_def server_answer_def S2C_StpCryptoNegotiate_res_def
        S2C_StpCryptoNegotiate_token_def StpToken_key_def split: if_splits)
qed

lemma client_key_request_legal:
  assumes "wire_laws api"
  shows "c2s_ok (client_key_request cs)" "length (message_bytes api (MsgC2SNegotiate (client_key_request cs))) < 2 ^ 20"
    "C2S_StpCryptoNegotiate_token (client_key_request cs) = StpToken_default"
  using c2s_length [OF assms, of "client_key_request cs"]
  by (simp_all add: client_key_request_def c2s_ok_def C2S_StpCryptoNegotiate_token_def)

lemma round_simulates:
  assumes "system_running sv sbytes known cg b off cs cbytes loc s" "legal_round sv sbytes cbytes ev"
  shows "\<exists>s'. round_step sv sbytes cs cbytes ev s = Ret (fst (round_spec sv known cs ev (system_view cg b off loc s)), s')
    \<and> system_view cg b off loc s' = snd (round_spec sv known cs ev (system_view cg b off loc s))
    \<and> system_running sv sbytes known cg b off cs cbytes loc s'"
proof -
  obtain v cl where s: "s = (v, cl)" by fastforce
  let ?i = "rd_client ev" let ?cs = "cs ?i" let ?req = "client_key_request ?cs"
  let ?ev = "\<lparr>rq_conn = rd_server_conn ev, rq_clock = rd_clock ev, rq_msg = ?req\<rparr>"
  let ?rsp = "fst (serve_request sv known (rd_clock ev) ?req (server_table cg b off v))"
  have v: "serving sv sbytes known cg b off v" and cl: "client_running sv (cs i) cbytes (loc i) (cl i)" for i
    using assms(1) by (simp_all add: system_running_def s)
  have w: "wire_laws (sv_wire sv)" "0 < max_idx (cg_mgr cg)" using v by (auto simp: serving_def server_ready_def)
  obtain seg where c: "evbuffer_laws (cs_evbuffer ?cs) cbytes" "adds (cs_evbuffer ?cs)" "cs_wire ?cs = sv_wire sv"
    "length (c_buf (cl ?i)) = sizeof_buf" "client_ready (cl ?i) (fst (loc ?i)) (snd (loc ?i)) seg"
    using cl by (auto simp: client_running_def)
  note cw = w(1) [folded c(3)]
  let ?c = "(cl ?i)\<lparr>c_conn := Some (rd_client_conn ev)\<rparr>"
  have c0: "c_conn ?c = Some (rd_client_conn ev)" "length (c_buf ?c) = sizeof_buf" using c(4) by simp_all
  have len: "length (message_bytes (cs_wire ?cs) (client_request ?cs)) \<le> 1900" using client_request_length [OF cw, of ?cs] by simp
  obtain buf conn where send: "client_send ?cs (client_request ?cs) ?c = Ret (?c\<lparr>c_buf := buf, c_conn := Some conn\<rparr>)"
    "length buf = sizeof_buf" "cbytes (ev_write_buf conn) = cbytes (ev_write_buf (rd_client_conn ev)) @ packet (cs_wire ?cs) (client_request ?cs)"
    "idle cbytes conn = idle cbytes (rd_client_conn ev)"
    by (rule client_sends [OF c(1,2) cw c0 len])
  have msg: "client_request ?cs = MsgC2SNegotiate ?req" by (simp add: client_request_message client_key_request_def)
  have sent: "cbytes (ev_write_buf conn) = packet (sv_wire sv) (MsgC2SNegotiate ?req)" "idle cbytes conn"
    using send(3,4) assms(2) c(3) by (simp_all add: legal_round_def msg)
  have cb: "CryptoNegotiateCallback ?cs ?c = Ret (?c\<lparr>c_buf := buf, c_conn := Some conn\<rparr>)"
    using send(1) by (simp add: CryptoNegotiateCallback_def client_request_def)
  have legal: "legal_request sv sbytes (nat (max_idx (cg_mgr cg))) ?ev"
    using assms(2) client_key_request_legal [OF w(1), of ?cs] w(2)
    by (simp add: legal_request_def legal_round_def StpToken_default_def StpToken_group_def StpToken_idx_def)
  obtain v' where v': "request_step sv sbytes ?ev v = Ret (packet (sv_wire sv) (MsgS2CNegotiate ?rsp), v')"
    "server_table cg b off v' = snd (serve_request sv known (rd_clock ev) ?req (server_table cg b off v))"
    "serving sv sbytes known cg b off v'"
    using request_simulates [OF v legal] by (auto simp: request_spec_def split_def)
  have read: "server_ProcessReadEvent sv (rd_clock ev) (v\<lparr>s_conn := arrives (sv_evbuffer sv) (packet (sv_wire sv) (MsgC2SNegotiate ?req)) (rd_server_conn ev)\<rparr>) = Ret v'"
    "sbytes (ev_write_buf (s_conn v')) = packet (sv_wire sv) (MsgS2CNegotiate ?rsp)"
    using v'(1) by (auto simp: request_step_def run_bind_Ret_iff)
  let ?c1 = "?c\<lparr>c_buf := buf, c_conn := Some conn\<rparr>"
  have in64: "in_s64 (fst (rd_clock ev) + token_expires (sv_config sv))" using assms(2) by (simp add: legal_round_def)
  note rsp = serve_request_short [OF w(1) in64 client_key_request_legal(1) [OF w(1)]]
  have c1: "c_conn ?c1 = Some conn" "client_ready ?c1 (fst (loc ?i)) (snd (loc ?i)) seg" using c(5) by (simp_all add: client_ready_def)
  obtain c2 seg' where c2: "client_ProcessReadEvent ?cs (?c1\<lparr>c_conn := Some (arrives (cs_evbuffer ?cs) (packet (cs_wire ?cs) (MsgS2CNegotiate ?rsp)) conn)\<rparr>) = Ret c2"
    "client_ready c2 (fst (loc ?i)) (snd (loc ?i)) seg'" "read_item (slot (snd (loc ?i)) 0 seg') = store_answer ?rsp (read_item (slot (snd (loc ?i)) 0 seg))"
    "c_buf c2 = c_buf ?c1"
    by (rule client_stores [OF c(1) cw c1(1) sent(2) c1(2) rsp(1) rsp(2) [folded c(3)]]) (use serve_request_key in blast)+
  let ?s' = "(v', cl(?i := c2))"
  have item: "client_item_of loc (cl(?i := c2)) = (client_item_of loc cl)(?i := store_answer ?rsp (client_item_of loc cl ?i))"
    using c(5) c2(2,3) by (auto simp: client_item_of_def client_ready_def fun_eq_iff)
  have "round_step sv sbytes cs cbytes ev s = Ret ((), ?s')"
    using cb read c2(1) sent c(3) by (simp add: round_step_def s Let_def)
  moreover have "system_view cg b off loc ?s' = snd (round_spec sv known cs ev (system_view cg b off loc s))"
    by (simp add: system_view_def s round_spec_def item v'(2) split_def Let_def)
  moreover have "client_running sv ?cs cbytes (loc ?i) c2" using c c2 send(2) by (auto simp: client_running_def)
  then have "system_running sv sbytes known cg b off cs cbytes loc ?s'" using v'(3) cl by (simp add: system_running_def)
  ultimately show ?thesis by (intro exI [of _ ?s']) simp
qed

interpretation key_system: simulation "round_step sv sbytes cs cbytes" "round_spec sv known cs" "system_view cg b off loc"
    "system_running sv sbytes known cg b off cs cbytes loc" "legal_round sv sbytes cbytes"
  for sv sbytes cs cbytes known cg b off loc
  by unfold_locales (rule round_simulates)

text \<open>What a round leaves in the client's slot and, if the guid is known, in the server's slot 0.\<close>

definition client_guid :: "(nat \<Rightarrow> ('c, 'o) client_services) \<Rightarrow> nat \<Rightarrow> u64" where
  "client_guid cs i = word_of_int (clnt_stp_guid (cs_config (cs i)))"

definition round_item ::
    "('b, 'os, 'db) services \<Rightarrow> (u64 \<Rightarrow> bool) \<Rightarrow> (nat \<Rightarrow> ('c, 'o) client_services) \<Rightarrow> ('b, 'c) round_event \<Rightarrow> CryptoItem \<Rightarrow> CryptoItem" where
  "round_item sv known cs r it =
     (if known (client_guid cs (rd_client r)) then
        \<lparr>ci_group = 0, ci_idx = 0, ci_key = random_key (env_random (sv_env sv)) (snd (rd_clock r)) @ [0, 0, 0, 0],
         ci_use_crypto = True, ci_expires = fst (rd_clock r) + token_expires (sv_config sv), ci_zero = ci_zero it\<rparr>
      else \<lparr>ci_group = 0, ci_idx = 0, ci_key = replicate 36 0, ci_use_crypto = False, ci_expires = -1, ci_zero = ci_zero it\<rparr>)"

lemma round_item_again [simp]: "round_item sv known cs r (round_item sv known cs r' it) = round_item sv known cs r it"
  by (simp add: round_item_def)

lemma c_string_random_key: "c_string (random_key r t) = random_key r t"
proof -
  have "0 \<notin> set (random_key r t)" using random_key_chars key_tab_chars by blast
  then show ?thesis by (auto simp: c_string_def takeWhile_eq_all_conv)
qed

lemma round_spec_item:
  assumes "tbl \<noteq> []"
  shows "snd (round_spec sv known cs r (tbl, items)) =
    (if known (client_guid cs (rd_client r)) then tbl[0 := round_item sv known cs r (tbl ! 0)] else tbl,
     items(rd_client r := round_item sv known cs r (items (rd_client r))))"
proof -
  let ?req = "client_key_request (cs (rd_client r))"
  have req: "C2S_StpCryptoNegotiate_stp_guid ?req = client_guid cs (rd_client r)" "C2S_StpCryptoNegotiate_has_stp_guid ?req"
    "C2S_StpCryptoNegotiate_token ?req = StpToken_default" "StpToken_group StpToken_default = 0" "StpToken_idx StpToken_default = 0"
    by (simp_all add: client_key_request_def client_guid_def C2S_StpCryptoNegotiate_stp_guid_def C2S_StpCryptoNegotiate_has_stp_guid_def
        C2S_StpCryptoNegotiate_token_def StpToken_group_def StpToken_idx_def StpToken_default_def)
  have tok: "S2C_StpCryptoNegotiate_token (server_answer 4 0 0 0 0 []) = StpToken_default" "S2C_StpCryptoNegotiate_res (server_answer 4 0 0 0 0 []) = 4"
    by (simp_all add: server_answer_def S2C_StpCryptoNegotiate_token_def S2C_StpCryptoNegotiate_res_def)
  show ?thesis
  proof (cases "known (client_guid cs (rd_client r))")
    case True
    then have "snd (round_spec sv known cs r (tbl, items)) =
      (tbl[0 := round_item sv known cs r (tbl ! 0)], items(rd_client r := store_answer (server_answer 0 (client_guid cs (rd_client r)) 0 0
          (fst (rd_clock r) + token_expires (sv_config sv)) (random_key (env_random (sv_env sv)) (snd (rd_clock r)))) (items (rd_client r))))"
      using assms by (simp add: round_spec_def serve_request_def req round_item_def Let_def)
    then show ?thesis
      using True c_string_random_key four_nul
      by (simp add: store_answer_def server_answer_def S2C_StpCryptoNegotiate_res_def S2C_StpCryptoNegotiate_token_def round_item_def
          StpToken_group_def StpToken_idx_def StpToken_expires_def StpToken_key_def Let_def)
  next
    case False
    then show ?thesis
      by (simp add: round_spec_def serve_request_def req tok store_answer_def round_item_def Let_def)
  qed
qed

lemma rounds_items:
  assumes "tbl \<noteq> []"
  shows "snd (run_spec (round_spec sv known cs) rs (tbl, items)) =
    (case find (\<lambda>r. known (client_guid cs (rd_client r))) (rev rs) of None \<Rightarrow> tbl | Some r \<Rightarrow> tbl[0 := round_item sv known cs r (tbl ! 0)],
     \<lambda>i. case find (\<lambda>r. rd_client r = i) (rev rs) of None \<Rightarrow> items i | Some r \<Rightarrow> round_item sv known cs r (items i))"
proof (induction rs rule: rev_induct)
  case (snoc r rs)
  let ?tbl = "case find (\<lambda>r. known (client_guid cs (rd_client r))) (rev rs) of None \<Rightarrow> tbl | Some r \<Rightarrow> tbl[0 := round_item sv known cs r (tbl ! 0)]"
  have "?tbl \<noteq> []" "?tbl ! 0 = tbl ! 0 \<or> (\<exists>r. ?tbl ! 0 = round_item sv known cs r (tbl ! 0))" "?tbl[0 := x] = tbl[0 := x]" for x
    using assms by (auto split: option.split)
  then show ?case
    by (auto simp: run_spec_snd [symmetric] run_spec_append snoc round_spec_item fun_eq_iff Let_def split_def split: option.splits)
qed simp

text \<open>
  C5. The server and its clients as a whole, over any sequence of rounds of any clients: no step of a round
  fails, and afterwards every client's slot holds what its own last round brought, a key of that second or,
  for a guid the database does not have, a zeroed slot, while the server's slot 0 holds the key of the last
  round of all clients with a known guid, and no other slot has changed: the clients share one slot, and only
  the last of them agrees with the server.
\<close>

theorem last_rounds_stored:
  assumes "system_running sv sbytes known cg b off cs cbytes loc (v, cl)" "list_all (legal_round sv sbytes cbytes) rs"
  shows "\<exists>xs v' cl'. run_steps (round_step sv sbytes cs cbytes) rs (v, cl) = Ret (xs, v', cl') \<and>
    (\<forall>i. client_item_of loc cl' i = (case find (\<lambda>r. rd_client r = i) (rev rs) of
       None \<Rightarrow> client_item_of loc cl i | Some r \<Rightarrow> round_item sv known cs r (client_item_of loc cl i))) \<and>
    server_table cg b off v' = (case find (\<lambda>r. known (client_guid cs (rd_client r))) (rev rs) of
       None \<Rightarrow> server_table cg b off v
     | Some r \<Rightarrow> (server_table cg b off v)[0 := round_item sv known cs r (server_table cg b off v ! 0)])"
proof -
  have "0 < length (server_table cg b off v)"
    using assms(1) by (auto simp: system_running_def serving_def server_ready_def server_table_def)
  then have "server_table cg b off v \<noteq> []" by force
  moreover obtain v' cl' where "run_steps (round_step sv sbytes cs cbytes) rs (v, cl) =
      Ret (fst (run_spec (round_spec sv known cs) rs (system_view cg b off loc (v, cl))), v', cl')"
    "system_view cg b off loc (v', cl') = snd (run_spec (round_spec sv known cs) rs (system_view cg b off loc (v, cl)))"
    using key_system.run_refines [OF assms] by fastforce
  moreover note rounds_items [of "server_table cg b off v" sv known cs rs "client_item_of loc cl"]
  ultimately show ?thesis
    by (intro exI [of _ v'] exI [of _ cl'] exI conjI) (simp_all add: system_view_def fun_eq_iff)
qed

definition demo_round :: "nat \<Rightarrow> int \<Rightarrow> (u8 list, u8 list) round_event" where
  "demo_round i t = \<lparr>rd_client = i, rd_clock = (t, t), rd_server_conn = list_connection, rd_client_conn = list_connection\<rparr>"

lemma demo_system: "system_running (demo_services known) (\<lambda>b. b) (\<lambda>_. known) (demo_group []) 5 0 (\<lambda>_. demo_client_services) (\<lambda>b. b)
    (\<lambda>_. (5, 0)) (demo_server, \<lambda>_. demo_client)"
  using demo_serving [of known] demo_client_ready list_evbuffer_laws list_evbuffer_adds
  by (auto simp: system_running_def client_running_def demo_fields)

theorem last_rounds_stored_witness:
  "\<exists>xs v' cl'. run_steps (round_step (demo_services True) (\<lambda>b. b) (\<lambda>_. demo_client_services) (\<lambda>b. b)) [demo_round 0 1000, demo_round 1 1001]
      (demo_server, \<lambda>_. demo_client) = Ret (xs, v', cl')
    \<and> ci_key (client_item_of (\<lambda>_. (5, 0)) cl' 0) = random_key (\<lambda>_ i. i) 1000 @ [0, 0, 0, 0]
    \<and> ci_key (client_item_of (\<lambda>_. (5, 0)) cl' 1) = random_key (\<lambda>_ i. i) 1001 @ [0, 0, 0, 0]
    \<and> ci_key (server_table (demo_group []) 5 0 v' ! 0) = random_key (\<lambda>_ i. i) 1001 @ [0, 0, 0, 0]"
proof -
  have e: "sv_env (demo_services True) = demo_env" "in_s64 (1000 + token_expires (sv_config (demo_services True)))"
    "in_s64 (1001 + token_expires (sv_config (demo_services True)))" "length (server_table (demo_group []) 5 0 demo_server) = 100"
    by (simp_all add: demo_fields) (simp_all add: demo_services_def server_table_def demo_group_def max_idx_def)
  have "list_all (legal_round (demo_services True) (\<lambda>b. b) (\<lambda>b. b)) [demo_round 0 1000, demo_round 1 1001]"
    using list_connection_idle e by (simp add: legal_round_def demo_round_def)
  from last_rounds_stored [OF demo_system this] show ?thesis
    using e by (auto simp: round_item_def demo_round_def demo_env_def)
qed

end
