(* ===== verification/Event_Notifier.thy ===== *)
theory Event_Notifier
  imports Connection
begin

text \<open>
  \<^verbatim>\<open>src/stputil/event_notifier.cc\<close>, \<^verbatim>\<open>tcp_event_server.cc\<close> and \<^verbatim>\<open>tcp_event_client.cc\<close>: the callbacks
  libevent makes, over a heap of connections and bufferevents.

  An object is named by a number; a freed one is absent from its map and its number is not used again.
  A bufferevent owns its input and output buffer and holds the connection its callbacks are passed.
  \<open>lp_user\<close> is the rest of the program's state.  The user's handlers are arguments; those for the
  connection, write and close events are empty functions in the server and in the client.
\<close>

record conn_obj =
  co_fd :: int
  co_bufs :: "nat option"
  co_list :: "u8 list list"
  co_arr :: "u8 list"

record 'b bufferevent =
  be_input :: 'b
  be_output :: 'b
  be_arg :: "nat option"

record ('b, 'u) loop =
  lp_conns :: "nat \<Rightarrow> conn_obj option"
  lp_bevs :: "nat \<Rightarrow> 'b bufferevent option"
  lp_next :: nat
  lp_conn :: "nat option"
  lp_user :: 'u

section \<open>Connections in the heap\<close>

text \<open>
  \<open>new Connection(notifier, fd)\<close> leaves the buffers unset; the contents of the array are arbitrary.
\<close>

definition new_Connection :: "u8 list \<Rightarrow> int \<Rightarrow> ('b, 'u) loop \<Rightarrow> nat \<times> ('b, 'u) loop" where
  "new_Connection arr f lp =
     (lp_next lp, lp\<lparr>lp_conns := (lp_conns lp)(lp_next lp \<mapsto> \<lparr>co_fd = f, co_bufs = None, co_list = [], co_arr = arr\<rparr>),
        lp_next := Suc (lp_next lp)\<rparr>)"

definition SetBuffer :: "nat \<Rightarrow> nat \<Rightarrow> ('b, 'u) loop \<Rightarrow> ('b, 'u) loop run" where
  "SetBuffer c bev lp =
     (case (lp_bevs lp bev, lp_conns lp c) of
        (Some _, Some co) \<Rightarrow> Ret (lp\<lparr>lp_conns := (lp_conns lp)(c \<mapsto> co\<lparr>co_bufs := Some bev\<rparr>)\<rparr>)
      | _ \<Rightarrow> Fault)"

definition SetFd :: "nat \<Rightarrow> int \<Rightarrow> ('b, 'u) loop \<Rightarrow> ('b, 'u) loop run" where
  "SetFd c f lp =
     (case lp_conns lp c of
        Some co \<Rightarrow> Ret (lp\<lparr>lp_conns := (lp_conns lp)(c \<mapsto> co\<lparr>co_fd := f\<rparr>)\<rparr>)
      | None \<Rightarrow> Fault)"

definition DeleteConnection :: "nat \<Rightarrow> ('b, 'u) loop \<Rightarrow> ('b, 'u) loop run" where
  "DeleteConnection c lp =
     (if lp_conns lp c = None then Fault else Ret (lp\<lparr>lp_conns := (lp_conns lp)(c := None)\<rparr>))"

text \<open>
  The connection as its member functions see it, with the buffers its pointers lead to; \<open>None\<close> when the
  object or the buffers are gone.
\<close>

definition load_conn :: "nat \<Rightarrow> ('b, 'u) loop \<Rightarrow> 'b connection option" where
  "load_conn c lp =
     (case lp_conns lp c of
        None \<Rightarrow> None
      | Some co \<Rightarrow>
          (case co_bufs co of
             None \<Rightarrow> None
           | Some b \<Rightarrow>
               (case lp_bevs lp b of
                  None \<Rightarrow> None
                | Some bev \<Rightarrow> Some \<lparr>fd = co_fd co, ev_read_buf = be_input bev, ev_write_buf = be_output bev,
                    read_buf_list = co_list co, read_buf = co_arr co\<rparr>)))"

definition store_conn :: "nat \<Rightarrow> 'b connection \<Rightarrow> ('b, 'u) loop \<Rightarrow> ('b, 'u) loop" where
  "store_conn c k lp =
     (case lp_conns lp c of
        None \<Rightarrow> lp
      | Some co \<Rightarrow>
          (case co_bufs co of
             None \<Rightarrow> lp
           | Some b \<Rightarrow>
               (case lp_bevs lp b of
                  None \<Rightarrow> lp
                | Some bev \<Rightarrow>
                    lp\<lparr>lp_conns := (lp_conns lp)(c \<mapsto> co\<lparr>co_fd := fd k, co_list := read_buf_list k, co_arr := read_buf k\<rparr>),
                       lp_bevs := (lp_bevs lp)(b \<mapsto> bev\<lparr>be_input := ev_read_buf k, be_output := ev_write_buf k\<rparr>)\<rparr>)))"

definition on_connection ::
    "nat \<Rightarrow> ('b connection \<Rightarrow> 'a \<times> 'b connection) \<Rightarrow> ('b, 'u) loop \<Rightarrow> ('a \<times> ('b, 'u) loop) run" where
  "on_connection c f lp =
     (case load_conn c lp of
        None \<Rightarrow> Fault
      | Some k \<Rightarrow> (case f k of (x, k') \<Rightarrow> Ret (x, store_conn c k' lp)))"

section \<open>Callbacks\<close>

definition ReadEventCallback ::
    "'b evbuffer_api \<Rightarrow> (nat \<Rightarrow> ('b, 'u) loop \<Rightarrow> ('b, 'u) loop run) \<Rightarrow> nat \<Rightarrow> nat \<Rightarrow> ('b, 'u) loop \<Rightarrow> ('b, 'u) loop run" where
  "ReadEventCallback api HandleReadEvent bev data lp =
     run_bind (SetBuffer data bev lp) (\<lambda>lp.
     run_bind (on_connection data (RecvNetMessage api) lp) (\<lambda>(got, lp).
       if got then HandleReadEvent data lp else Ret lp))"

definition WriteEventCallback ::
    "(nat \<Rightarrow> ('b, 'u) loop \<Rightarrow> ('b, 'u) loop run) \<Rightarrow> nat \<Rightarrow> nat \<Rightarrow> ('b, 'u) loop \<Rightarrow> ('b, 'u) loop run" where
  "WriteEventCallback HandleWriteEvent bev data lp =
     run_bind (SetBuffer data bev lp) (HandleWriteEvent data)"

definition BEV_EVENT_EOF :: "16 word" where "BEV_EVENT_EOF = 0x10"
definition BEV_EVENT_ERROR :: "16 word" where "BEV_EVENT_ERROR = 0x20"

definition bufferevent_free :: "nat \<Rightarrow> ('b, 'u) loop \<Rightarrow> ('b, 'u) loop run" where
  "bufferevent_free bev lp =
     (if lp_bevs lp bev = None then Fault else Ret (lp\<lparr>lp_bevs := (lp_bevs lp)(bev := None)\<rparr>))"

text \<open>The bufferevent is freed before the close event is reported and the connection deleted.\<close>

definition BufferEventCallback ::
    "(nat \<Rightarrow> 16 word \<Rightarrow> ('b, 'u) loop \<Rightarrow> ('b, 'u) loop run) \<Rightarrow> nat \<Rightarrow> 16 word \<Rightarrow> nat \<Rightarrow> ('b, 'u) loop \<Rightarrow> ('b, 'u) loop run" where
  "BufferEventCallback HandleCloseEvent bev events data lp =
     (if events AND (BEV_EVENT_ERROR OR BEV_EVENT_EOF) \<noteq> 0 then
        run_bind (bufferevent_free bev lp) (\<lambda>lp.
        run_bind (HandleCloseEvent data events lp) (DeleteConnection data))
      else Ret lp)"

text \<open>
  \<open>bufferevent_socket_new\<close> gives a bufferevent with empty buffers, or fails; \<open>bufferevent_setcb\<close> sets
  the argument of its callbacks.
\<close>

definition bufferevent_new :: "'b \<Rightarrow> ('b, 'u) loop \<Rightarrow> nat \<times> ('b, 'u) loop" where
  "bufferevent_new e lp =
     (lp_next lp, lp\<lparr>lp_bevs := (lp_bevs lp)(lp_next lp \<mapsto> \<lparr>be_input = e, be_output = e, be_arg = None\<rparr>),
        lp_next := Suc (lp_next lp)\<rparr>)"

definition bufferevent_setcb :: "nat \<Rightarrow> nat \<Rightarrow> ('b, 'u) loop \<Rightarrow> ('b, 'u) loop" where
  "bufferevent_setcb bev c lp =
     lp\<lparr>lp_bevs := (lp_bevs lp)(bev := map_option (\<lambda>be. be\<lparr>be_arg := Some c\<rparr>) (lp_bevs lp bev))\<rparr>"

text \<open>
  The listener's callback.  The flag of the result is \<open>event_base_loopbreak\<close>; \<open>created\<close> says whether the
  bufferevent could be made.
\<close>

definition ListenerEventCallback ::
    "(nat \<Rightarrow> ('b, 'u) loop \<Rightarrow> ('b, 'u) loop run) \<Rightarrow> 'b \<Rightarrow> u8 list \<Rightarrow> bool \<Rightarrow> int \<Rightarrow> ('b, 'u) loop \<Rightarrow> (bool \<times> ('b, 'u) loop) run" where
  "ListenerEventCallback HandleConnectionEvent e arr created f lp =
     (if f = -1 then Abort
      else if \<not> created then Ret (True, lp)
      else
        let (bev, lp) = bufferevent_new e lp;
            (c, lp) = new_Connection arr f lp;
            lp = bufferevent_setcb bev c lp
        in run_bind (SetBuffer c bev lp) (\<lambda>lp.
           run_bind (HandleConnectionEvent c lp) (\<lambda>lp. Ret (False, lp))))"

text \<open>
  \<open>TcpEventClient::StartRun\<close> up to the event loop; \<open>connected\<close> is the outcome of
  \<open>bufferevent_socket_connect\<close>, \<open>f\<close> the descriptor.
\<close>

definition tcp_client_StartRun ::
    "(nat \<Rightarrow> ('b, 'u) loop \<Rightarrow> ('b, 'u) loop run) \<Rightarrow> 'b \<Rightarrow> u8 list \<Rightarrow> bool \<Rightarrow> int \<Rightarrow> ('b, 'u) loop \<Rightarrow> ('b, 'u) loop run" where
  "tcp_client_StartRun HandleConnectionEvent e arr connected f lp =
     (let (c, lp) = new_Connection arr (-1) lp; lp = lp\<lparr>lp_conn := Some c\<rparr>;
          (bev, lp) = bufferevent_new e lp; lp = bufferevent_setcb bev c lp
      in if \<not> connected then Abort
         else run_bind (SetFd c f lp) (\<lambda>lp. run_bind (SetBuffer c bev lp) (HandleConnectionEvent c)))"

text \<open>
  \<open>TcpEventServer::StartRun\<close>: \<open>can_listen\<close> tells whether the port could be listened on, \<open>dispatch\<close> is the
  event loop.  The port is a 16-bit signed number, and -1 stands for not listening.
\<close>

definition tcp_server_StartRun ::
    "(16 word \<Rightarrow> bool) \<Rightarrow> (bool \<Rightarrow> 's \<Rightarrow> 's run) \<Rightarrow> 16 word \<Rightarrow> 's \<Rightarrow> (bool \<times> 's) run" where
  "tcp_server_StartRun can_listen dispatch port s =
     (if sint port \<noteq> -1 then
        if \<not> can_listen port then Abort
        else run_bind (dispatch True s) (\<lambda>s. Ret (True, s))
      else run_bind (dispatch False s) (\<lambda>s. Ret (True, s)))"

section \<open>The event base and destruction\<close>

text \<open>The event base of a notifier: whether it is allocated, and whether its loop was told to end.\<close>

record event_base =
  eb_live :: bool
  eb_exit :: bool

definition new_EventNotifier :: event_base where
  "new_EventNotifier = \<lparr>eb_live = True, eb_exit = False\<rparr>"

definition delete_EventNotifier :: "event_base \<Rightarrow> event_base run" where
  "delete_EventNotifier b = (if eb_live b then Ret (b\<lparr>eb_live := False\<rparr>) else Fault)"

definition EventNotifier_StopRun :: "event_base \<Rightarrow> (bool \<times> event_base) run" where
  "EventNotifier_StopRun b = (if eb_live b then Ret (True, b\<lparr>eb_exit := True\<rparr>) else Fault)"

definition delete_TcpEventServer :: "event_base \<Rightarrow> event_base run" where
  "delete_TcpEventServer b = run_bind (EventNotifier_StopRun b) (\<lambda>(_, b). delete_EventNotifier b)"

text \<open>The destructor of the client, with its members \<open>buffer_event_\<close> and \<open>conn_\<close> (\<open>lp_conn\<close>).\<close>

definition delete_TcpEventClient :: "nat option \<Rightarrow> event_base \<Rightarrow> ('b, 'u) loop \<Rightarrow> (event_base \<times> ('b, 'u) loop) run" where
  "delete_TcpEventClient buffer_event b lp =
     run_bind (case buffer_event of None \<Rightarrow> Ret lp | Some bev \<Rightarrow> bufferevent_free bev lp) (\<lambda>lp.
     run_bind (case lp_conn lp of None \<Rightarrow> Ret lp | Some c \<Rightarrow> DeleteConnection c lp) (\<lambda>lp.
     run_bind (delete_EventNotifier b) (\<lambda>b. Ret (b, lp))))"

section \<open>Signal and timer events\<close>

text \<open>
  \<open>evsignal_new\<close>, \<open>event_add\<close>, \<open>event_del\<close> are libevent's, over its state \<open>'e\<close>; an event is a number.
\<close>

record 'e event_api =
  ea_signal_new :: "int \<Rightarrow> 'e \<Rightarrow> nat option \<times> 'e"
  ea_timer_new :: "bool \<Rightarrow> 'e \<Rightarrow> nat \<times> 'e"
  ea_add :: "nat \<Rightarrow> 'e \<Rightarrow> int \<times> 'e"
  ea_del :: "nat option \<Rightarrow> 'e \<Rightarrow> int \<times> 'e"
  ea_delete :: "nat \<Rightarrow> 'e \<Rightarrow> 'e"

type_synonym 'e signals = "(int \<Rightarrow> nat option) \<times> 'e"

text \<open>\<open>DeleteSignalEvent\<close> reads the iterator after erasing the element it points to.\<close>

definition DeleteSignalEvent :: "'e event_api \<Rightarrow> int \<Rightarrow> 'e signals \<Rightarrow> (bool \<times> 'e signals) run" where
  "DeleteSignalEvent api sig s =
     (case fst s sig of
        None \<Rightarrow> Ret (False, s)
      | Some ev \<Rightarrow> Fault)"

definition AddSignalEvent :: "'e event_api \<Rightarrow> int \<Rightarrow> 'e signals \<Rightarrow> (bool \<times> 'e signals) run" where
  "AddSignalEvent api sig s =
     (case ea_signal_new api sig (snd s) of
        (None, e) \<Rightarrow> Ret (False, fst s, snd (ea_del api None e))
      | (Some ev, e) \<Rightarrow>
          (case ea_add api ev e of (r, e) \<Rightarrow>
             if r < 0 then Ret (False, fst s, snd (ea_del api (Some ev) e))
             else run_bind (DeleteSignalEvent api sig (fst s, e)) (\<lambda>(_, evs, e).
                    Ret (True, evs(sig \<mapsto> ev), e))))"

definition AddTimerEvent :: "'e event_api \<Rightarrow> bool \<Rightarrow> 'e \<Rightarrow> nat option \<times> 'e" where
  "AddTimerEvent api once e =
     (case ea_timer_new api (\<not> once) e of (ev, e) \<Rightarrow>
        case ea_add api ev e of (r, e) \<Rightarrow>
          if r < 0 then (None, snd (ea_del api (Some ev) e)) else (Some ev, e))"

definition DeleteTimerEvent :: "'e event_api \<Rightarrow> nat option \<Rightarrow> 'e \<Rightarrow> bool \<times> 'e" where
  "DeleteTimerEvent api ev e =
     (case ev of
        None \<Rightarrow> (False, e)
      | Some v \<Rightarrow> (case ea_del api ev e of (r, e) \<Rightarrow> (r = 0, ea_delete api v e)))"

end
