(* ===== verification/Event_Proof.thy ===== *)
theory Event_Proof
  imports Event_Notifier Exchange
begin

text \<open>
  The life of connections: in the server every live bufferevent and every live connection belong to each
  other, whatever events occur; in the client the pointer \<open>conn_\<close> outlives the connection.
\<close>

section \<open>Handlers that keep the objects\<close>

text \<open>What the pairing depends on: which buffers each connection points to, and whom each bufferevent calls.\<close>

definition conns_of :: "('b, 'u) loop \<Rightarrow> nat \<Rightarrow> nat option option" where
  "conns_of lp c = map_option co_bufs (lp_conns lp c)"

definition bevs_of :: "('b, 'u) loop \<Rightarrow> nat \<Rightarrow> nat option option" where
  "bevs_of lp b = map_option be_arg (lp_bevs lp b)"

definition objects :: "('b, 'u) loop \<Rightarrow> (nat \<Rightarrow> nat option option) \<times> (nat \<Rightarrow> nat option option) \<times> nat" where
  "objects lp = (conns_of lp, bevs_of lp, lp_next lp)"

fun paired :: "(nat \<Rightarrow> nat option option) \<times> (nat \<Rightarrow> nat option option) \<times> nat \<Rightarrow> bool" where
  "paired (conns, bevs, nxt) \<longleftrightarrow>
     (\<forall>b x. bevs b = Some x \<longrightarrow> (\<exists>c. x = Some c \<and> conns c = Some (Some b))) \<and>
     (\<forall>c y. conns c = Some y \<longrightarrow> (\<exists>b. y = Some b \<and> bevs b = Some (Some c))) \<and>
     (\<forall>n\<ge>nxt. conns n = None \<and> bevs n = None)"

lemma paired_new: "paired (conns, bevs, n) \<Longrightarrow> paired (conns(Suc n \<mapsto> Some n), bevs(n \<mapsto> Some (Suc n)), Suc (Suc n))"
  by (auto split: if_splits) (metis le_refl option.distinct(1) Suc_leD)+

lemma paired_free: "paired (conns, bevs, n) \<Longrightarrow> bevs b = Some (Some c) \<Longrightarrow> paired (conns(c := None), bevs(b := None), n)"
  by auto (metis option.inject)+

lemma paired_conn:
  assumes "paired (objects lp)" "lp_bevs lp b = Some be" "be_arg be = Some c"
  obtains co where "lp_conns lp c = Some co" "co_bufs co = Some b"
proof -
  have "bevs_of lp b = Some (Some c)" using assms(2,3) by (simp add: bevs_of_def)
  then have "conns_of lp c = Some (Some b)" using assms(1) by (auto simp: objects_def)
  then show thesis using that by (auto simp: conns_of_def)
qed

lemma objects_eqI:
  "(\<And>c. conns_of lp' c = conns_of lp c) \<Longrightarrow> (\<And>b. bevs_of lp' b = bevs_of lp b) \<Longrightarrow> lp_next lp' = lp_next lp \<Longrightarrow> objects lp' = objects lp"
  by (simp add: objects_def fun_eq_iff)

lemma objects_store [simp]: "objects (store_conn c k lp) = objects lp"
  by (rule objects_eqI) (auto simp: conns_of_def bevs_of_def store_conn_def split: option.splits)

lemma objects_user [simp]: "objects (lp\<lparr>lp_user := u\<rparr>) = objects lp"
  by (rule objects_eqI) (simp_all add: conns_of_def bevs_of_def)

locale handler_contract =
  fixes handle :: "nat \<Rightarrow> ('b, 'u) loop \<Rightarrow> ('b, 'u) loop run"
  assumes keeps: "handle c lp = Ret lp' \<Longrightarrow> objects lp' = objects lp"

section \<open>The server's loop\<close>

inductive server_step ::
    "'b evbuffer_api \<Rightarrow> (nat \<Rightarrow> ('b, 'u) loop \<Rightarrow> ('b, 'u) loop run) \<Rightarrow> 'b \<Rightarrow> ('b, 'u) loop \<Rightarrow> ('b, 'u) loop \<Rightarrow> bool"
  for api handle e where
  accept: "ListenerEventCallback (\<lambda>_. Ret) e arr created f lp = Ret (brk, lp') \<Longrightarrow> server_step api handle e lp lp'"
| readable: "lp_bevs lp b = Some be \<Longrightarrow> be_arg be = Some c \<Longrightarrow>
    ReadEventCallback api handle b c (lp\<lparr>lp_bevs := (lp_bevs lp)(b \<mapsto> be\<lparr>be_input := i\<rparr>)\<rparr>) = Ret lp' \<Longrightarrow>
    server_step api handle e lp lp'"
| writable: "lp_bevs lp b = Some be \<Longrightarrow> be_arg be = Some c \<Longrightarrow>
    WriteEventCallback (\<lambda>_. Ret) b c (lp\<lparr>lp_bevs := (lp_bevs lp)(b \<mapsto> be\<lparr>be_output := i\<rparr>)\<rparr>) = Ret lp' \<Longrightarrow>
    server_step api handle e lp lp'"
| closing: "lp_bevs lp b = Some be \<Longrightarrow> be_arg be = Some c \<Longrightarrow>
    BufferEventCallback (\<lambda>_ _. Ret) b evs c lp = Ret lp' \<Longrightarrow> server_step api handle e lp lp'"

inductive server_reachable ::
    "'b evbuffer_api \<Rightarrow> (nat \<Rightarrow> ('b, 'u) loop \<Rightarrow> ('b, 'u) loop run) \<Rightarrow> 'b \<Rightarrow> ('b, 'u) loop \<Rightarrow> bool"
  for api handle e where
  start: "lp_conns lp = Map.empty \<Longrightarrow> lp_bevs lp = Map.empty \<Longrightarrow> server_reachable api handle e lp"
| step: "server_reachable api handle e lp \<Longrightarrow> server_step api handle e lp lp' \<Longrightarrow> server_reachable api handle e lp'"

lemma run_bind_cases: "run_bind m f = Fault \<longleftrightarrow> m = Fault \<or> (\<exists>x. m = Ret x \<and> f x = Fault)"
  by (cases m) auto

text \<open>What each callback does to the objects.\<close>

lemma objects_SetBuffer:
  assumes "paired (objects lp)" "lp_bevs lp b = Some be" "be_arg be = Some c"
  obtains lp' where "SetBuffer c b lp = Ret lp'" "objects lp' = objects lp" "load_conn c lp' \<noteq> None"
proof -
  obtain co where co: "lp_conns lp c = Some co" "co_bufs co = Some b" by (rule paired_conn [OF assms])
  let ?lp = "lp\<lparr>lp_conns := (lp_conns lp)(c \<mapsto> co\<lparr>co_bufs := Some b\<rparr>)\<rparr>"
  show thesis
  proof (rule that)
    show "SetBuffer c b lp = Ret ?lp" using assms(2) co by (simp add: SetBuffer_def)
    show "objects ?lp = objects lp" using co by (intro objects_eqI) (simp_all add: conns_of_def bevs_of_def)
    show "load_conn c ?lp \<noteq> None" using assms(2) by (simp add: load_conn_def)
  qed
qed

lemma objects_input:
  assumes "lp_bevs lp b = Some be" "be_arg be' = be_arg be"
  shows "objects (lp\<lparr>lp_bevs := (lp_bevs lp)(b \<mapsto> be')\<rparr>) = objects lp"
  using assms by (intro objects_eqI) (simp_all add: conns_of_def bevs_of_def)

lemma on_connection_loaded:
  assumes "load_conn c lp \<noteq> None"
  obtains x lp' where "on_connection c f lp = Ret (x, lp')" "objects lp' = objects lp" "load_conn c lp' \<noteq> None"
proof -
  obtain k where k: "load_conn c lp = Some k" using assms by blast
  obtain x k' where f: "f k = (x, k')" by fastforce
  have "load_conn c (store_conn c k' lp) \<noteq> None"
    using k by (auto simp: load_conn_def store_conn_def split: option.splits)
  then show thesis using that [of x "store_conn c k' lp"] k f by (simp add: on_connection_def)
qed

lemma read_event:
  assumes "paired (objects lp)" "lp_bevs lp b = Some be" "be_arg be = Some c"
  obtains lp1 where "objects lp1 = objects lp" "load_conn c lp1 \<noteq> None"
    "ReadEventCallback api handle b c (lp\<lparr>lp_bevs := (lp_bevs lp)(b \<mapsto> be\<lparr>be_input := i\<rparr>)\<rparr>) \<in> {Ret lp1, handle c lp1}"
proof -
  let ?lp = "lp\<lparr>lp_bevs := (lp_bevs lp)(b \<mapsto> be\<lparr>be_input := i\<rparr>)\<rparr>"
  have o: "objects ?lp = objects lp" by (rule objects_input [OF assms(2)]) simp
  have p: "paired (objects ?lp)" "lp_bevs ?lp b = Some (be\<lparr>be_input := i\<rparr>)" "be_arg (be\<lparr>be_input := i\<rparr>) = Some c"
    using assms o by simp_all
  obtain lp1 where 1: "SetBuffer c b ?lp = Ret lp1" "objects lp1 = objects ?lp" "load_conn c lp1 \<noteq> None"
    by (rule objects_SetBuffer [OF p])
  obtain got lp2 where 2: "on_connection c (RecvNetMessage api) lp1 = Ret (got, lp2)" "objects lp2 = objects lp1" "load_conn c lp2 \<noteq> None"
    by (rule on_connection_loaded [OF 1(3)])
  show thesis
    by (rule that [of lp2]) (use 1 2 o in \<open>simp_all add: ReadEventCallback_def\<close>)
qed

lemma write_event:
  assumes "paired (objects lp)" "lp_bevs lp b = Some be" "be_arg be = Some c"
  obtains lp1 where "objects lp1 = objects lp"
    "WriteEventCallback (\<lambda>_. Ret) b c (lp\<lparr>lp_bevs := (lp_bevs lp)(b \<mapsto> be\<lparr>be_output := i\<rparr>)\<rparr>) = Ret lp1"
proof -
  let ?lp = "lp\<lparr>lp_bevs := (lp_bevs lp)(b \<mapsto> be\<lparr>be_output := i\<rparr>)\<rparr>"
  have o: "objects ?lp = objects lp" by (rule objects_input [OF assms(2)]) simp
  have p: "paired (objects ?lp)" "lp_bevs ?lp b = Some (be\<lparr>be_output := i\<rparr>)" "be_arg (be\<lparr>be_output := i\<rparr>) = Some c"
    using assms o by simp_all
  obtain lp1 where "SetBuffer c b ?lp = Ret lp1" "objects lp1 = objects ?lp"
    by (rule objects_SetBuffer [OF p])
  then show thesis by (intro that [of lp1]) (simp_all add: WriteEventCallback_def o)
qed

lemma buffer_event:
  assumes "paired (objects lp)" "lp_bevs lp b = Some be" "be_arg be = Some c"
  obtains lp1 where "BufferEventCallback (\<lambda>_ _. Ret) b evs c lp = Ret lp1" "paired (objects lp1)"
proof -
  obtain co where co: "lp_conns lp c = Some co" by (rule paired_conn [OF assms])
  let ?lp = "lp\<lparr>lp_bevs := (lp_bevs lp)(b := None), lp_conns := (lp_conns lp)(c := None)\<rparr>"
  have "bevs_of lp b = Some (Some c)" using assms(2,3) by (simp add: bevs_of_def)
  then have "paired ((conns_of lp)(c := None), (bevs_of lp)(b := None), lp_next lp)"
    using assms(1) unfolding objects_def by (rule paired_free [rotated])
  moreover have "conns_of ?lp = (conns_of lp)(c := None)" "bevs_of ?lp = (bevs_of lp)(b := None)"
    by (simp_all add: conns_of_def bevs_of_def fun_eq_iff)
  ultimately have "paired (objects ?lp)" by (simp only: objects_def) simp
  then show thesis
    using that [of lp] that [of ?lp] assms co
    by (cases "evs AND (BEV_EVENT_ERROR OR BEV_EVENT_EOF) = 0")
      (simp_all add: BufferEventCallback_def bufferevent_free_def DeleteConnection_def del: paired.simps)
qed

lemma accept_event:
  assumes "paired (objects lp)" "ListenerEventCallback (\<lambda>_. Ret) e arr created f lp = Ret (brk, lp')"
  shows "paired (objects lp')"
proof (cases created)
  case True
  let ?n = "lp_next lp"
  have "conns_of lp' = (conns_of lp)(Suc ?n \<mapsto> Some ?n)" "bevs_of lp' = (bevs_of lp)(?n \<mapsto> Some (Suc ?n))"
    "lp_next lp' = Suc (Suc ?n)"
    using assms(2) True
    by (auto simp: ListenerEventCallback_def bufferevent_new_def new_Connection_def bufferevent_setcb_def SetBuffer_def
        conns_of_def bevs_of_def fun_eq_iff Let_def split: if_splits)
  then show ?thesis using paired_new [of "conns_of lp" "bevs_of lp" ?n] assms(1) unfolding objects_def by simp
next
  case False
  then show ?thesis using assms by (auto simp: ListenerEventCallback_def split: if_splits)
qed

context handler_contract begin

lemma step_paired: "server_step api handle e lp lp' \<Longrightarrow> paired (objects lp) \<Longrightarrow> paired (objects lp')"
proof (induction rule: server_step.induct)
  case (accept arr created f lp brk lp')
  show ?case by (rule accept_event [OF accept(2,1)])
next
  case (readable lp b be c i lp')
  obtain lp1 where "objects lp1 = objects lp"
    "ReadEventCallback api handle b c (lp\<lparr>lp_bevs := (lp_bevs lp)(b \<mapsto> be\<lparr>be_input := i\<rparr>)\<rparr>) \<in> {Ret lp1, handle c lp1}"
    by (rule read_event [OF readable(4,1,2)])
  then have "lp' = lp1 \<or> handle c lp1 = Ret lp'" "objects lp1 = objects lp" using readable(3) by auto
  then show ?case using keeps readable(4) by metis
next
  case (writable lp b be c i lp')
  obtain lp1 where "objects lp1 = objects lp"
    "WriteEventCallback (\<lambda>_. Ret) b c (lp\<lparr>lp_bevs := (lp_bevs lp)(b \<mapsto> be\<lparr>be_output := i\<rparr>)\<rparr>) = Ret lp1"
    by (rule write_event [OF writable(4,1,2)])
  then show ?case using writable(3,4) by simp
next
  case (closing lp b be c evs lp')
  obtain lp1 where "BufferEventCallback (\<lambda>_ _. Ret) b evs c lp = Ret lp1" "paired (objects lp1)"
    by (rule buffer_event [OF closing(4,1,2)])
  then show ?case using closing(3) by simp
qed

lemma reachable_paired: "server_reachable api handle e lp \<Longrightarrow> paired (objects lp)"
proof (induction rule: server_reachable.induct)
  case (start lp)
  then show ?case by (simp add: objects_def conns_of_def bevs_of_def)
next
  case (step lp lp')
  then show ?case using step_paired by blast
qed

end

section \<open>The server's handler\<close>

text \<open>\<open>StpServer::HandleReadEvent\<close> on a connection of the heap.\<close>

definition server_loop_handler ::
    "('b, 'os, 'db) services \<Rightarrow> int \<times> int \<Rightarrow> nat \<Rightarrow> ('b, ('b, 'os, 'db) server) loop \<Rightarrow> ('b, ('b, 'os, 'db) server) loop run" where
  "server_loop_handler sv now c lp =
     (case load_conn c lp of
        None \<Rightarrow> Fault
      | Some k \<Rightarrow>
          run_bind (server_HandleReadEvent sv now ((lp_user lp)\<lparr>s_conn := k\<rparr>)) (\<lambda>s.
            Ret ((store_conn c (s_conn s) lp)\<lparr>lp_user := s\<rparr>)))"

interpretation server_loop: handler_contract "server_loop_handler sv now" for sv now
  by unfold_locales (auto simp: server_loop_handler_def run_bind_Ret_iff split: option.splits)

text \<open>
  C10. In the server no connection leaks and none dangles: in every state the event loop reaches, whatever
  clients connect, send, and close or break off, every live bufferevent calls back with a live connection
  whose buffers are that bufferevent's, and every live connection has such a bufferevent.
\<close>

theorem server_connections_paired:
  assumes "server_reachable api (server_loop_handler sv now) e lp"
  shows "(lp_bevs lp b = Some be \<longrightarrow> (\<exists>c co. be_arg be = Some c \<and> lp_conns lp c = Some co \<and> co_bufs co = Some b))
    \<and> (lp_conns lp c = Some co \<longrightarrow> (\<exists>b be. co_bufs co = Some b \<and> lp_bevs lp b = Some be \<and> be_arg be = Some c))"
proof -
  have p: "paired (objects lp)" by (rule server_loop.reachable_paired [OF assms])
  have "bevs_of lp b = Some x \<Longrightarrow> \<exists>c. x = Some c \<and> conns_of lp c = Some (Some b)"
    "conns_of lp c = Some y \<Longrightarrow> \<exists>b. y = Some b \<and> bevs_of lp b = Some (Some c)" for x y b c
    using p unfolding objects_def by simp_all
  then show ?thesis by (fastforce simp: bevs_of_def conns_of_def)
qed

definition empty_loop :: "'u \<Rightarrow> ('b, 'u) loop" where
  "empty_loop u = \<lparr>lp_conns = Map.empty, lp_bevs = Map.empty, lp_next = 0, lp_conn = None, lp_user = u\<rparr>"

text \<open>The loop after one client connected.\<close>

definition one_client :: "'u \<Rightarrow> (u8 list, 'u) loop" where
  "one_client u = (empty_loop u)\<lparr>lp_conns := [1 \<mapsto> \<lparr>co_fd = 9, co_bufs = Some 0, co_list = [], co_arr = replicate 1024 0\<rparr>],
     lp_bevs := [0 \<mapsto> \<lparr>be_input = [], be_output = [], be_arg = Some 1\<rparr>], lp_next := 2\<rparr>"

lemma one_client_reachable: "server_reachable api handle [] (one_client u)"
proof (rule server_reachable.step)
  show "server_reachable api handle [] (empty_loop u)" by (rule server_reachable.start) (simp_all add: empty_loop_def)
  have "ListenerEventCallback (\<lambda>_. Ret) [] (replicate 1024 0) True 9 (empty_loop u) = Ret (False, one_client u)"
    by (simp add: ListenerEventCallback_def bufferevent_new_def new_Connection_def bufferevent_setcb_def SetBuffer_def
        empty_loop_def one_client_def)
  then show "server_step api handle [] (empty_loop u) (one_client u)" by (rule server_step.accept)
qed

theorem server_connections_paired_witness:
  "\<exists>c co. be_arg (\<lparr>be_input = [], be_output = [], be_arg = Some 1\<rparr> :: u8 list bufferevent) = Some c
     \<and> lp_conns (one_client demo_server) c = Some co \<and> co_bufs co = Some 0"
  using server_connections_paired [OF one_client_reachable [of list_evbuffer "server_loop_handler (demo_services True) (1000, 1000)" demo_server],
      of 0 "\<lparr>be_input = [], be_output = [], be_arg = Some 1\<rparr>" 1]
  by (simp add: one_client_def)



section \<open>The client's loop\<close>

text \<open>A timer callback of the client: it uses the connection that \<open>conn_\<close> points to.\<close>

definition client_loop_timer ::
    "(('b, 'os) client \<Rightarrow> ('b, 'os) client run) \<Rightarrow> ('b, ('b, 'os) client) loop \<Rightarrow> ('b, ('b, 'os) client) loop run" where
  "client_loop_timer callback lp =
     run_bind (callback ((lp_user lp)\<lparr>c_conn := Option.bind (lp_conn lp) (\<lambda>c. load_conn c lp)\<rparr>)) (\<lambda>s.
       Ret ((case (lp_conn lp, c_conn s) of (Some c, Some k) \<Rightarrow> store_conn c k lp | _ \<Rightarrow> lp)\<lparr>lp_user := s\<rparr>))"

lemma client_send_fault:
  assumes "wire_laws (cs_wire cs)" "c_conn s = None" "length (c_buf s) = sizeof_buf" "length (message_bytes (cs_wire cs) m) \<le> 1900"
  shows "client_send cs m s = Fault"
proof -
  let ?e = "Request_Serialize (cs_wire cs) (envelope (cs_wire cs) m)"
  obtain buf where "SerializeToArray (cs_wire cs) m (c_buf s) sizeof_buf = Ret (True, buf, length ?e)"
    by (rule serialize_fits [OF assms(1), of m sizeof_buf "c_buf s"]) (use assms(3,4) in \<open>simp_all add: sizeof_buf_def\<close>)
  then show ?thesis using assms(2) by (simp add: client_send_def)
qed

lemma ping_length: "length (message_bytes api (MsgC2SPing C2S_Ping_default)) \<le> 1900"
  by (simp add: C2S_Ping_Serialize_def C2S_Ping_default_def)

lemma client_started:
  assumes "tcp_client_StartRun (\<lambda>_. Ret) e arr True f lp0 = Ret lp1" "lp_bevs lp0 = Map.empty"
  shows "lp_conn lp1 = Some (lp_next lp0)" "lp_bevs lp1 = [Suc (lp_next lp0) \<mapsto> \<lparr>be_input = e, be_output = e, be_arg = Some (lp_next lp0)\<rparr>]"
    "lp_conns lp1 = (lp_conns lp0)(lp_next lp0 \<mapsto> \<lparr>co_fd = f, co_bufs = Some (Suc (lp_next lp0)), co_list = [], co_arr = arr\<rparr>)"
    "lp_user lp1 = lp_user lp0"
  using assms by (auto simp: tcp_client_StartRun_def new_Connection_def bufferevent_new_def bufferevent_setcb_def
      SetFd_def SetBuffer_def Let_def)

text \<open>
  C38. The client uses its connection after it was deleted: once started, its timers work; after the server
  closed the connection or it broke (the only bufferevent reports \<open>BEV_EVENT_EOF\<close> or
  \<open>BEV_EVENT_ERROR\<close>), the next heartbeat and the next request both follow the dangling \<open>conn_\<close>, and the
  destructor, which works before that, frees the bufferevent a second time.
\<close>

theorem client_timer_after_close:
  assumes "tcp_client_StartRun (\<lambda>_. Ret) e arr True f lp0 = Ret lp1" "lp_bevs lp0 = Map.empty"
    and "lp_bevs lp1 bev = Some be" "be_arg be = Some c" "evs AND (BEV_EVENT_ERROR OR BEV_EVENT_EOF) \<noteq> 0"
    and "BufferEventCallback (\<lambda>_ _. Ret) bev evs c lp1 = Ret lp2"
    and "evbuffer_laws (cs_evbuffer cs) bytes" "adds (cs_evbuffer cs)" "wire_laws (cs_wire cs)"
    and "length (c_buf (lp_user lp0)) = sizeof_buf"
  shows "(\<exists>lp. client_loop_timer (TimerHeartBeatCallback cs) lp1 = Ret lp)
    \<and> client_loop_timer (TimerHeartBeatCallback cs) lp2 = Fault
    \<and> client_loop_timer (CryptoNegotiateCallback cs) lp2 = Fault
    \<and> (\<exists>lp. delete_TcpEventClient (Some bev) new_EventNotifier lp1 = Ret lp)
    \<and> delete_TcpEventClient (Some bev) new_EventNotifier lp2 = Fault"
proof (intro conjI)
  note st = client_started [OF assms(1,2)]
  have bev: "bev = Suc (lp_next lp0)" "c = lp_next lp0" using assms(3,4) st(2) by (auto split: if_splits)
  show "\<exists>lp. delete_TcpEventClient (Some bev) new_EventNotifier lp1 = Ret lp"
    using st bev by (simp add: delete_TcpEventClient_def bufferevent_free_def DeleteConnection_def delete_EventNotifier_def new_EventNotifier_def)
  obtain k where "load_conn (lp_next lp0) lp1 = Some k" using st by (simp add: load_conn_def)
  then have k: "c_conn ((lp_user lp1)\<lparr>c_conn := Option.bind (lp_conn lp1) (\<lambda>c. load_conn c lp1)\<rparr>) = Some k"
    using st(1) by simp
  obtain s where "TimerHeartBeatCallback cs ((lp_user lp1)\<lparr>c_conn := Option.bind (lp_conn lp1) (\<lambda>c. load_conn c lp1)\<rparr>) = Ret s"
    unfolding TimerHeartBeatCallback_def
    by (rule client_sends [OF assms(7-9) k _ ping_length]) (use st(4) assms(10) in simp_all)
  then show "\<exists>lp. client_loop_timer (TimerHeartBeatCallback cs) lp1 = Ret lp" by (simp add: client_loop_timer_def)
  have lp2: "lp2 = lp1\<lparr>lp_bevs := (lp_bevs lp1)(bev := None), lp_conns := (lp_conns lp1)(c := None)\<rparr>"
    using assms(5,6) st bev by (auto simp: BufferEventCallback_def bufferevent_free_def DeleteConnection_def split: if_splits)
  show "delete_TcpEventClient (Some bev) new_EventNotifier lp2 = Fault"
    by (simp add: lp2 delete_TcpEventClient_def bufferevent_free_def)
  have gone: "Option.bind (lp_conn lp2) (\<lambda>c. load_conn c lp2) = None"
    using st(1) bev by (simp add: lp2 load_conn_def)
  have buf: "length (c_buf (lp_user lp2)) = sizeof_buf" using st(4) assms(10) by (simp add: lp2)
  show "client_loop_timer (TimerHeartBeatCallback cs) lp2 = Fault"
    using client_send_fault [OF assms(9) _ _ ping_length] buf by (simp add: client_loop_timer_def TimerHeartBeatCallback_def gone)
  have "length (message_bytes (cs_wire cs) (client_request cs)) \<le> 1900"
    using client_request_length [OF assms(9), of cs] by simp
  then show "client_loop_timer (CryptoNegotiateCallback cs) lp2 = Fault"
    using client_send_fault [OF assms(9), of _ "client_request cs"] buf
    by (simp add: client_loop_timer_def CryptoNegotiateCallback_def gone client_request_def)
qed

definition fresh_client :: "(u8 list, (u8 list, unit) client) loop" where
  "fresh_client = empty_loop (demo_client\<lparr>c_conn := None\<rparr>)"

theorem client_timer_after_close_witness:
  "\<exists>lp1 lp2. tcp_client_StartRun (\<lambda>_. Ret) [] (replicate 1024 0) True 9 fresh_client = Ret lp1
    \<and> BufferEventCallback (\<lambda>_ _. Ret) 1 0x10 0 lp1 = Ret lp2
    \<and> client_loop_timer (TimerHeartBeatCallback demo_client_services) lp2 = Fault"
proof -
  let ?be = "\<lparr>be_input = [], be_output = [], be_arg = Some 0\<rparr> :: u8 list bufferevent"
  let ?lp1 = "fresh_client\<lparr>lp_conns := [0 \<mapsto> \<lparr>co_fd = 9, co_bufs = Some 1, co_list = [], co_arr = replicate 1024 0\<rparr>],
     lp_bevs := [1 \<mapsto> ?be], lp_next := 2, lp_conn := Some 0\<rparr>"
  let ?lp2 = "?lp1\<lparr>lp_bevs := Map.empty, lp_conns := Map.empty\<rparr>"
  have 1: "tcp_client_StartRun (\<lambda>_. Ret) [] (replicate 1024 0) True 9 fresh_client = Ret ?lp1"
    by (simp add: tcp_client_StartRun_def new_Connection_def bufferevent_new_def bufferevent_setcb_def SetFd_def SetBuffer_def
        fresh_client_def empty_loop_def)
  have 2: "BufferEventCallback (\<lambda>_ _. Ret) 1 0x10 0 ?lp1 = Ret ?lp2"
    by (simp add: BufferEventCallback_def BEV_EVENT_ERROR_def BEV_EVENT_EOF_def bufferevent_free_def DeleteConnection_def)
  have "lp_bevs fresh_client = Map.empty" "lp_bevs ?lp1 1 = Some ?be" "be_arg ?be = Some 0"
    "(0x10 :: 16 word) AND (BEV_EVENT_ERROR OR BEV_EVENT_EOF) \<noteq> 0"
    by (simp_all add: fresh_client_def empty_loop_def BEV_EVENT_ERROR_def BEV_EVENT_EOF_def)
  from client_timer_after_close [OF 1 this 2, of demo_client_services "\<lambda>b. b"]
  have "client_loop_timer (TimerHeartBeatCallback demo_client_services) ?lp2 = Fault"
    using list_evbuffer_laws list_evbuffer_adds proto_wire_laws demo_fields(1,2,6)
    by (simp add: fresh_client_def empty_loop_def demo_client_def)
  then show ?thesis using 1 2 by blast
qed

section \<open>Signals and the port\<close>

text \<open>
  A signal's handler cannot be replaced: registering one for a signal that already has an event
  reads the erased map element, whatever libevent answers, unless the new event could not be added.
\<close>

theorem replacing_signal_faults:
  assumes "evs sig = Some old" "ea_signal_new api sig e = (Some ev, e1)" "ea_add api ev e1 = (r, e2)"
  shows "AddSignalEvent api sig (evs, e) = Fault \<longleftrightarrow> 0 \<le> r"
  using assms by (simp add: AddSignalEvent_def DeleteSignalEvent_def)

definition counting_events :: "nat event_api" where
  "counting_events = \<lparr>ea_signal_new = (\<lambda>_ n. (Some n, Suc n)), ea_timer_new = (\<lambda>_ n. (n, Suc n)),
     ea_add = (\<lambda>_ n. (0, n)), ea_del = (\<lambda>_ n. (0, n)), ea_delete = (\<lambda>_ n. n)\<rparr>"

theorem replacing_signal_faults_witness: "AddSignalEvent counting_events 12 ([12 \<mapsto> 0], 1) = Fault"
  using replacing_signal_faults [of "[12 \<mapsto> 0]" 12 0 counting_events 1 1 2 0 2] by (simp add: counting_events_def)

text \<open>
  The port 65535 means no port: when the configuration file gives \<open>svr_port\<close> 65535, the server runs its
  event loop without listening anywhere and reports success; for any other port up to 65534 it listens
  or ends the process.
\<close>

theorem port_65535_never_listens:
  assumes "svr_ParseProfile (Some doc) cfg = Some (True, cfg')" "GetInteger doc (str ''svr_port'') 9999 = Some p" "0 \<le> p" "p < 2 ^ 16"
  shows "tcp_server_StartRun can_listen dispatch (svr_port cfg') s =
    (if p = 65535 then run_bind (dispatch False s) (\<lambda>s. Ret (True, s))
     else if can_listen (svr_port cfg') then run_bind (dispatch True s) (\<lambda>s. Ret (True, s)) else Abort)"
proof -
  have port: "svr_port cfg' = word_of_int p"
    using assms(1,2) by (auto simp: svr_ParseProfile_def option_binds)
  have "sint (word_of_int p :: 16 word) = -1 \<longleftrightarrow> (word_of_int p :: 16 word) = -1" by (metis signed_minus_1 signed_word_eqI)
  also have "\<dots> \<longleftrightarrow> p = 65535"
  proof
    assume "(word_of_int p :: 16 word) = -1"
    then have "uint (word_of_int p :: 16 word) = uint (-1 :: 16 word)" by simp
    then show "p = 65535" using assms(3,4) by (simp add: uint_word_of_int_eq take_bit_int_eq_self unsigned_minus_1_eq_mask mask_eq_exp_minus_1)
  qed simp
  finally show ?thesis by (auto simp: tcp_server_StartRun_def port)
qed

lemma parse_port:
  "svr_ParseProfile (Some (ObjectValue [(str ''svr_port'', IntValue 65535)])) svr_config0 =
     Some (True, empty_document_config\<lparr>svr_port := 65535\<rparr>)"
  by (simp add: svr_ParseProfile_def GetInteger_def GetString_def get_member_def find_member_def asInt_def
      isInt_def minInt_def maxInt_def asCString_def empty_document_config_def str_def)

theorem port_65535_never_listens_witness:
  "tcp_server_StartRun (\<lambda>_. True) (\<lambda>listening n. if listening then Ret (n + 1) else Ret n)
     (svr_port (empty_document_config\<lparr>svr_port := 65535\<rparr>)) (0 :: nat) = Ret (True, 0)"
  using port_65535_never_listens [OF parse_port, of 65535 "\<lambda>_. True" "\<lambda>listening n. if listening then Ret (n + 1) else Ret n" "0 :: nat"]
  by (simp add: GetInteger_def get_member_def find_member_def asInt_def isInt_def minInt_def maxInt_def)

end
