(* ===== verification/Atomic_Counter.thy ===== *)
theory Atomic_Counter
  imports Prelude "HOL-Library.Multiset"
begin

text \<open>
  \<^verbatim>\<open>src/stputil/atomic.h\<close> (the gcc branch): a counter over gcc's atomic builtins, and threads that use one
  counter in any interleaving.

  The shared variable is a 64-bit word (\<open>long\<close> and \<open>unsigned long\<close> have the same bits); a builtin maps its
  value to a result and the new value in one step.
\<close>

section \<open>The builtins and AtomicIntegerT\<close>

type_synonym prim = "u64 \<Rightarrow> u64 \<times> u64"

definition sync_val_compare_and_swap :: "u64 \<Rightarrow> u64 \<Rightarrow> prim" where
  "sync_val_compare_and_swap old new v = (v, if v = old then new else v)"

definition sync_fetch_and_add :: "u64 \<Rightarrow> prim" where "sync_fetch_and_add x v = (v, v + x)"

definition sync_lock_test_and_set :: "u64 \<Rightarrow> prim" where "sync_lock_test_and_set x v = (v, x)"

definition AtomicIntegerT_value :: prim where "AtomicIntegerT_value = sync_val_compare_and_swap 0 0"

definition GetAndAdd :: "u64 \<Rightarrow> prim" where "GetAndAdd x = sync_fetch_and_add x"

definition AddAndGet :: "u64 \<Rightarrow> prim" where
  "AddAndGet x v = (case GetAndAdd x v of (r, v) \<Rightarrow> (r + x, v))"

definition IncrementAndGet :: prim where "IncrementAndGet = AddAndGet 1"
definition DecrementAndGet :: prim where "DecrementAndGet = AddAndGet (-1)"
definition AtomicIntegerT_Add :: "u64 \<Rightarrow> u64 \<Rightarrow> u64" where "AtomicIntegerT_Add x v = snd (GetAndAdd x v)"
definition Increment :: "u64 \<Rightarrow> u64" where "Increment v = snd (IncrementAndGet v)"
definition Decrement :: "u64 \<Rightarrow> u64" where "Decrement v = snd (DecrementAndGet v)"
definition GetAndSet :: "u64 \<Rightarrow> prim" where "GetAndSet x = sync_lock_test_and_set x"

section \<open>Atomic\<close>

text \<open>The operators, run without interference.  The postfix ones use the variable twice.\<close>

definition post_inc :: prim where
  "post_inc v = (case AtomicIntegerT_value v of (val, v) \<Rightarrow> (val, Increment v))"

definition pre_inc :: prim where "pre_inc = IncrementAndGet"

definition post_dec :: prim where
  "post_dec v = (case AtomicIntegerT_value v of (val, v) \<Rightarrow> (val, Decrement v))"

definition pre_dec :: prim where "pre_dec = DecrementAndGet"
definition Atomic_Add :: "u64 \<Rightarrow> prim" where "Atomic_Add x = GetAndAdd x"
definition Atomic_value :: prim where "Atomic_value = AtomicIntegerT_value"

section \<open>Interleavings\<close>

datatype atomic_op = PostInc | PreInc | PostDec | PreDec | AddOp u64 | ValueOp

text \<open>
  A thread is inside a postfix operator after its first builtin (\<open>Some (val, op)\<close>) or between operators;
  \<open>t_results\<close> are the results of the operators it finished, the latest first.
\<close>

record thread =
  t_mid :: "(u64 \<times> atomic_op) option"
  t_todo :: "atomic_op list"
  t_results :: "u64 list"

fun op_alone :: "atomic_op \<Rightarrow> prim" where
  "op_alone PostInc = post_inc"
| "op_alone PreInc = pre_inc"
| "op_alone PostDec = post_dec"
| "op_alone PreDec = pre_dec"
| "op_alone (AddOp x) = Atomic_Add x"
| "op_alone ValueOp = Atomic_value"

text \<open>One builtin of one thread.\<close>

definition thread_step :: "thread \<Rightarrow> u64 \<Rightarrow> thread \<times> u64" where
  "thread_step t v =
     (case t_mid t of
        Some (val, PostInc) \<Rightarrow> (t\<lparr>t_mid := None, t_results := val # t_results t\<rparr>, Increment v)
      | Some (val, _) \<Rightarrow> (t\<lparr>t_mid := None, t_results := val # t_results t\<rparr>, Decrement v)
      | None \<Rightarrow>
          (case t_todo t of
             [] \<Rightarrow> (t, v)
           | PostInc # ops \<Rightarrow> (case AtomicIntegerT_value v of (val, v) \<Rightarrow> (t\<lparr>t_mid := Some (val, PostInc), t_todo := ops\<rparr>, v))
           | PostDec # ops \<Rightarrow> (case AtomicIntegerT_value v of (val, v) \<Rightarrow> (t\<lparr>t_mid := Some (val, PostDec), t_todo := ops\<rparr>, v))
           | op # ops \<Rightarrow> (case op_alone op v of (r, v) \<Rightarrow> (t\<lparr>t_todo := ops, t_results := r # t_results t\<rparr>, v))))"

text \<open>A schedule names the thread of each step.\<close>

fun run_schedule :: "nat list \<Rightarrow> thread list \<times> u64 \<Rightarrow> thread list \<times> u64" where
  "run_schedule [] s = s"
| "run_schedule (i # is) (ts, v) =
     (if i < length ts then
        (case thread_step (ts ! i) v of (t, v) \<Rightarrow> run_schedule is (ts[i := t], v))
      else run_schedule is (ts, v))"

definition start_thread :: "atomic_op list \<Rightarrow> thread" where
  "start_thread ops = \<lparr>t_mid = None, t_todo = ops, t_results = []\<rparr>"

definition finished :: "thread \<Rightarrow> bool" where "finished t \<longleftrightarrow> t_mid t = None \<and> t_todo t = []"

section \<open>No update is lost\<close>

fun op_delta :: "atomic_op \<Rightarrow> u64" where
  "op_delta PostInc = 1"
| "op_delta PreInc = 1"
| "op_delta PostDec = -1"
| "op_delta PreDec = -1"
| "op_delta (AddOp x) = x"
| "op_delta ValueOp = 0"

text \<open>What a thread has still to add.\<close>

definition pending :: "thread \<Rightarrow> u64" where
  "pending t = (case t_mid t of None \<Rightarrow> 0 | Some (_, PostInc) \<Rightarrow> 1 | Some _ \<Rightarrow> -1) + sum_list (map op_delta (t_todo t))"

lemmas atomic_defs = AtomicIntegerT_value_def sync_val_compare_and_swap_def sync_fetch_and_add_def GetAndAdd_def AddAndGet_def
  IncrementAndGet_def DecrementAndGet_def Increment_def Decrement_def Atomic_Add_def Atomic_value_def pre_inc_def pre_dec_def

lemma op_alone_delta: "snd (op_alone op v) = v + op_delta op"
  by (cases op) (auto simp: atomic_defs post_inc_def post_dec_def)

lemma thread_step_pending: "thread_step t v = (t', v') \<Longrightarrow> v' + pending t' = v + pending t"
  by (auto simp: thread_step_def pending_def atomic_defs split: option.splits prod.splits atomic_op.splits list.splits)

lemma sum_list_upd:
  "i < length xs \<Longrightarrow> sum_list (xs[i := x]) + xs ! i = sum_list xs + (x :: u64)"
  by (induction xs arbitrary: i) (auto simp: nth_Cons algebra_simps split: nat.splits)

lemma balance:
  assumes "v' + r = u + s'" "s' + p = s + q" "u + q = v + p"
  shows "v' + r = v + (s :: u64)"
proof -
  have "u + s' + p = u + (s + q)" using assms(2) by (simp add: add.assoc)
  also have "\<dots> = s + (u + q)" by (simp add: ac_simps)
  also have "\<dots> = v + s + p" unfolding assms(3) by (simp add: ac_simps)
  finally have "u + s' + p = v + s + p" .
  then show ?thesis using assms(1) by simp
qed

lemma run_schedule_total:
  "run_schedule is (ts, v) = (ts', v') \<Longrightarrow> v' + sum_list (map pending ts') = v + sum_list (map pending ts)"
proof (induction "is" arbitrary: ts v)
  case (Cons i "is")
  show ?case
  proof (cases "i < length ts")
    case True
    obtain t u where t: "thread_step (ts ! i) v = (t, u)" by fastforce
    have "v' + sum_list (map pending ts') = u + sum_list (map pending (ts[i := t]))"
      using Cons.IH [of "ts[i := t]" u] Cons.prems True t by simp
    moreover have "sum_list (map pending (ts[i := t])) + pending (ts ! i) = sum_list (map pending ts) + pending t"
      using sum_list_upd [of i "map pending ts" "pending t"] True by (simp add: map_update)
    moreover note thread_step_pending [OF t]
    ultimately show ?thesis by (rule balance)
  qed (use Cons in simp)
qed simp

text \<open>
  C39. No update of the counter is lost: whatever the threads do and however their steps interleave, once
  all have finished the counter is its first value plus the sum of what the operators add, modulo \<open>2^64\<close>.
\<close>

theorem counter_no_lost_update:
  assumes "run_schedule sched (map start_thread progs, v) = (ts, v')" "\<forall>t\<in>set ts. finished t"
  shows "v' = v + sum_list (map op_delta (concat progs))"
proof -
  have "sum_list (map pending ts) = 0"
    using assms(2) by (induction ts) (auto simp: pending_def finished_def)
  moreover have "sum_list (map pending (map start_thread progs)) = sum_list (map op_delta (concat progs))"
    by (induction progs) (simp_all add: pending_def start_thread_def)
  ultimately show ?thesis using run_schedule_total [OF assms(1)] by simp
qed

theorem counter_no_lost_update_witness:
  "snd (run_schedule [0, 1, 1, 0, 1] (map start_thread [[PostInc], [PostDec, PreInc]], 5)) = (6 :: u64)"
proof -
  obtain ts v' where r: "run_schedule [0, 1, 1, 0, 1] (map start_thread [[PostInc], [PostDec, PreInc]], 5) = (ts, v')"
    by fastforce
  then have "\<forall>t\<in>set ts. finished t"
    by (auto simp: start_thread_def thread_step_def atomic_defs finished_def)
  from counter_no_lost_update [OF r this] r show ?thesis by simp
qed

section \<open>Unique results\<close>

definition results :: "thread list \<Rightarrow> u64 multiset" where
  "results ts = mset (concat (map t_results ts))"

definition only_pre_inc :: "thread \<Rightarrow> bool" where
  "only_pre_inc t \<longleftrightarrow> t_mid t = None \<and> set (t_todo t) \<subseteq> {PreInc}"

definition numbers :: "u64 \<Rightarrow> nat \<Rightarrow> u64 multiset" where
  "numbers v k = mset (map (\<lambda>j. v + of_nat (Suc j)) [0..<k])"

lemma results_upd:
  "i < length ts \<Longrightarrow> results (ts[i := (ts ! i)\<lparr>t_todo := ops, t_results := r # t_results (ts ! i)\<rparr>]) = add_mset r (results ts)"
  by (induction ts arbitrary: i) (auto simp: results_def nth_Cons split: nat.splits)

lemma thread_step_pre_inc:
  assumes "only_pre_inc t"
  shows "t_todo t = [] \<and> thread_step t v = (t, v)
    \<or> (\<exists>ops. t_todo t = PreInc # ops \<and> thread_step t v = (t\<lparr>t_todo := ops, t_results := (v + 1) # t_results t\<rparr>, v + 1))"
  using assms by (cases "t_todo t") (auto simp: only_pre_inc_def thread_step_def atomic_defs)

lemma todo_upd:
  "i < length ts \<Longrightarrow> t_todo (ts ! i) = op # ops \<Longrightarrow>
     length (concat (map t_todo (ts[i := (ts ! i)\<lparr>t_todo := ops, t_results := rs\<rparr>]))) + 1 = length (concat (map t_todo ts))"
  by (induction ts arbitrary: i) (auto simp: nth_Cons split: nat.splits)

lemma run_schedule_numbers:
  "run_schedule is (ts, v0 + of_nat k) = (ts', v') \<Longrightarrow> \<forall>t\<in>set ts. only_pre_inc t \<Longrightarrow> results ts = numbers v0 k \<Longrightarrow>
    \<exists>k'. results ts' = numbers v0 k' \<and> k' \<le> k + length (concat (map t_todo ts))"
proof (induction "is" arbitrary: ts k)
  case Nil
  then show ?case by auto
next
  case (Cons i "is")
  show ?case
  proof (cases "i < length ts")
    case True
    have "only_pre_inc (ts ! i)" using Cons.prems(2) True by simp
    from thread_step_pre_inc [OF this, of "v0 + of_nat k"] show ?thesis
    proof (elim disjE exE conjE)
      assume "thread_step (ts ! i) (v0 + of_nat k) = (ts ! i, v0 + of_nat k)"
      then show ?thesis using Cons.IH [of ts k] Cons.prems True by simp
    next
      fix ops
      let ?t = "(ts ! i)\<lparr>t_todo := ops, t_results := (v0 + of_nat k + 1) # t_results (ts ! i)\<rparr>"
      assume t: "t_todo (ts ! i) = PreInc # ops" "thread_step (ts ! i) (v0 + of_nat k) = (?t, v0 + of_nat k + 1)"
      have r: "run_schedule is (ts[i := ?t], v0 + of_nat (Suc k)) = (ts', v')"
        using Cons.prems(1) True t(2) by (simp add: ac_simps)
      have "only_pre_inc ?t" using \<open>only_pre_inc (ts ! i)\<close> t(1) by (simp add: only_pre_inc_def)
      then have o: "\<forall>t\<in>set (ts[i := ?t]). only_pre_inc t"
        using Cons.prems(2) set_update_subset_insert [of ts i ?t] by blast
      have n: "results (ts[i := ?t]) = numbers v0 (Suc k)"
        using results_upd [OF True] Cons.prems(3) by (simp add: numbers_def ac_simps)
      from Cons.IH [OF r o n] show ?thesis using todo_upd [OF True t(1), of "(v0 + of_nat k + 1) # t_results (ts ! i)"] by auto
    qed
  qed (use Cons in simp)
qed

lemma distinct_numbers:
  assumes "k < 2 ^ 64"
  shows "distinct (map (\<lambda>j. v + of_nat (Suc j) :: u64) [0..<k])"
proof -
  have "inj_on (\<lambda>j. v + of_nat (Suc j) :: u64) {0..<k}"
  proof (rule inj_onI)
    fix i j assume "i \<in> {0..<k}" "j \<in> {0..<k}" "v + of_nat (Suc i) = (v + of_nat (Suc j) :: u64)"
    then have "(of_nat i :: u64) = of_nat j" "i < 2 ^ 64" "j < 2 ^ 64" using assms by simp_all
    then have "unat (of_nat i :: u64) = unat (of_nat j :: u64)" by simp
    then show "i = j" using \<open>i < 2 ^ 64\<close> \<open>j < 2 ^ 64\<close> by (simp add: unat_of_nat take_bit_nat_eq_self_iff)
  qed
  then show ?thesis by (simp add: distinct_map)
qed

text \<open>
  The prefix operator numbers its callers: threads that only increment with \<open>++c\<close>, fewer than \<open>2^64\<close>
  times in all, never get the same result twice, in any interleaving.
\<close>

theorem prefix_results_distinct:
  assumes "set (concat progs) \<subseteq> {PreInc}" "length (concat progs) < 2 ^ 64"
    and "run_schedule sched (map start_thread progs, v) = (ts, v')"
  shows "distinct (concat (map t_results ts))"
proof -
  have o: "\<forall>t\<in>set (map start_thread progs). only_pre_inc t"
    using assms(1) by (auto simp: only_pre_inc_def start_thread_def)
  have z: "results (map start_thread progs) = numbers v 0"
    by (simp add: results_def numbers_def start_thread_def)
  have l: "concat (map t_todo (map start_thread progs)) = concat progs"
    by (induction progs) (simp_all add: start_thread_def)
  have "run_schedule sched (map start_thread progs, v + of_nat 0) = (ts, v')" using assms(3) by simp
  from run_schedule_numbers [OF this o z] obtain k where k: "results ts = numbers v k" "k < 2 ^ 64"
    unfolding l using assms(2) by auto
  then have "mset (concat (map t_results ts)) = mset (map (\<lambda>j. v + of_nat (Suc j)) [0..<k])"
    by (simp add: results_def numbers_def)
  then show ?thesis using distinct_numbers [OF k(2)] by (metis mset_eq_imp_distinct_iff)
qed

theorem prefix_results_distinct_witness:
  "distinct (concat (map t_results (fst (run_schedule [0, 1, 0] (map start_thread [[PreInc, PreInc], [PreInc]], 7)))))"
proof -
  obtain ts v' where r: "run_schedule [0, 1, 0] (map start_thread [[PreInc, PreInc], [PreInc]], 7) = (ts, v')" by fastforce
  from prefix_results_distinct [OF _ _ r] show ?thesis using r by simp
qed

text \<open>
  The postfix operator is not atomic: it reads and increments in two steps, so two threads that each
  run \<open>c++\<close> once can both get the first value, while the counter grows by two.
\<close>

theorem postfix_results_collide:
  "\<exists>sched ts. run_schedule sched (map start_thread [[PostInc], [PostInc]], v) = (ts, v + 2)
     \<and> list_all finished ts \<and> map t_results ts = [[v], [v]]"
  by (rule exI [of _ "[0, 1, 0, 1]"]) (simp add: start_thread_def thread_step_def atomic_defs finished_def)

end
