(* ===== verification/Md5.thy ===== *)
theory Md5
  imports Prelude
begin

text \<open>
  \<^verbatim>\<open>src/stputil/security/md5.cpp\<close>: the MD5 digest as a hexadecimal string.

  \<open>unsigned int\<close> is a 32-bit word.  The registers \<open>a\<close> to \<open>d\<close> are a list, numbered 0 to 3, and the 64 macro
  calls of \<open>MD5_Transform\<close> a list of their arguments, in the code's order.  A caller of \<open>MD5_Update\<close> vouches
  for \<open>len\<close> bytes: reading beyond them is a \<open>Fault\<close>, as is writing beyond the 64 bytes of the buffer.
  Clearing the context at the end is not modelled.
\<close>


section \<open>The macros\<close>

definition md5_F :: "u32 \<Rightarrow> u32 \<Rightarrow> u32 \<Rightarrow> u32" where "md5_F x y z = (x AND y) OR (NOT x AND z)"
definition md5_G :: "u32 \<Rightarrow> u32 \<Rightarrow> u32 \<Rightarrow> u32" where "md5_G x y z = (x AND z) OR (y AND NOT z)"
definition md5_H :: "u32 \<Rightarrow> u32 \<Rightarrow> u32 \<Rightarrow> u32" where "md5_H x y z = x XOR y XOR z"
definition md5_I :: "u32 \<Rightarrow> u32 \<Rightarrow> u32 \<Rightarrow> u32" where "md5_I x y z = y XOR (x OR NOT z)"

definition ROTATE_LEFT :: "u32 \<Rightarrow> nat \<Rightarrow> u32" where
  "ROTATE_LEFT x n = push_bit n x OR drop_bit (32 - n) x"

definition S11 :: nat where "S11 = 7"
definition S12 :: nat where "S12 = 12"
definition S13 :: nat where "S13 = 17"
definition S14 :: nat where "S14 = 22"
definition S21 :: nat where "S21 = 5"
definition S22 :: nat where "S22 = 9"
definition S23 :: nat where "S23 = 14"
definition S24 :: nat where "S24 = 20"
definition S31 :: nat where "S31 = 4"
definition S32 :: nat where "S32 = 11"
definition S33 :: nat where "S33 = 16"
definition S34 :: nat where "S34 = 23"
definition S41 :: nat where "S41 = 6"
definition S42 :: nat where "S42 = 10"
definition S43 :: nat where "S43 = 15"
definition S44 :: nat where "S44 = 21"

datatype md5_macro = FF | GG | HH | II

fun macro_fun :: "md5_macro \<Rightarrow> u32 \<Rightarrow> u32 \<Rightarrow> u32 \<Rightarrow> u32" where
  "macro_fun FF = md5_F" | "macro_fun GG = md5_G" | "macro_fun HH = md5_H" | "macro_fun II = md5_I"

text \<open>A call of a macro with the registers \<open>a b c d\<close>, the index into \<open>x\<close>, the shift and the constant.\<close>

type_synonym md5_call = "md5_macro \<times> nat \<times> nat \<times> nat \<times> nat \<times> nat \<times> nat \<times> u32"

definition run_call :: "u32 list \<Rightarrow> u32 list \<Rightarrow> md5_call \<Rightarrow> u32 list" where
  "run_call x regs call =
     (case call of (m, a, b, c, d, k, s, ac) \<Rightarrow>
        let va = regs ! a + (macro_fun m (regs ! b) (regs ! c) (regs ! d) + x ! k + ac);
            va = ROTATE_LEFT va s
        in regs[a := va + regs ! b])"

definition md5_calls :: "md5_call list" where
  "md5_calls =
     [(FF, 0, 1, 2, 3, 0, S11, 0xd76aa478), (FF, 3, 0, 1, 2, 1, S12, 0xe8c7b756),
      (FF, 2, 3, 0, 1, 2, S13, 0x242070db), (FF, 1, 2, 3, 0, 3, S14, 0xc1bdceee),
      (FF, 0, 1, 2, 3, 4, S11, 0xf57c0faf), (FF, 3, 0, 1, 2, 5, S12, 0x4787c62a),
      (FF, 2, 3, 0, 1, 6, S13, 0xa8304613), (FF, 1, 2, 3, 0, 7, S14, 0xfd469501),
      (FF, 0, 1, 2, 3, 8, S11, 0x698098d8), (FF, 3, 0, 1, 2, 9, S12, 0x8b44f7af),
      (FF, 2, 3, 0, 1, 10, S13, 0xffff5bb1), (FF, 1, 2, 3, 0, 11, S14, 0x895cd7be),
      (FF, 0, 1, 2, 3, 12, S11, 0x6b901122), (FF, 3, 0, 1, 2, 13, S12, 0xfd987193),
      (FF, 2, 3, 0, 1, 14, S13, 0xa679438e), (FF, 1, 2, 3, 0, 15, S14, 0x49b40821),
      (GG, 0, 1, 2, 3, 1, S21, 0xf61e2562), (GG, 3, 0, 1, 2, 6, S22, 0xc040b340),
      (GG, 2, 3, 0, 1, 11, S23, 0x265e5a51), (GG, 1, 2, 3, 0, 0, S24, 0xe9b6c7aa),
      (GG, 0, 1, 2, 3, 5, S21, 0xd62f105d), (GG, 3, 0, 1, 2, 10, S22, 0x2441453),
      (GG, 2, 3, 0, 1, 15, S23, 0xd8a1e681), (GG, 1, 2, 3, 0, 4, S24, 0xe7d3fbc8),
      (GG, 0, 1, 2, 3, 9, S21, 0x21e1cde6), (GG, 3, 0, 1, 2, 14, S22, 0xc33707d6),
      (GG, 2, 3, 0, 1, 3, S23, 0xf4d50d87), (GG, 1, 2, 3, 0, 8, S24, 0x455a14ed),
      (GG, 0, 1, 2, 3, 13, S21, 0xa9e3e905), (GG, 3, 0, 1, 2, 2, S22, 0xfcefa3f8),
      (GG, 2, 3, 0, 1, 7, S23, 0x676f02d9), (GG, 1, 2, 3, 0, 12, S24, 0x8d2a4c8a),
      (HH, 0, 1, 2, 3, 5, S31, 0xfffa3942), (HH, 3, 0, 1, 2, 8, S32, 0x8771f681),
      (HH, 2, 3, 0, 1, 11, S33, 0x6d9d6122), (HH, 1, 2, 3, 0, 14, S34, 0xfde5380c),
      (HH, 0, 1, 2, 3, 1, S31, 0xa4beea44), (HH, 3, 0, 1, 2, 4, S32, 0x4bdecfa9),
      (HH, 2, 3, 0, 1, 7, S33, 0xf6bb4b60), (HH, 1, 2, 3, 0, 10, S34, 0xbebfbc70),
      (HH, 0, 1, 2, 3, 13, S31, 0x289b7ec6), (HH, 3, 0, 1, 2, 0, S32, 0xeaa127fa),
      (HH, 2, 3, 0, 1, 3, S33, 0xd4ef3085), (HH, 1, 2, 3, 0, 6, S34, 0x4881d05),
      (HH, 0, 1, 2, 3, 9, S31, 0xd9d4d039), (HH, 3, 0, 1, 2, 12, S32, 0xe6db99e5),
      (HH, 2, 3, 0, 1, 15, S33, 0x1fa27cf8), (HH, 1, 2, 3, 0, 2, S34, 0xc4ac5665),
      (II, 0, 1, 2, 3, 0, S41, 0xf4292244), (II, 3, 0, 1, 2, 7, S42, 0x432aff97),
      (II, 2, 3, 0, 1, 14, S43, 0xab9423a7), (II, 1, 2, 3, 0, 5, S44, 0xfc93a039),
      (II, 0, 1, 2, 3, 12, S41, 0x655b59c3), (II, 3, 0, 1, 2, 3, S42, 0x8f0ccc92),
      (II, 2, 3, 0, 1, 10, S43, 0xffeff47d), (II, 1, 2, 3, 0, 1, S44, 0x85845dd1),
      (II, 0, 1, 2, 3, 8, S41, 0x6fa87e4f), (II, 3, 0, 1, 2, 15, S42, 0xfe2ce6e0),
      (II, 2, 3, 0, 1, 6, S43, 0xa3014314), (II, 1, 2, 3, 0, 13, S44, 0x4e0811a1),
      (II, 0, 1, 2, 3, 4, S41, 0xf7537e82), (II, 3, 0, 1, 2, 11, S42, 0xbd3af235),
      (II, 2, 3, 0, 1, 2, S43, 0x2ad7d2bb), (II, 1, 2, 3, 0, 9, S44, 0xeb86d391)]"

section \<open>Words and bytes\<close>

definition MD5_Encode :: "u32 list \<Rightarrow> u8 list" where
  "MD5_Encode input = concat (map (\<lambda>w. [byte0 w, byte1 w, byte2 w, byte3 w]) input)"

definition MD5_Decode :: "u8 list \<Rightarrow> nat \<Rightarrow> u32 list" where
  "MD5_Decode input len =
     map (\<lambda>i. word4 (input ! (4 * i + 3)) (input ! (4 * i + 2)) (input ! (4 * i + 1)) (input ! (4 * i))) [0..<len div 4]"

definition MD5_Transform :: "u32 list \<Rightarrow> u8 list \<Rightarrow> u32 list" where
  "MD5_Transform state block =
     (let x = MD5_Decode block 64; regs = foldl (run_call x) state md5_calls
      in map (\<lambda>i. state ! i + regs ! i) [0..<4])"

section \<open>The context\<close>

record MD5Context =
  md_state :: "u32 list"
  md_count0 :: u32
  md_count1 :: u32
  md_buffer :: "u8 list"

definition PADDING :: "u8 list" where "PADDING = 0x80 # replicate 63 0"

definition MD5_Init :: "MD5Context \<Rightarrow> MD5Context" where
  "MD5_Init ctx = ctx\<lparr>md_count0 := 0, md_count1 := 0,
     md_state := [0x67452301, 0xefcdab89, 0x98badcfe, 0x10325476]\<rparr>"

text \<open>\<open>memcpy(&buffer[index], &buf[i], n)\<close>\<close>

definition copy_in :: "u32 \<Rightarrow> u8 list \<Rightarrow> u32 \<Rightarrow> u32 \<Rightarrow> u32 \<Rightarrow> MD5Context \<Rightarrow> MD5Context run" where
  "copy_in index buf len i n ctx =
     (if n = 0 then Ret ctx
      else if unat index + unat n > 64 \<or> unat i + unat n > unat len then Fault
      else Ret (ctx\<lparr>md_buffer := take (unat index) (md_buffer ctx) @ take (unat n) (drop (unat i) buf)
                 @ drop (unat index + unat n) (md_buffer ctx)\<rparr>))"

text \<open>The loop over whole blocks; it returns the state and \<open>i\<close>.\<close>

function md5_blocks :: "u8 list \<Rightarrow> u32 \<Rightarrow> u32 \<Rightarrow> u32 list \<Rightarrow> (u32 list \<times> u32) run" where
  "md5_blocks buf len i state =
     (if i + 63 < len then
        if unat i + 64 > unat len then Fault
        else md5_blocks buf len (i + 64) (MD5_Transform state (take 64 (drop (unat i) buf)))
      else Ret (state, i))"
  by pat_completeness auto
termination
proof (relation "measure (\<lambda>(buf, len, i, state). unat len - unat i)")
  fix buf :: "u8 list" and len i :: u32 and state :: "u32 list"
  assume "i + 63 < len" "\<not> unat i + 64 > unat len"
  then have "unat (i + 64) = unat i + 64" using unat_u32_bound [of len] by (subst unat_add_lem [THEN iffD1]) simp_all
  then show "((buf, len, i + 64, MD5_Transform state (take 64 (drop (unat i) buf))), buf, len, i, state)
      \<in> measure (\<lambda>(buf, len, i, state). unat len - unat i)"
    using \<open>\<not> unat i + 64 > unat len\<close> by simp
qed simp

declare md5_blocks.simps [simp del]

definition MD5_Update :: "u8 list \<Rightarrow> u32 \<Rightarrow> MD5Context \<Rightarrow> MD5Context run" where
  "MD5_Update buf len ctx =
     (let index = drop_bit 3 (md_count0 ctx) AND 0x3F;
          ctx = ctx\<lparr>md_count0 := md_count0 ctx + push_bit 3 len\<rparr>;
          ctx = (if md_count0 ctx < push_bit 3 len then ctx\<lparr>md_count1 := md_count1 ctx + 1\<rparr> else ctx);
          ctx = ctx\<lparr>md_count1 := md_count1 ctx + drop_bit 29 len\<rparr>;
          partLen = 64 - index
      in if len \<ge> partLen then
           run_bind (copy_in index buf len 0 partLen ctx) (\<lambda>ctx.
             let ctx = ctx\<lparr>md_state := MD5_Transform (md_state ctx) (md_buffer ctx)\<rparr>
             in run_bind (md5_blocks buf len partLen (md_state ctx)) (\<lambda>(st, i).
                  copy_in 0 buf len i (len - i) (ctx\<lparr>md_state := st\<rparr>)))
         else copy_in index buf len 0 (len - 0) ctx)"

definition MD5_Final :: "MD5Context \<Rightarrow> u8 list run" where
  "MD5_Final ctx =
     (let bits = MD5_Encode [md_count0 ctx, md_count1 ctx];
          index = drop_bit 3 (md_count0 ctx) AND 0x3f;
          padLen = (if index < 56 then 56 - index else 120 - index)
      in run_bind (MD5_Update PADDING padLen ctx) (\<lambda>ctx.
         run_bind (MD5_Update bits 8 ctx) (\<lambda>ctx. Ret (MD5_Encode (md_state ctx)))))"

text \<open>\<open>sprintf(md5++, "%x", n)\<close> for a nibble: a digit, and a NUL that the next call overwrites.\<close>

definition hex_digit :: "u8 \<Rightarrow> u8" where "hex_digit n = (if n < 10 then 48 + n else 87 + n)"

definition to_hex :: "u8 list \<Rightarrow> u8 list" where
  "to_hex bs = concat (map (\<lambda>b. [hex_digit (drop_bit 4 (b AND 0xF0)), hex_digit (b AND 0x0F)]) bs) @ [0]"

text \<open>The contents of \<open>context\<close> before \<open>MD5_Init\<close> are the argument \<open>junk\<close>; the result is what is written to \<open>md5\<close>.\<close>

definition MD5_Calculate :: "MD5Context \<Rightarrow> u8 list \<Rightarrow> u32 \<Rightarrow> u8 list run" where
  "MD5_Calculate junk pContent nLen =
     run_bind (MD5_Update pContent nLen (MD5_Init junk)) (\<lambda>ctx.
     run_bind (MD5_Final ctx) (\<lambda>buff. Ret (to_hex buff)))"

end
