(* ===== verification/Md5_Proof.thy ===== *)
theory Md5_Proof
  imports Md5
begin

text \<open>
  The digest computed is that of RFC 1321, stated here as a loop over the 64 operations with their index,
  shift and additive constant, on the padded message cut into blocks.
\<close>

section \<open>RFC 1321\<close>

definition rfc_fun :: "nat \<Rightarrow> u32 \<Rightarrow> u32 \<Rightarrow> u32 \<Rightarrow> u32" where
  "rfc_fun i x y z =
     (if i < 16 then (x AND y) OR (NOT x AND z)
      else if i < 32 then (x AND z) OR (y AND NOT z)
      else if i < 48 then x XOR y XOR z
      else y XOR (x OR NOT z))"

definition rfc_index :: "nat \<Rightarrow> nat" where
  "rfc_index i =
     (if i < 16 then i else if i < 32 then (5 * i + 1) mod 16 else if i < 48 then (3 * i + 5) mod 16 else 7 * i mod 16)"

definition rfc_shift :: "nat \<Rightarrow> nat" where
  "rfc_shift i = [7, 12, 17, 22, 5, 9, 14, 20, 4, 11, 16, 23, 6, 10, 15, 21] ! (4 * (i div 16) + i mod 4)"

text \<open>The additive constants, the integer part of \<open>2^32 * abs (sin (i + 1))\<close>.\<close>

definition rfc_table :: "u32 list" where
  "rfc_table =
     [0xd76aa478, 0xe8c7b756, 0x242070db, 0xc1bdceee, 0xf57c0faf, 0x4787c62a, 0xa8304613, 0xfd469501,
      0x698098d8, 0x8b44f7af, 0xffff5bb1, 0x895cd7be, 0x6b901122, 0xfd987193, 0xa679438e, 0x49b40821,
      0xf61e2562, 0xc040b340, 0x265e5a51, 0xe9b6c7aa, 0xd62f105d, 0x2441453, 0xd8a1e681, 0xe7d3fbc8,
      0x21e1cde6, 0xc33707d6, 0xf4d50d87, 0x455a14ed, 0xa9e3e905, 0xfcefa3f8, 0x676f02d9, 0x8d2a4c8a,
      0xfffa3942, 0x8771f681, 0x6d9d6122, 0xfde5380c, 0xa4beea44, 0x4bdecfa9, 0xf6bb4b60, 0xbebfbc70,
      0x289b7ec6, 0xeaa127fa, 0xd4ef3085, 0x4881d05, 0xd9d4d039, 0xe6db99e5, 0x1fa27cf8, 0xc4ac5665,
      0xf4292244, 0x432aff97, 0xab9423a7, 0xfc93a039, 0x655b59c3, 0x8f0ccc92, 0xffeff47d, 0x85845dd1,
      0x6fa87e4f, 0xfe2ce6e0, 0xa3014314, 0x4e0811a1, 0xf7537e82, 0xbd3af235, 0x2ad7d2bb, 0xeb86d391]"

type_synonym regs = "u32 \<times> u32 \<times> u32 \<times> u32"

fun rfc_step :: "u32 list \<Rightarrow> regs \<Rightarrow> nat \<times> u32 \<Rightarrow> regs" where
  "rfc_step x (a, b, c, d) (i, t) =
     (d, b + word_rotl (rfc_shift i) (a + rfc_fun i b c d + x ! rfc_index i + t), b, c)"

fun words_le :: "u8 list \<Rightarrow> u32 list" where
  "words_le (b0 # b1 # b2 # b3 # bs) = word4 b3 b2 b1 b0 # words_le bs"
| "words_le _ = []"

definition rfc_block :: "regs \<Rightarrow> u8 list \<Rightarrow> regs" where
  "rfc_block r block =
     (case (r, foldl (rfc_step (words_le block)) r (zip [0..<64] rfc_table)) of
        ((a, b, c, d), (a', b', c', d')) \<Rightarrow> (a + a', b + b', c + c', d + d'))"

function absorb :: "('s \<Rightarrow> u8 list \<Rightarrow> 's) \<Rightarrow> 's \<Rightarrow> u8 list \<Rightarrow> 's" where
  "absorb f st bs = (if length bs < 64 then st else absorb f (f st (take 64 bs)) (drop 64 bs))"
  by pat_completeness auto
termination by (relation "measure (\<lambda>(f, st, bs). length bs)") auto

declare absorb.simps [simp del]

definition rfc_pad :: "u8 list \<Rightarrow> u8 list" where
  "rfc_pad m = m @ 0x80 # replicate ((119 - length m mod 64) mod 64) 0 @
     map (\<lambda>j. of_nat (8 * length m div 256 ^ j)) [0..<8]"

definition hex_digits :: "u8 list" where
  "hex_digits = [48, 49, 50, 51, 52, 53, 54, 55, 56, 57, 97, 98, 99, 100, 101, 102]"

definition rfc_md5 :: "u8 list \<Rightarrow> u8 list" where
  "rfc_md5 m = (case absorb rfc_block (0x67452301, 0xefcdab89, 0x98badcfe, 0x10325476) (rfc_pad m) of (a, b, c, d) \<Rightarrow>
     concat (map (\<lambda>w. [byte0 w, byte1 w, byte2 w, byte3 w]) [a, b, c, d]))"

section \<open>The 64 operations\<close>

lemma ROTATE_LEFT_rotl: "0 < n \<Longrightarrow> n < 32 \<Longrightarrow> ROTATE_LEFT x n = word_rotl n x"
  by (rule bit_word_eqI) (auto simp: ROTATE_LEFT_def bit_or_iff bit_push_bit_iff bit_drop_bit_eq bit_word_rotl_iff
      mod_if not_less le_diff_conv add.commute [of 32] dest: bit_imp_le_length)

definition macro_of :: "nat \<Rightarrow> md5_macro" where
  "macro_of i = (if i < 16 then FF else if i < 32 then GG else if i < 48 then HH else II)"

definition reg_of :: "nat \<Rightarrow> nat \<Rightarrow> nat" where "reg_of i j = (3 * (i mod 4) + j) mod 4"

definition call_of :: "nat \<times> u32 \<Rightarrow> md5_call" where
  "call_of p = (case p of (i, t) \<Rightarrow>
     (macro_of i, reg_of i 0, reg_of i 1, reg_of i 2, reg_of i 3, rfc_index i, rfc_shift i, t))"

lemmas shifts = S11_def S12_def S13_def S14_def S21_def S22_def S23_def S24_def S31_def S32_def S33_def S34_def
  S41_def S42_def S43_def S44_def

definition call_plan :: "md5_call \<Rightarrow> md5_macro \<times> nat \<times> nat \<times> nat \<times> nat \<times> nat \<times> nat" where
  "call_plan p = (case p of (m, a, b, c, d, k, s, t) \<Rightarrow> (m, a, b, c, d, k, s))"

definition call_const :: "md5_call \<Rightarrow> u32" where
  "call_const p = (case p of (m, a, b, c, d, k, s, t) \<Rightarrow> t)"

lemma md5_calls_plan:
  "map call_plan md5_calls =
     map (\<lambda>i. (macro_of i, reg_of i 0, reg_of i 1, reg_of i 2, reg_of i 3, rfc_index i, rfc_shift i)) [0..<64]"
  unfolding md5_calls_def list.map call_plan_def prod.case shifts by code_simp

lemma md5_calls_const: "map call_const md5_calls = rfc_table"
  unfolding md5_calls_def rfc_table_def list.map call_const_def prod.case ..

lemma md5_calls_table: "md5_calls = map call_of (zip [0..<64] rfc_table)"
proof (rule nth_equalityI)
  have l: "length md5_calls = 64" "length rfc_table = 64" by (simp_all add: md5_calls_def rfc_table_def)
  then show "length md5_calls = length (map call_of (zip [0..<64] rfc_table))" by simp
  fix i assume i: "i < length md5_calls"
  have "call_plan (md5_calls ! i) = (macro_of i, reg_of i 0, reg_of i 1, reg_of i 2, reg_of i 3, rfc_index i, rfc_shift i)"
    using arg_cong [OF md5_calls_plan, of "\<lambda>xs. xs ! i"] i l by simp
  moreover have "call_const (md5_calls ! i) = rfc_table ! i"
    using arg_cong [OF md5_calls_const, of "\<lambda>xs. xs ! i"] i by simp
  ultimately show "md5_calls ! i = map call_of (zip [0..<64] rfc_table) ! i"
    using i l by (simp add: call_of_def call_plan_def call_const_def split: prod.splits)
qed

definition rot :: "nat \<Rightarrow> u32 list \<Rightarrow> regs" where
  "rot i r = (r ! reg_of i 0, r ! reg_of i 1, r ! reg_of i 2, r ! reg_of i 3)"

lemma shift_range: "i < 64 \<Longrightarrow> 0 < rfc_shift i \<and> rfc_shift i < 32"
proof -
  assume "i < 64"
  then have "i div 16 < 4" "i mod 4 < 4" by auto
  then have "4 * (i div 16) + i mod 4 < 16" by linarith
  then have "rfc_shift i \<in> set [7, 12, 17, 22, 5, 9, 14, 20, 4, 11, 16, 23, 6, 10, 15, 21]"
    unfolding rfc_shift_def by (intro nth_mem) simp
  then show ?thesis by auto
qed

lemma macro_rfc: "macro_fun (macro_of i) = rfc_fun i"
  by (auto simp: macro_of_def rfc_fun_def md5_F_def md5_G_def md5_H_def md5_I_def fun_eq_iff)

lemma list4: "length r = 4 \<Longrightarrow> r = [r ! 0, r ! 1, r ! 2, r ! 3]"
  by (auto simp: numeral_eq_Suc length_Suc_conv)

lemma run_call_rfc:
  assumes "length r = 4" "i < 64"
  shows "rot (Suc i) (run_call x r (call_of (i, t))) = rfc_step x (rot i r) (i, t)" "length (run_call x r (call_of (i, t))) = 4"
proof -
  have l: "length (run_call x r (call_of (i, t))) = length r" by (simp add: run_call_def call_of_def Let_def)
  then show "length (run_call x r (call_of (i, t))) = 4" using assms(1) by simp
  obtain a b c d where r: "r = [a, b, c, d]" using list4 [OF assms(1)] by blast
  have "i mod 4 = 0 \<or> i mod 4 = 1 \<or> i mod 4 = 2 \<or> i mod 4 = 3" by auto
  then show "rot (Suc i) (run_call x r (call_of (i, t))) = rfc_step x (rot i r) (i, t)"
    using shift_range [OF assms(2)]
    by (elim disjE) (simp_all add: r rot_def run_call_def call_of_def reg_of_def Let_def mod_Suc macro_rfc ROTATE_LEFT_rotl
        ac_simps numeral_2_eq_2 [symmetric] numeral_3_eq_3 [symmetric])
qed

lemma run_calls_rfc:
  "length r = 4 \<Longrightarrow> n + length ts \<le> 64 \<Longrightarrow>
    rot (n + length ts) (foldl (run_call x) r (map call_of (zip [n..<n + length ts] ts))) =
      foldl (rfc_step x) (rot n r) (zip [n..<n + length ts] ts)
    \<and> length (foldl (run_call x) r (map call_of (zip [n..<n + length ts] ts))) = 4"
proof (induction ts arbitrary: n r)
  case (Cons t ts)
  have n: "n < 64" using Cons.prems(2) by simp
  have "[n..<n + length (t # ts)] = n # [Suc n..<Suc n + length ts]" by (simp add: upt_rec)
  then show ?case
    using Cons.IH [of "run_call x r (call_of (n, t))" "Suc n"] run_call_rfc [OF Cons.prems(1) n, of x t] Cons.prems(2) by simp
qed simp

lemma nth_4: "(a # b # c # d # xs) ! (4 + j) = xs ! j" by (simp add: numeral_eq_Suc)

lemma decode_Cons:
  "MD5_Decode (b0 # b1 # b2 # b3 # bs) (4 * Suc n) = word4 b3 b2 b1 b0 # MD5_Decode bs (4 * n)"
proof -
  let ?xs = "b0 # b1 # b2 # b3 # bs"
  have u: "[0..<Suc n] = 0 # map Suc [0..<n]" by (simp add: upt_conv_Cons map_Suc_upt del: upt_Suc)
  have d: "4 * m div 4 = m" for m :: nat by simp
  have n: "?xs ! (4 * Suc i + j) = bs ! (4 * i + j)" for i j
    using nth_4 [of b0 b1 b2 b3 bs "4 * i + j"] by (simp only: mult_Suc_right add.assoc)
  have "MD5_Decode ?xs (4 * Suc n) = word4 (?xs ! 3) (?xs ! 2) (?xs ! 1) (?xs ! 0) # MD5_Decode bs (4 * n)"
    unfolding MD5_Decode_def d u list.map map_map o_def n n [where j = 0, unfolded add_0_right] mult_0_right add_0 ..
  then show ?thesis by simp
qed

lemma decode_words: "4 * n \<le> length bs \<Longrightarrow> MD5_Decode bs (4 * n) = words_le (take (4 * n) bs)"
proof (induction n arbitrary: bs)
  case 0
  then show ?case by (simp add: MD5_Decode_def)
next
  case (Suc n)
  have "Suc (Suc (Suc (Suc 0))) \<le> length bs" using Suc.prems by simp
  then obtain b0 b1 b2 b3 cs where bs: "bs = b0 # b1 # b2 # b3 # cs" by (auto simp: Suc_le_length_iff)
  have "take (4 * Suc n) bs = b0 # b1 # b2 # b3 # take (4 * n) cs" unfolding bs by (simp add: numeral_eq_Suc)
  then show ?case using Suc.IH [of cs] Suc.prems unfolding bs decode_Cons by simp
qed

fun list_of :: "regs \<Rightarrow> u32 list" where "list_of (a, b, c, d) = [a, b, c, d]"

lemma length_rfc_table: "length rfc_table = 64" by (simp add: rfc_table_def)

lemma rot_ends: "rot 0 r = (r ! 0, r ! 1, r ! 2, r ! 3)" "rot 64 r = (r ! 0, r ! 1, r ! 2, r ! 3)"
  by (simp_all add: rot_def reg_of_def numeral_2_eq_2 [symmetric] numeral_3_eq_3 [symmetric])

lemma transform_rfc:
  assumes "64 \<le> length block"
  shows "MD5_Transform (list_of st) block = list_of (rfc_block st (take 64 block))"
proof -
  have four: "map f [0..<4] = [f 0, f 1, f 2, f 3]" for f :: "nat \<Rightarrow> u32" by (simp add: numeral_eq_Suc)
  obtain a b c d where st: "st = (a, b, c, d)" by (cases st)
  let ?x = "words_le (take 64 block)" let ?r = "foldl (run_call ?x) [a, b, c, d] md5_calls"
  have x: "MD5_Decode block 64 = ?x" using decode_words [of 16 block] assms by simp
  have "rot 64 ?r = foldl (rfc_step ?x) (rot 0 [a, b, c, d]) (zip [0..<64] rfc_table)"
    using run_calls_rfc [of "[a, b, c, d]" 0 rfc_table ?x] unfolding md5_calls_table length_rfc_table by simp
  then have "(?r ! 0, ?r ! 1, ?r ! 2, ?r ! 3) = foldl (rfc_step ?x) (a, b, c, d) (zip [0..<64] rfc_table)"
    unfolding rot_ends by simp
  then show ?thesis
    unfolding MD5_Transform_def Let_def st list_of.simps x rfc_block_def
    using four by (auto split: prod.splits)
qed

section \<open>Blocks of a message\<close>

lemma absorb_short: "length b < 64 \<Longrightarrow> absorb f st b = st"
  by (simp add: absorb.simps)

lemma absorb_append: "64 dvd length a \<Longrightarrow> absorb f st (a @ b) = absorb f (absorb f st a) b"
proof (induction "length a" arbitrary: a st rule: less_induct)
  case less
  show ?case
  proof (cases "a = []")
    case False
    then have l: "64 \<le> length a" using less.prems by (auto intro: dvd_imp_le)
    then have "64 dvd length (drop 64 a)" using less.prems by (simp add: dvd_diff_nat)
    moreover have "absorb f st (a @ b) = absorb f (f st (take 64 a)) (drop 64 a @ b)"
      "absorb f st a = absorb f (f st (take 64 a)) (drop 64 a)"
      using l by (simp_all add: absorb.simps [of f st])
    ultimately show ?thesis using less.hyps [of "drop 64 a"] l by simp
  qed (simp add: absorb_short)
qed

lemma absorb_block: "length b = 64 \<Longrightarrow> absorb f st (b @ c) = absorb f (f st b) c"
  by (simp add: absorb.simps [of f st])

lemma unat_plus: "unat a + unat b < 2 ^ 32 \<Longrightarrow> unat (a + b :: u32) = unat a + unat b"
  by (subst unat_add_lem [symmetric]) simp

lemma md5_blocks_absorb:
  assumes "unat len \<le> length buf" "unat i \<le> unat len" "64 dvd unat i \<or> unat len + 63 < 2 ^ 32"
  shows "\<exists>j. md5_blocks buf len i (list_of st) =
      Ret (list_of (absorb rfc_block st (drop (unat i) (take (unat len) buf))), j)
    \<and> unat j = unat len - (unat len - unat i) mod 64 \<and> unat i \<le> unat j"
  using assms(2,3)
proof (induction "unat len - unat i" arbitrary: i st rule: less_induct)
  case less
  have "unat i + 63 < 2 ^ 32"
  proof (cases "64 dvd unat i")
    case True
    then obtain q where q: "unat i = 64 * q" by blast
    then have "64 * q < 2 ^ 32" using unat_u32_bound [of i] by simp
    then have "q < 2 ^ 26" by simp
    then have "64 * q + 63 < 64 * 2 ^ 26" by linarith
    then show ?thesis using q by simp
  next
    case False
    then show ?thesis using less.prems by linarith
  qed
  then have p: "unat (i + 63) = unat i + 63" using unat_plus [of i 63] by simp
  let ?d = "drop (unat i) (take (unat len) buf)"
  have l: "length ?d = unat len - unat i" using assms(1) by simp
  show ?case
  proof (cases "i + 63 < len")
    case False
    then have "unat len \<le> unat i + 63" using p by (simp add: word_less_nat_alt)
    moreover from this have "(unat len - unat i) mod 64 = unat len - unat i" by simp
    ultimately show ?thesis using False less.prems(1) l by (simp add: md5_blocks.simps absorb_short)
  next
    case True
    then have le: "unat i + 64 \<le> unat len" using p by (simp add: word_less_nat_alt)
    then have p64: "unat (i + 64) = unat i + 64"
      using unat_plus [of i 64] unat_u32_bound [of len] by simp
    have b: "MD5_Transform (list_of st) (take 64 (drop (unat i) buf)) = list_of (rfc_block st (take 64 ?d))"
    proof -
      have t: "take 64 ?d = take 64 (drop (unat i) buf)" using le by (simp add: drop_take)
      have "length (take 64 (drop (unat i) buf)) = 64" using le assms(1) by simp
      with transform_rfc [of "take 64 (drop (unat i) buf)" st] show ?thesis unfolding t take_take by simp
    qed
    have d: "absorb rfc_block st ?d = absorb rfc_block (rfc_block st (take 64 ?d)) (drop (unat (i + 64)) (take (unat len) buf))"
    proof -
      have "take 64 ?d @ drop (unat (i + 64)) (take (unat len) buf) = ?d"
        using append_take_drop_id [of 64 ?d] by (simp add: p64 add.commute)
      moreover have "length (take 64 ?d) = 64" using l le by simp
      ultimately show ?thesis by (metis absorb_block)
    qed
    have m: "(unat len - unat i) mod 64 = (unat len - unat (i + 64)) mod 64"
      using le p64 by (simp add: le_mod_geq)
    have "64 dvd unat (i + 64) \<or> unat len + 63 < 2 ^ 32" using less.prems(2) p64 by auto
    moreover have "unat len - unat (i + 64) < unat len - unat i" "unat (i + 64) \<le> unat len" using le p64 by simp_all
    ultimately obtain j where j: "md5_blocks buf len (i + 64) (list_of (rfc_block st (take 64 ?d))) =
        Ret (list_of (absorb rfc_block (rfc_block st (take 64 ?d)) (drop (unat (i + 64)) (take (unat len) buf))), j)"
      "unat j = unat len - (unat len - unat (i + 64)) mod 64" "unat (i + 64) \<le> unat j"
      using less.hyps [of "i + 64" "rfc_block st (take 64 ?d)"] by blast
    then show ?thesis using True le b p64
      by (intro exI [of _ j]) (simp add: md5_blocks.simps [of buf len i] d m)
  qed
qed

section \<open>The context after a message\<close>

definition rfc_iv :: regs where "rfc_iv = (0x67452301, 0xefcdab89, 0x98badcfe, 0x10325476)"

definition ctx_at :: "MD5Context \<Rightarrow> u8 list \<Rightarrow> bool" where
  "ctx_at ctx m \<longleftrightarrow>
     length (md_buffer ctx) = 64 \<and> md_state ctx = list_of (absorb rfc_block rfc_iv m)
     \<and> take (length m mod 64) (md_buffer ctx) = drop (length m - length m mod 64) m
     \<and> md_count0 ctx = of_nat (8 * length m) \<and> md_count1 ctx = of_nat (8 * length m div 2 ^ 32)"

lemma ctx_at_init: "length (md_buffer junk) = 64 \<Longrightarrow> ctx_at (MD5_Init junk) []"
  by (simp add: ctx_at_def MD5_Init_def absorb_short rfc_iv_def)

lemma index_of_count: "unat (drop_bit 3 (of_nat (8 * n) :: u32) AND 0x3F) = n mod 64"
proof -
  have "drop_bit 3 (of_nat (8 * n) :: u32) AND 0x3F = take_bit 6 (drop_bit 3 (of_nat (8 * n)))"
    by (simp add: take_bit_eq_mask mask_eq_exp_minus_1)
  then have "unat (drop_bit 3 (of_nat (8 * n) :: u32) AND 0x3F) = (8 * n mod 2 ^ 32 div 8) mod 64"
    by (simp only: unsigned_take_bit_eq unsigned_drop_bit_eq unat_of_nat) (simp add: drop_bit_eq_div take_bit_eq_mod)
  also have "\<dots> = n mod 64"
  proof -
    have "8 * n mod (8 * 2 ^ 29) = 8 * (n mod 2 ^ 29)" by (rule mult_mod_right [symmetric])
    then have "8 * n mod 2 ^ 32 div 8 = n mod 2 ^ 29" by simp
    also have "n mod 2 ^ 29 mod 64 = n mod 64" by (rule mod_mod_cancel) simp
    finally show ?thesis by simp
  qed
  finally show ?thesis .
qed

definition carry :: "nat \<Rightarrow> nat \<Rightarrow> nat" where "carry a b = (a mod 2 ^ 32 + b mod 2 ^ 32) div 2 ^ 32"

lemma sum_wraps:
  assumes "x < m" "y < m" "m \<le> x + (y :: nat)"
  shows "(x + y) mod m = x + y - m" "(x + y) div m = 1"
  using assms by (simp_all add: le_mod_geq le_div_geq)

lemma carry_word: "(if of_nat a + of_nat b < (of_nat b :: u32) then 1 else 0) = (of_nat (carry a b) :: u32)"
proof -
  let ?a = "a mod 2 ^ 32" and ?b = "b mod 2 ^ 32"
  have u: "unat (of_nat b :: u32) = ?b" "unat (of_nat a + of_nat b :: u32) = (?a + ?b) mod 2 ^ 32"
    by (simp_all add: unat_word_ariths unat_of_nat take_bit_eq_mod)
  have lt: "?a < 2 ^ 32" "?b < 2 ^ 32" by simp_all
  show ?thesis
  proof (cases "?a + ?b < 2 ^ 32")
    case True
    then have "carry a b = 0" "(?a + ?b) mod 2 ^ 32 = ?a + ?b" unfolding carry_def by simp_all
    then show ?thesis unfolding word_less_nat_alt u by simp
  next
    case False
    then have "2 ^ 32 \<le> ?a + ?b" by linarith
    note one_more = sum_wraps [OF lt this]
    note m = one_more(1)
    have "carry a b = 1" unfolding carry_def by (rule one_more(2))
    moreover have "?a + ?b - 2 ^ 32 < ?b" using False lt by linarith
    ultimately show ?thesis unfolding word_less_nat_alt u m by simp
  qed
qed

lemma count_add:
  "of_nat (8 * n) + push_bit 3 len = (of_nat (8 * (n + unat len)) :: u32)"
  "of_nat (8 * n div 2 ^ 32) + (if of_nat (8 * n) + push_bit 3 len < push_bit 3 len then 1 else 0) + drop_bit 29 len
     = (of_nat (8 * (n + unat len) div 2 ^ 32) :: u32)"
proof -
  have p: "push_bit 3 len = of_nat (8 * unat len)" by (simp add: push_bit_eq_mult)
  then show "of_nat (8 * n) + push_bit 3 len = (of_nat (8 * (n + unat len)) :: u32)"
    by (simp add: distrib_left)
  have d: "drop_bit 29 len = of_nat (8 * unat len div 2 ^ 32)"
  proof (rule word_unat_eq_iff [THEN iffD2])
    have "unat len div 2 ^ 29 < 2 ^ 32" using unat_u32_bound [of len] by (auto intro: le_less_trans [OF div_le_dividend])
    then show "unat (drop_bit 29 len) = unat (of_nat (8 * unat len div 2 ^ 32) :: u32)"
      using unat_u32_bound [of len]
      by (simp only: unsigned_drop_bit_eq unat_of_nat) (simp add: drop_bit_eq_div take_bit_eq_mod)
  qed
  have q: "8 * (n + unat len) div 2 ^ 32 = 8 * n div 2 ^ 32 + 8 * unat len div 2 ^ 32 + carry (8 * n) (8 * unat len)"
    unfolding carry_def distrib_left by (rule div_add1_eq)
  show "of_nat (8 * n div 2 ^ 32) + (if of_nat (8 * n) + push_bit 3 len < push_bit 3 len then 1 else 0) + drop_bit 29 len
     = (of_nat (8 * (n + unat len) div 2 ^ 32) :: u32)"
    unfolding p d carry_word q of_nat_add by (simp only: ac_simps)
qed

section \<open>Updating the context\<close>

lemma copy_in_ok:
  assumes "unat index + unat n \<le> 64" "unat i + unat n \<le> unat len" "unat len \<le> length buf" "length (md_buffer ctx) = 64"
  shows "\<exists>b. copy_in index buf len i n ctx = Ret (ctx\<lparr>md_buffer := b\<rparr>) \<and> length b = 64
    \<and> take (unat index + unat n) b = take (unat index) (md_buffer ctx) @ take (unat n) (drop (unat i) buf)"
proof (cases "n = 0")
  case True
  then show ?thesis using assms(4) by (intro exI [of _ "md_buffer ctx"]) (simp add: copy_in_def)
next
  case False
  have "unat i + unat n \<le> length buf" using assms(2,3) by linarith
  then show ?thesis using assms False
    by (intro exI [of _ "take (unat index) (md_buffer ctx) @ take (unat n) (drop (unat i) buf)
         @ drop (unat index + unat n) (md_buffer ctx)"]) (auto simp: copy_in_def)
qed

text \<open>A message cut into its whole blocks and the rest that is in the buffer.\<close>

lemma ctx_at_split:
  assumes "ctx_at ctx m"
  obtains a r where "m = a @ r" "64 dvd length a" "length r = length m mod 64" "length r < 64"
    "take (length r) (md_buffer ctx) = r" "md_state ctx = list_of (absorb rfc_block rfc_iv a)"
proof
  let ?k = "length m mod 64" let ?a = "take (length m - ?k) m" let ?r = "drop (length m - ?k) m"
  show "m = ?a @ ?r" by simp
  have k: "?k \<le> length m" by simp
  then show l: "length ?r = ?k" by simp
  have "length ?a = 64 * (length m div 64)" by (simp add: minus_mod_eq_mult_div)
  then show d: "64 dvd length ?a" by (metis dvd_triv_left)
  show s: "length ?r < 64" unfolding l by simp
  show "take (length ?r) (md_buffer ctx) = ?r" using assms unfolding l by (simp add: ctx_at_def)
  have "absorb rfc_block rfc_iv m = absorb rfc_block (absorb rfc_block rfc_iv ?a) ?r"
    using absorb_append [OF d, of rfc_block rfc_iv ?r] by simp
  then show "md_state ctx = list_of (absorb rfc_block rfc_iv ?a)"
    using assms s by (simp add: ctx_at_def absorb_short)
qed

lemma ctx_atI:
  assumes "m = a @ r" "64 dvd length a" "length r < 64" "length (md_buffer ctx) = 64" "take (length r) (md_buffer ctx) = r"
    and "md_state ctx = list_of (absorb rfc_block rfc_iv a)"
    and "md_count0 ctx = of_nat (8 * length m)" "md_count1 ctx = of_nat (8 * length m div 2 ^ 32)"
  shows "ctx_at ctx m"
proof -
  have "length m mod 64 = length r" using assms(1-3) by (auto elim!: dvdE)
  moreover have "absorb rfc_block rfc_iv m = absorb rfc_block rfc_iv a"
    unfolding assms(1) absorb_append [OF assms(2)] by (rule absorb_short [OF assms(3)])
  ultimately show ?thesis using assms by (simp add: ctx_at_def)
qed

lemma update_unfold:
  fixes len :: u32
  assumes "ctx_at ctx m"
  defines "index \<equiv> drop_bit 3 (md_count0 ctx) AND 0x3F"
    and "c \<equiv> ctx\<lparr>md_count0 := of_nat (8 * (length m + unat len)), md_count1 := of_nat (8 * (length m + unat len) div 2 ^ 32)\<rparr>"
  shows "MD5_Update buf len ctx =
     (if 64 - index \<le> len then
        run_bind (copy_in index buf len 0 (64 - index) c) (\<lambda>ctx.
          run_bind (md5_blocks buf len (64 - index) (MD5_Transform (md_state ctx) (md_buffer ctx))) (\<lambda>(st, i).
            copy_in 0 buf len i (len - i) (ctx\<lparr>md_state := st\<rparr>)))
      else copy_in index buf len 0 len c)"
    and "unat index = length m mod 64" and "unat (64 - index) = 64 - length m mod 64"
    and "64 - index \<le> len \<longleftrightarrow> 64 \<le> length m mod 64 + unat len"
proof -
  have m: "md_count0 ctx = of_nat (8 * length m)" "md_count1 ctx = of_nat (8 * length m div 2 ^ 32)"
    using assms(1) by (simp_all add: ctx_at_def)
  show i: "unat index = length m mod 64" unfolding index_def m(1) by (rule index_of_count)
  have "index \<le> 64" using i by (simp add: word_le_nat_alt)
  then show p: "unat (64 - index) = 64 - length m mod 64" using i by (simp add: unat_sub)
  have le: "length m mod 64 \<le> 64" by simp
  show "64 - index \<le> len \<longleftrightarrow> 64 \<le> length m mod 64 + unat len"
    unfolding word_le_nat_alt p using le by linarith
  have c1: "of_nat (8 * (length m + unat len) div 2 ^ 32) =
      (if of_nat (8 * length m) + push_bit 3 len < push_bit 3 len then md_count1 ctx + 1 else md_count1 ctx) + drop_bit 29 len"
    unfolding count_add(2) [symmetric] m(2) by simp
  have c: "(let ctx = ctx\<lparr>md_count0 := md_count0 ctx + push_bit 3 len\<rparr>;
      ctx = (if md_count0 ctx < push_bit 3 len then ctx\<lparr>md_count1 := md_count1 ctx + 1\<rparr> else ctx)
    in ctx\<lparr>md_count1 := md_count1 ctx + drop_bit 29 len\<rparr>) = c"
    unfolding c_def c1 count_add(1) [of "length m" len, symmetric] Let_def by (simp add: m(1) del: of_nat_mult)
  show "MD5_Update buf len ctx =
     (if 64 - index \<le> len then
        run_bind (copy_in index buf len 0 (64 - index) c) (\<lambda>ctx.
          run_bind (md5_blocks buf len (64 - index) (MD5_Transform (md_state ctx) (md_buffer ctx))) (\<lambda>(st, i).
            copy_in 0 buf len i (len - i) (ctx\<lparr>md_state := st\<rparr>)))
      else copy_in index buf len 0 len c)"
    unfolding MD5_Update_def index_def [symmetric] c [symmetric] Let_def by simp
qed

lemma update_short:
  assumes "ctx_at ctx m" "unat len \<le> length buf" "length m mod 64 + unat len < 64"
  shows "\<exists>ctx'. MD5_Update buf len ctx = Ret ctx' \<and> ctx_at ctx' (m @ take (unat len) buf)"
proof -
  let ?index = "drop_bit 3 (md_count0 ctx) AND 0x3F"
  let ?c = "ctx\<lparr>md_count0 := of_nat (8 * (length m + unat len)), md_count1 := of_nat (8 * (length m + unat len) div 2 ^ 32)\<rparr>"
  note u = update_unfold [OF assms(1)]
  obtain a r where s: "m = a @ r" "64 dvd length a" "length r = length m mod 64" "length r < 64"
    "take (length r) (md_buffer ctx) = r" "md_state ctx = list_of (absorb rfc_block rfc_iv a)"
    by (rule ctx_at_split [OF assms(1)]) blast
  have ix: "unat ?index = length r" using u(2) s(3) by simp
  have len: "length (md_buffer ?c) = 64" using assms(1) by (simp add: ctx_at_def)
  have fits: "unat ?index + unat len \<le> 64" unfolding ix using s(3) assms(3) by linarith
  obtain b where b: "copy_in ?index buf len 0 len ?c = Ret (?c\<lparr>md_buffer := b\<rparr>)" "length b = 64"
    "take (length r + unat len) b = r @ take (unat len) buf"
    using copy_in_ok [OF fits _ assms(2) len, of 0] s(5) ix by auto
  have "ctx_at (?c\<lparr>md_buffer := b\<rparr>) (m @ take (unat len) buf)"
  proof (rule ctx_atI)
    have l: "length (m @ take (unat len) buf) = length m + unat len" using assms(2) by simp
    show "m @ take (unat len) buf = a @ (r @ take (unat len) buf)" using s(1) by simp
    show "md_count0 (?c\<lparr>md_buffer := b\<rparr>) = of_nat (8 * length (m @ take (unat len) buf))"
      "md_count1 (?c\<lparr>md_buffer := b\<rparr>) = of_nat (8 * length (m @ take (unat len) buf) div 2 ^ 32)"
      unfolding l by simp_all
  qed (use s b assms(2,3) in simp_all)
  then show ?thesis using u(1) [where buf = buf and len = len] u(4) [where len = len] b(1) assms(3) by auto
qed

lemma update_long:
  assumes "ctx_at ctx m" "unat len \<le> length buf" "64 \<le> length m mod 64 + unat len"
    and "length m mod 64 = 0 \<or> unat len + 63 < 2 ^ 32"
  shows "\<exists>ctx'. MD5_Update buf len ctx = Ret ctx' \<and> ctx_at ctx' (m @ take (unat len) buf)"
proof -
  let ?index = "drop_bit 3 (md_count0 ctx) AND 0x3F" let ?L = "unat len" let ?d = "take (unat len) buf"
  let ?c = "ctx\<lparr>md_count0 := of_nat (8 * (length m + unat len)), md_count1 := of_nat (8 * (length m + unat len) div 2 ^ 32)\<rparr>"
  note u = update_unfold [OF assms(1)]
  obtain a r where s: "m = a @ r" "64 dvd length a" "length r = length m mod 64" "length r < 64"
    "take (length r) (md_buffer ctx) = r" "md_state ctx = list_of (absorb rfc_block rfc_iv a)"
    by (rule ctx_at_split [OF assms(1)]) blast
  let ?p = "64 - length r" let ?S = "absorb rfc_block rfc_iv a"
  have ix: "unat ?index = length r" "unat (64 - ?index) = ?p" "64 - ?index \<le> len" using u(2-4) s(3) assms(3) by simp_all
  have pL: "?p \<le> ?L" using assms(3) s(3) by linarith
  have len: "length (md_buffer ?c) = 64" using assms(1) by (simp add: ctx_at_def)
  have fits: "unat ?index + unat (64 - ?index) \<le> 64" "unat (0 :: u32) + unat (64 - ?index) \<le> ?L"
    unfolding ix using s(4) pL by simp_all
  obtain b where b: "copy_in ?index buf len 0 (64 - ?index) ?c = Ret (?c\<lparr>md_buffer := b\<rparr>)" "length b = 64"
    "b = r @ take ?p buf"
    using copy_in_ok [OF fits assms(2) len] s(4,5) ix by auto
  have T: "MD5_Transform (list_of ?S) b = list_of (rfc_block ?S b)" using transform_rfc [of b ?S] b(2) by simp
  have "64 dvd unat (64 - ?index) \<or> ?L + 63 < 2 ^ 32" using assms(4) s(3) unfolding ix by auto
  then obtain j where j: "md5_blocks buf len (64 - ?index) (list_of (rfc_block ?S b)) =
      Ret (list_of (absorb rfc_block (rfc_block ?S b) (drop ?p ?d)), j)"
    "unat j = ?L - (?L - ?p) mod 64" "?p \<le> unat j"
    using md5_blocks_absorb [OF assms(2), of "64 - ?index" "rfc_block ?S b"] pL unfolding ix by blast
  let ?t = "(?L - ?p) mod 64" let ?x = "take (?L - ?p - ?t) (drop ?p ?d)" let ?r = "drop (unat j) ?d"
  have tL: "?t \<le> ?L - ?p" "?t < 64" by simp_all
  have jL: "j \<le> len" unfolding word_le_nat_alt j(2) by simp
  then have n: "unat (len - j) = ?t" using j(2) tL by (simp add: unat_sub)
  let ?c2 = "?c\<lparr>md_buffer := b, md_state := list_of (absorb rfc_block (rfc_block ?S b) (drop ?p ?d))\<rparr>"
  have fits2: "unat (0 :: u32) + unat (len - j) \<le> 64" "unat j + unat (len - j) \<le> ?L" "length (md_buffer ?c2) = 64"
    using tL(2) b(2) n jL by (simp_all add: unat_sub word_le_nat_alt)
  obtain b2 where b2: "copy_in 0 buf len j (len - j) ?c2 = Ret (?c2\<lparr>md_buffer := b2\<rparr>)" "length b2 = 64"
    "take ?t b2 = take ?t (drop (unat j) buf)"
    using copy_in_ok [OF fits2(1,2) assms(2) fits2(3)] n by auto
  have "?L - unat j = ?t" using j(2) tL(1) by linarith
  then have r: "length ?r = ?t" "?r = take ?t (drop (unat j) buf)" using assms(2) by (simp_all add: drop_take)
  have xr: "drop ?p ?d = ?x @ ?r"
  proof -
    have "?p + (?L - ?p - ?t) = unat j" using tL(1) pL j(2) by linarith
    then have "drop (?L - ?p - ?t) (drop ?p ?d) = ?r" by (simp only: drop_drop add.commute)
    then show ?thesis by (metis append_take_drop_id)
  qed
  have x64: "64 dvd length ?x" using assms(2) tL(1) by (simp add: minus_mod_eq_mult_div)
  have "ctx_at (?c2\<lparr>md_buffer := b2\<rparr>) (m @ ?d)"
  proof (rule ctx_atI)
    have l: "length (m @ ?d) = length m + unat len" using assms(2) by simp
    show "md_count0 (?c2\<lparr>md_buffer := b2\<rparr>) = of_nat (8 * length (m @ ?d))"
      "md_count1 (?c2\<lparr>md_buffer := b2\<rparr>) = of_nat (8 * length (m @ ?d) div 2 ^ 32)"
      unfolding l by simp_all
    have "?d = take ?p buf @ drop ?p ?d" using pL append_take_drop_id [of ?p ?d] by (simp add: min_absorb1)
    then show "m @ ?d = (a @ b @ ?x) @ ?r" using s(1) b(3) xr by simp
    show "64 dvd length (a @ b @ ?x)" using s(2) b(2) x64 by simp
    show "length ?r < 64" unfolding r(1) by (rule tL(2))
    show "take (length ?r) (md_buffer (?c2\<lparr>md_buffer := b2\<rparr>)) = ?r" unfolding r(1) using b2(3) r(2) by simp
    have "absorb rfc_block rfc_iv (a @ b @ ?x) = absorb rfc_block (rfc_block ?S b) ?x"
      by (simp only: absorb_append [OF s(2)] absorb_block [OF b(2)])
    also have "\<dots> = absorb rfc_block (rfc_block ?S b) (drop ?p ?d)"
      using tL(2) r(1) by (subst xr) (simp only: absorb_append [OF x64] absorb_short)
    finally show "md_state (?c2\<lparr>md_buffer := b2\<rparr>) = list_of (absorb rfc_block rfc_iv (a @ b @ ?x))" by simp
  qed (use b2 assms(2) in simp_all)
  then show ?thesis using u(1) [where buf = buf and len = len] ix(3) b(1) b2(1) j(1) T s(6) by simp
qed

lemma update_ok:
  assumes "ctx_at ctx m" "unat len \<le> length buf" "length m mod 64 = 0 \<or> unat len + 63 < 2 ^ 32"
  obtains ctx' where "MD5_Update buf len ctx = Ret ctx'" "ctx_at ctx' (m @ take (unat len) buf)"
  using update_short [OF assms(1,2)] update_long [OF assms(1,2) _ assms(3)] by (meson not_less)

section \<open>The digest\<close>

lemma byte_of_nat:
  "byte0 (of_nat n) = of_nat n" "byte1 (of_nat n) = of_nat (n div 256)"
  "byte2 (of_nat n) = of_nat (n div 256 ^ 2)" "byte3 (of_nat n) = of_nat (n div 256 ^ 3)"
proof -
  have d: "n div 256 = drop_bit 8 n" "n div 256 ^ 2 = drop_bit 16 n" "n div 256 ^ 3 = drop_bit 24 n"
    by (simp_all add: drop_bit_eq_div)
  show "byte0 (of_nat n) = of_nat n" "byte1 (of_nat n) = of_nat (n div 256)"
    "byte2 (of_nat n) = of_nat (n div 256 ^ 2)" "byte3 (of_nat n) = of_nat (n div 256 ^ 3)"
    unfolding d by (rule bit_word_eqI, auto simp: bit_bytes bit_of_nat_iff bit_drop_bit_eq)+
qed

lemma length_bits:
  "MD5_Encode [of_nat n, of_nat (n div 2 ^ 32)] = map (\<lambda>j. of_nat (n div 256 ^ j)) [0..<8]"
  by (simp add: MD5_Encode_def byte_of_nat div_mult2_eq [symmetric] upt_conv_Cons)

lemma pad_bytes:
  assumes "k < 64"
  shows "take (if k < 56 then 56 - k else 120 - k) PADDING = 0x80 # replicate ((119 - k) mod 64) 0"
proof -
  have t: "take (Suc n) PADDING = 0x80 # replicate n 0" if "n \<le> 63" for n
    using that by (simp add: PADDING_def min_absorb1)
  show ?thesis
  proof (cases "k < 56")
    case True
    then show ?thesis using t [of "55 - k"] by (simp add: le_mod_geq Suc_diff_le [symmetric])
  next
    case False
    then show ?thesis using t [of "119 - k"] assms by (simp add: Suc_diff_le [symmetric])
  qed
qed

lemma MD5_Final_rfc:
  assumes "ctx_at ctx m"
  shows "MD5_Final ctx = Ret (rfc_md5 m)"
proof -
  let ?k = "length m mod 64" let ?index = "drop_bit 3 (md_count0 ctx) AND 0x3F"
  let ?pad = "if ?index < 56 then 56 - ?index else 120 - ?index"
  let ?bits = "MD5_Encode [md_count0 ctx, md_count1 ctx]"
  have m: "md_count0 ctx = of_nat (8 * length m)" "md_count1 ctx = of_nat (8 * length m div 2 ^ 32)"
    using assms by (simp_all add: ctx_at_def)
  have i: "unat ?index = ?k" unfolding m(1) by (rule index_of_count)
  have k: "?k < 64" by simp
  have pad: "unat ?pad = (if ?k < 56 then 56 - ?k else 120 - ?k)"
    using i k by (auto simp: word_less_nat_alt word_le_nat_alt unat_sub)
  have bits: "?bits = map (\<lambda>j. of_nat (8 * length m div 256 ^ j)) [0..<8]" unfolding m by (rule length_bits)
  have "unat ?pad \<le> length PADDING" unfolding pad using k by (auto simp: PADDING_def)
  moreover have "unat ?pad + 63 < 2 ^ 32" unfolding pad by auto
  ultimately obtain c1 where c1: "MD5_Update PADDING ?pad ctx = Ret c1"
    "ctx_at c1 (m @ 0x80 # replicate ((119 - ?k) mod 64) 0)"
    using update_ok [OF assms, of ?pad PADDING] pad_bytes [OF k] pad by auto
  have "length ?bits = 8" unfolding bits by simp
  then obtain c2 where c2: "MD5_Update ?bits 8 c1 = Ret c2" "ctx_at c2 (rfc_pad m)"
    using update_ok [OF c1(2), of 8 ?bits] bits by (auto simp: rfc_pad_def)
  show ?thesis using c1(1) c2 unfolding MD5_Final_def Let_def
    by (simp add: ctx_at_def rfc_md5_def rfc_iv_def MD5_Encode_def split: prod.splits)
qed

definition hex_pair :: "u8 \<Rightarrow> u8 list" where
  "hex_pair b = [hex_digits ! (unat b div 16), hex_digits ! (unat b mod 16)]"

lemma hex_digit_table: "unat n < 16 \<Longrightarrow> hex_digit n = hex_digits ! unat n"
proof -
  assume n: "unat n < 16"
  have "\<forall>i\<in>set [0..<16]. hex_digit (of_nat i) = hex_digits ! i" by (simp add: upt_rec hex_digit_def hex_digits_def)
  from bspec [OF this, of "unat n"] n show ?thesis by simp
qed

lemma to_hex_pairs: "to_hex bs = concat (map hex_pair bs) @ [0]"
proof -
  have "unat (drop_bit 4 (b AND 0xF0)) = unat b div 16" for b :: u8
  proof -
    have "drop_bit 4 (b AND 0xF0) = take_bit 4 (drop_bit 4 b)" by (simp add: drop_bit_and take_bit_eq_mask mask_eq_exp_minus_1)
    moreover have "unat b div 16 < 16" using unat_byte_bound [of b] by auto
    ultimately show ?thesis
      by (simp only: unsigned_take_bit_eq unsigned_drop_bit_eq) (simp add: drop_bit_eq_div take_bit_eq_mod)
  qed
  moreover have "unat b div 16 < 16" for b :: u8 using unat_byte_bound [of b] by auto
  ultimately have "hex_digit (drop_bit 4 (b AND 0xF0)) = hex_digits ! (unat b div 16)" for b
    using hex_digit_table [of "drop_bit 4 (b AND 0xF0)"] by metis
  moreover have "unat (b AND 0x0F) = unat b mod 16" for b :: u8
  proof -
    have "b AND 0x0F = take_bit 4 b" by (simp add: take_bit_eq_mask mask_eq_exp_minus_1)
    then show ?thesis by (simp only: unsigned_take_bit_eq) (simp add: take_bit_eq_mod)
  qed
  then have "hex_digit (b AND 0x0F) = hex_digits ! (unat b mod 16)" for b
    using hex_digit_table [of "b AND 0x0F"] by simp
  ultimately show ?thesis by (simp only: to_hex_def hex_pair_def [abs_def])
qed

text \<open>
  C8. \<open>MD5_Calculate\<close> is MD5: for content of fewer than \<open>2^32\<close> bytes, whatever the context held before, it
  reads and writes within its objects and returns the digest of RFC 1321 as 32 lower-case hexadecimal digits
  and a NUL.
\<close>

theorem md5_is_rfc1321:
  assumes "length content < 2 ^ 32" "length (md_buffer junk) = 64"
  shows "MD5_Calculate junk content (of_nat (length content)) = Ret (concat (map hex_pair (rfc_md5 content)) @ [0])"
proof -
  have l: "unat (of_nat (length content) :: u32) = length content" using assms(1) by (simp add: unat_of_nat)
  obtain c where "MD5_Update content (of_nat (length content)) (MD5_Init junk) = Ret c" "ctx_at c content"
    using update_ok [OF ctx_at_init [OF assms(2)], of "of_nat (length content)" content] l by auto
  then show ?thesis by (simp add: MD5_Calculate_def MD5_Final_rfc to_hex_pairs)
qed

theorem md5_is_rfc1321_witness:
  "MD5_Calculate \<lparr>md_state = [], md_count0 = 7, md_count1 = 7, md_buffer = replicate 64 7\<rparr> (str ''abc'') 3
     = Ret (concat (map hex_pair (rfc_md5 (str ''abc''))) @ [0])"
  using md5_is_rfc1321 [of "str ''abc''" "\<lparr>md_state = [], md_count0 = 7, md_count1 = 7, md_buffer = replicate 64 7\<rparr>"]
  by simp

end
