(* ===== verification/Json_Reader.thy ===== *)
theory Json_Reader
  imports Json_Value
begin

text \<open>
  The class \<open>Reader\<close> of \<^verbatim>\<open>src/stputil/json/jsoncpp.cc\<close>, the parser of the configuration files, and
  \<open>JsonParser::Parse\<close>.

  A \<open>Location\<close> is the list of the bytes from it to the end of the document, so that a token's text is what
  its start has more than its end.  An error is its message; the token stored with it is only used to print
  it.  Comments, which \<open>collectComments_\<close> attaches to values, and the offsets of values are not modelled.
  The conversion of a token to a double by an input stream is the argument \<open>rd\<close>.
\<close>

section \<open>Characters and tokens\<close>

abbreviation ch :: "char \<Rightarrow> u8" where "ch \<equiv> of_char"

datatype token_type =
    tokenEndOfStream | tokenObjectBegin | tokenObjectEnd | tokenArrayBegin | tokenArrayEnd | tokenString
  | tokenNumber | tokenTrue | tokenFalse | tokenNull | tokenArraySeparator | tokenMemberSeparator
  | tokenComment | tokenError

record token =
  tok_type :: token_type
  tok_start :: "u8 list"
  tok_end :: "u8 list"

definition token_text :: "token \<Rightarrow> u8 list" where
  "token_text t = take (length (tok_start t) - length (tok_end t)) (tok_start t)"

fun getNextChar :: "u8 list \<Rightarrow> u8 \<times> u8 list" where
  "getNextChar [] = (0, [])"
| "getNextChar (c # cs) = (c, cs)"

definition json_space :: "u8 \<Rightarrow> bool" where
  "json_space c \<longleftrightarrow> c = ch CHR '' '' \<or> c = 9 \<or> c = 13 \<or> c = 10"

definition skipSpaces :: "u8 list \<Rightarrow> u8 list" where
  "skipSpaces cur = dropWhile json_space cur"

definition match_text :: "u8 list \<Rightarrow> u8 list \<Rightarrow> bool \<times> u8 list" where
  "match_text pattern cur =
     (if length cur < length pattern then (False, cur)
      else if take (length pattern) cur \<noteq> pattern then (False, cur)
      else (True, drop (length pattern) cur))"

text \<open>A \<open>*\<close> followed by the NUL at the end of the document does not end the loop before the document does.\<close>

fun c_comment_loop :: "u8 list \<Rightarrow> u8 list" where
  "c_comment_loop [] = []"
| "c_comment_loop (c # cs) =
     (if c = ch CHR ''*'' \<and> cs \<noteq> [] \<and> hd cs = ch CHR ''/'' then cs else c_comment_loop cs)"

definition readCStyleComment :: "u8 list \<Rightarrow> bool \<times> u8 list" where
  "readCStyleComment cur = (case getNextChar (c_comment_loop cur) of (c, cur) \<Rightarrow> (c = ch CHR ''/'', cur))"

fun readCppStyleComment :: "u8 list \<Rightarrow> bool \<times> u8 list" where
  "readCppStyleComment [] = (True, [])"
| "readCppStyleComment (c # cs) =
     (if c = 10 then (True, cs)
      else if c = 13 then (True, if cs \<noteq> [] \<and> hd cs = 10 then tl cs else cs)
      else readCppStyleComment cs)"

definition readComment :: "u8 list \<Rightarrow> bool \<times> u8 list" where
  "readComment cur =
     (case getNextChar cur of (c, cur) \<Rightarrow>
        if c = ch CHR ''*'' then readCStyleComment cur
        else if c = ch CHR ''/'' then readCppStyleComment cur
        else (False, cur))"

definition is_digit :: "u8 \<Rightarrow> bool" where "is_digit c \<longleftrightarrow> ch CHR ''0'' \<le> c \<and> c \<le> ch CHR ''9''"

definition at_char :: "u8 list \<Rightarrow> u8 \<Rightarrow> bool" where "at_char cur c \<longleftrightarrow> cur \<noteq> [] \<and> hd cur = c"

text \<open>In the code \<open>current_\<close> follows one behind \<open>p\<close> and is left at the first character that is not taken.\<close>

definition number_fraction :: "u8 list \<Rightarrow> u8 list" where
  "number_fraction cur = (if at_char cur (ch CHR ''.'') then dropWhile is_digit (tl cur) else cur)"

definition number_exponent :: "u8 list \<Rightarrow> u8 list" where
  "number_exponent cur =
     (if at_char cur (ch CHR ''e'') \<or> at_char cur (ch CHR ''E'') then
        let cur = tl cur
        in dropWhile is_digit (if at_char cur (ch CHR ''+'') \<or> at_char cur (ch CHR ''-'') then tl cur else cur)
      else cur)"

definition readNumber :: "u8 list \<Rightarrow> u8 list" where
  "readNumber cur = number_exponent (number_fraction (dropWhile is_digit cur))"

text \<open>The first argument is \<open>c\<close>.\<close>

fun string_loop :: "u8 \<Rightarrow> u8 list \<Rightarrow> bool \<times> u8 list" where
  "string_loop c [] = (c = ch CHR 0x22, [])"
| "string_loop c (x # xs) =
     (if x = ch CHR 0x5C then string_loop x (tl xs)
      else if x = ch CHR 0x22 then (True, xs)
      else string_loop x xs)"

definition readString :: "u8 list \<Rightarrow> bool \<times> u8 list" where
  "readString cur = string_loop 0 cur"

text \<open>\<open>readToken\<close> always returns true.\<close>

definition read_token_from :: "u8 \<Rightarrow> u8 list \<Rightarrow> token_type \<times> bool \<times> u8 list" where
  "read_token_from c cur =
     (if c = ch CHR ''{'' then (tokenObjectBegin, True, cur)
      else if c = ch CHR ''}'' then (tokenObjectEnd, True, cur)
      else if c = ch CHR ''['' then (tokenArrayBegin, True, cur)
      else if c = ch CHR '']'' then (tokenArrayEnd, True, cur)
      else if c = ch CHR 0x22 then (tokenString, readString cur)
      else if c = ch CHR ''/'' then (tokenComment, readComment cur)
      else if is_digit c \<or> c = ch CHR ''-'' then (tokenNumber, True, readNumber cur)
      else if c = ch CHR ''t'' then (tokenTrue, match_text (str ''rue'') cur)
      else if c = ch CHR ''f'' then (tokenFalse, match_text (str ''alse'') cur)
      else if c = ch CHR ''n'' then (tokenNull, match_text (str ''ull'') cur)
      else if c = ch CHR '','' then (tokenArraySeparator, True, cur)
      else if c = ch CHR '':'' then (tokenMemberSeparator, True, cur)
      else if c = 0 then (tokenEndOfStream, True, cur)
      else (tokenError, False, cur))"

definition readToken :: "u8 list \<Rightarrow> token \<times> u8 list" where
  "readToken cur =
     (let start = skipSpaces cur
      in case getNextChar start of (c, cur) \<Rightarrow>
           case read_token_from c cur of (ty, ok, cur) \<Rightarrow>
             (\<lparr>tok_type = (if ok then ty else tokenError), tok_start = start, tok_end = cur\<rparr>, cur))"

section \<open>How far a token reaches\<close>

lemma length_c_comment_loop: "length (c_comment_loop cur) \<le> length cur"
  by (induction cur) auto

lemma length_cpp_comment: "readCppStyleComment cur = (ok, cur') \<Longrightarrow> length cur' \<le> length cur"
  by (induction cur) (auto split: if_splits)

lemma length_getNextChar: "getNextChar cur = (c, cur') \<Longrightarrow> length cur' \<le> length cur"
  by (cases cur) auto

lemma length_readComment: "readComment cur = (ok, cur') \<Longrightarrow> length cur' \<le> length cur"
proof -
  assume r: "readComment cur = (ok, cur')"
  obtain c cs where g: "getNextChar cur = (c, cs)" by fastforce
  have "length cur' \<le> length cs"
    using r g length_getNextChar [of "c_comment_loop cs"] length_c_comment_loop [of cs] length_cpp_comment [of cs]
    by (auto simp: readComment_def readCStyleComment_def split: if_splits prod.splits)
  then show ?thesis using length_getNextChar [OF g] by simp
qed

lemma length_dropWhile_tl: "length (dropWhile P (tl xs)) \<le> length xs"
  using length_dropWhile_le [of P "tl xs"] by simp

lemma length_readNumber: "length (readNumber cur) \<le> length cur"
proof -
  have "length (number_fraction xs) \<le> length xs" for xs
    by (simp add: number_fraction_def length_dropWhile_tl)
  moreover have "length (number_exponent xs) \<le> length xs" for xs
    using length_dropWhile_tl [of is_digit xs] length_dropWhile_tl [of is_digit "tl xs"]
    by (auto simp: number_exponent_def Let_def)
  ultimately show ?thesis unfolding readNumber_def by (meson le_trans length_dropWhile_le)
qed

lemma length_string_loop: "string_loop c cur = (ok, cur') \<Longrightarrow> length cur' \<le> length cur"
  by (induction c cur rule: string_loop.induct) (auto split: if_splits)

lemma length_match_text: "match_text p cur = (ok, cur') \<Longrightarrow> length cur' \<le> length cur"
  by (auto simp: match_text_def split: if_splits)

lemma length_read_token_from: "read_token_from c cur = (ty, ok, cur') \<Longrightarrow> length cur' \<le> length cur"
  using length_string_loop [of 0 cur] length_readComment [of cur] length_readNumber [of cur] length_match_text [of _ cur]
  by (auto simp: read_token_from_def readString_def split: if_splits)

lemma readToken_shorter:
  assumes "readToken cur = (t, cur')"
  shows "length cur' \<le> length cur" "tok_type t \<noteq> tokenEndOfStream \<Longrightarrow> length cur' < length cur"
proof -
  obtain c cs where g: "getNextChar (skipSpaces cur) = (c, cs)" by fastforce
  obtain ty ok cs' where r: "read_token_from c cs = (ty, ok, cs')" by (cases "read_token_from c cs") auto
  have t: "cur' = cs'" "tok_type t = (if ok then ty else tokenError)"
    using assms g r by (auto simp: readToken_def Let_def)
  have l: "length cs' \<le> length cs" by (rule length_read_token_from [OF r])
  have s: "length (skipSpaces cur) \<le> length cur" unfolding skipSpaces_def by (rule length_dropWhile_le)
  show "length cur' \<le> length cur" using t(1) l s length_getNextChar [OF g] by simp
  assume e: "tok_type t \<noteq> tokenEndOfStream"
  show "length cur' < length cur"
  proof (cases "skipSpaces cur")
    case Nil
    then have "c = 0" using g by simp
    then have "ty = tokenEndOfStream \<and> ok" using r by (simp add: read_token_from_def is_digit_def)
    then show ?thesis using t(2) e by simp
  next
    case (Cons x xs)
    then have "length cs < length (skipSpaces cur)" using g by simp
    then show ?thesis using t(1) l s by simp
  qed
qed

function skip_comments :: "u8 list \<Rightarrow> token \<times> u8 list" where
  "skip_comments cur =
     (case readToken cur of (t, cur') \<Rightarrow> if tok_type t = tokenComment then skip_comments cur' else (t, cur'))"
  by pat_completeness auto
termination by (relation "measure length") (auto dest: readToken_shorter(2) [OF sym])

declare skip_comments.simps [simp del]

lemma skip_comments_shorter:
  "skip_comments cur = (t, cur') \<Longrightarrow> length cur' \<le> length cur \<and> (tok_type t \<noteq> tokenEndOfStream \<longrightarrow> length cur' < length cur)"
proof (induction cur rule: skip_comments.induct)
  case (1 cur)
  obtain u cur1 where u: "readToken cur = (u, cur1)" by fastforce
  show ?case
  proof (cases "tok_type u = tokenComment")
    case True
    then have "length cur1 < length cur" using readToken_shorter(2) [OF u] by simp
    moreover have "skip_comments cur1 = (t, cur')" using 1(2) u True by (simp add: skip_comments.simps [of cur])
    ultimately show ?thesis using 1(1) [OF u [symmetric] True] by auto
  next
    case False
    then have "t = u" "cur' = cur1" using 1(2) u by (simp_all add: skip_comments.simps [of cur])
    then show ?thesis using readToken_shorter [OF u] by simp
  qed
qed

section \<open>Strings\<close>

fun hex_value :: "u8 \<Rightarrow> u32 option" where
  "hex_value c =
     (if is_digit c then Some (ucast (c - ch CHR ''0''))
      else if ch CHR ''a'' \<le> c \<and> c \<le> ch CHR ''f'' then Some (ucast (c - ch CHR ''a'') + 10)
      else if ch CHR ''A'' \<le> c \<and> c \<le> ch CHR ''F'' then Some (ucast (c - ch CHR ''A'') + 10)
      else None)"

fun hex_digits_value :: "nat \<Rightarrow> u32 \<Rightarrow> u8 list \<Rightarrow> u32 option" where
  "hex_digits_value 0 u cur = Some u"
| "hex_digits_value (Suc n) u [] = None"
| "hex_digits_value (Suc n) u (c # cur) =
     (case hex_value c of None \<Rightarrow> None | Some d \<Rightarrow> hex_digits_value n (u * 16 + d) cur)"

text \<open>The string's characters from \<open>current\<close> to its closing quote; the result is an error or what is decoded.\<close>

definition decodeUnicodeEscapeSequence :: "u8 list \<Rightarrow> u8 list + (u32 \<times> u8 list)" where
  "decodeUnicodeEscapeSequence cur =
     (if length cur < 4 then Inl (str ''Bad unicode escape sequence in string: four digits expected.'')
      else
        (case hex_digits_value 4 0 cur of
           None \<Rightarrow> Inl (str ''Bad unicode escape sequence in string: hexadecimal digit expected.'')
         | Some u \<Rightarrow> Inr (u, drop 4 cur)))"

definition decodeUnicodeCodePoint :: "u8 list \<Rightarrow> u8 list + (u32 \<times> u8 list)" where
  "decodeUnicodeCodePoint cur =
     (case decodeUnicodeEscapeSequence cur of
        Inl e \<Rightarrow> Inl e
      | Inr (unicode, cur) \<Rightarrow>
          if 0xD800 \<le> unicode \<and> unicode \<le> 0xDBFF then
            if length cur < 6 then
              Inl (str ''additional six characters expected to parse unicode surrogate pair.'')
            else if hd cur = ch CHR 0x5C \<and> hd (tl cur) = ch CHR ''u'' then
              (case decodeUnicodeEscapeSequence (drop 2 cur) of
                 Inl e \<Rightarrow> Inl e
               | Inr (surrogatePair, cur) \<Rightarrow>
                   Inr (0x10000 + push_bit 10 (unicode AND 0x3FF) + (surrogatePair AND 0x3FF), cur))
            else
              Inl (str (''expecting another '' @ [CHR 0x5C] @ ''u token to begin the second half of a unicode surrogate pair''))
          else Inr (unicode, cur))"

definition codePointToUTF8 :: "u32 \<Rightarrow> u8 list" where
  "codePointToUTF8 cp =
     (if cp \<le> 0x7f then [ucast cp]
      else if cp \<le> 0x7FF then [0xC0 OR ucast (0x1f AND drop_bit 6 cp), 0x80 OR ucast (0x3f AND cp)]
      else if cp \<le> 0xFFFF then
        [0xE0 OR ucast (0xf AND drop_bit 12 cp), 0x80 OR ucast (0x3f AND drop_bit 6 cp), 0x80 OR ucast (0x3f AND cp)]
      else if cp \<le> 0x10FFFF then
        [0xF0 OR ucast (0x7 AND drop_bit 18 cp), 0x80 OR ucast (0x3f AND drop_bit 12 cp),
         0x80 OR ucast (0x3f AND drop_bit 6 cp), 0x80 OR ucast (0x3f AND cp)]
      else [])"

definition simple_escape :: "u8 \<Rightarrow> u8 option" where
  "simple_escape c =
     (if c = ch CHR 0x22 then Some c
      else if c = ch CHR ''/'' then Some c
      else if c = ch CHR 0x5C then Some c
      else if c = ch CHR ''b'' then Some 8
      else if c = ch CHR ''f'' then Some 12
      else if c = ch CHR ''n'' then Some 10
      else if c = ch CHR ''r'' then Some 13
      else if c = ch CHR ''t'' then Some 9
      else None)"

lemma length_unicode: "decodeUnicodeEscapeSequence cur = Inr (u, cur') \<Longrightarrow> length cur' \<le> length cur"
  by (auto simp: decodeUnicodeEscapeSequence_def split: if_splits option.splits)

lemma length_code_point: "decodeUnicodeCodePoint cur = Inr (u, cur') \<Longrightarrow> length cur' \<le> length cur"
  by (auto simp: decodeUnicodeCodePoint_def split: if_splits sum.splits dest!: length_unicode)

function decode_chars :: "u8 list \<Rightarrow> u8 list \<Rightarrow> u8 list + u8 list" where
  "decode_chars [] decoded = Inr decoded"
| "decode_chars (c # cs) decoded =
     (if c = ch CHR 0x22 then Inr decoded
      else if c = ch CHR 0x5C then
        (case cs of
           [] \<Rightarrow> Inl (str ''Empty escape sequence in string'')
         | escape # cur \<Rightarrow>
             if escape = ch CHR ''u'' then
               (case decodeUnicodeCodePoint cur of
                  Inl e \<Rightarrow> Inl e
                | Inr (unicode, cur) \<Rightarrow> decode_chars cur (decoded @ codePointToUTF8 unicode))
             else
               (case simple_escape escape of
                  None \<Rightarrow> Inl (str ''Bad escape sequence in string'')
                | Some x \<Rightarrow> decode_chars cur (decoded @ [x])))
      else decode_chars cs (decoded @ [c]))"
  by pat_completeness auto
termination
  by (relation "measure (\<lambda>(cur, decoded). length cur)") (auto dest!: length_code_point simp: le_imp_less_Suc)

definition decodeString :: "token \<Rightarrow> u8 list + u8 list" where
  "decodeString t = decode_chars (butlast (tl (token_text t))) []"

section \<open>Numbers\<close>

fun decode_digits :: "u64 \<Rightarrow> u8 list \<Rightarrow> u64 \<Rightarrow> u64 option" where
  "decode_digits maxi [] v = Some v"
| "decode_digits maxi (c # cs) v =
     (if \<not> is_digit c then None
      else
        let digit = ucast (c - ch CHR ''0'')
        in if v \<ge> maxi div 10 \<and> (v > maxi div 10 \<or> cs \<noteq> [] \<or> digit > maxi mod 10) then None
           else decode_digits maxi cs (v * 10 + digit))"

definition decodeDouble :: "(u8 list \<Rightarrow> real option) \<Rightarrow> u8 list \<Rightarrow> u8 list + json" where
  "decodeDouble rd txt =
     (case rd txt of
        None \<Rightarrow> Inl (str [CHR 0x27] @ txt @ str (CHR 0x27 # '' is not a number.''))
      | Some d \<Rightarrow> Inr (RealValue d))"

definition decodeNumber :: "(u8 list \<Rightarrow> real option) \<Rightarrow> token \<Rightarrow> u8 list + json" where
  "decodeNumber rd t =
     (let txt = token_text t;
          isNegative = at_char txt (ch CHR ''-'');
          maxIntegerValue = (if isNegative then 2 ^ 63 else -1)
      in case decode_digits maxIntegerValue (if isNegative then tl txt else txt) 0 of
           None \<Rightarrow> decodeDouble rd txt
         | Some v \<Rightarrow>
             Inr (if isNegative \<and> v = maxIntegerValue then IntValue (- (2 ^ 63))
                  else if isNegative then IntValue (- uint v)
                  else if uint v \<le> maxInt then IntValue (uint v)
                  else UIntValue (uint v)))"

section \<open>The reader\<close>

record features =
  allowComments :: bool
  strictRoot :: bool
  allowDroppedNullPlaceholders :: bool
  allowNumericKeys :: bool

definition Features_all :: features where
  "Features_all = \<lparr>allowComments = True, strictRoot = False, allowDroppedNullPlaceholders = False, allowNumericKeys = False\<rparr>"

definition Features_strictMode :: features where
  "Features_strictMode = \<lparr>allowComments = False, strictRoot = True, allowDroppedNullPlaceholders = False, allowNumericKeys = False\<rparr>"

text \<open>The state: \<open>current_\<close>, \<open>errors_\<close> and the global \<open>stackDepth_g\<close>.\<close>

record reader =
  rd_current :: "u8 list"
  rd_errors :: "u8 list list"
  rd_depth :: nat

text \<open>
  A reading function returns, throws an exception, or has used up the fuel that bounds its recursion; a
  lemma below shows that the fuel given by \<open>Reader_parse\<close> is enough.
\<close>

datatype 'a parsed = Parsed 'a | Thrown | No_Fuel

definition stackLimit_g :: nat where "stackLimit_g = 1000"

definition addError :: "u8 list \<Rightarrow> reader \<Rightarrow> reader" where
  "addError message r = r\<lparr>rd_errors := rd_errors r @ [message]\<rparr>"

definition skipCommentTokens :: "features \<Rightarrow> u8 list \<Rightarrow> token \<times> u8 list" where
  "skipCommentTokens ft cur = (if allowComments ft then skip_comments cur else readToken cur)"

text \<open>The tokens skipped to recover add no errors.\<close>

function skip_until :: "token_type \<Rightarrow> u8 list \<Rightarrow> u8 list" where
  "skip_until ty cur =
     (case readToken cur of (skip, cur') \<Rightarrow>
        if tok_type skip = ty \<or> tok_type skip = tokenEndOfStream then cur' else skip_until ty cur')"
  by pat_completeness auto
termination by (relation "measure (\<lambda>(ty, cur). length cur)") (auto dest: readToken_shorter(2) [OF sym])

declare skip_until.simps [simp del]

lemma length_skip_until: "length (skip_until ty cur) \<le> length cur"
proof (induction ty cur rule: skip_until.induct)
  case (1 ty cur)
  obtain t cur1 where t: "readToken cur = (t, cur1)" by fastforce
  show ?case
    using 1 [OF t [symmetric]] readToken_shorter(1) [OF t] t by (auto simp: skip_until.simps [of ty cur])
qed

definition recoverFromError :: "token_type \<Rightarrow> reader \<Rightarrow> reader" where
  "recoverFromError ty r = r\<lparr>rd_current := skip_until ty (rd_current r)\<rparr>"

definition addErrorAndRecover :: "u8 list \<Rightarrow> token_type \<Rightarrow> reader \<Rightarrow> reader" where
  "addErrorAndRecover message ty r = recoverFromError ty (addError message r)"

fun put_member :: "u8 list \<Rightarrow> json \<Rightarrow> (u8 list \<times> json) list \<Rightarrow> (u8 list \<times> json) list" where
  "put_member k v [] = [(k, v)]"
| "put_member k v ((k', v') # ms) = (if k = k' then (k, v) # ms else (k', v') # put_member k v ms)"

text \<open>What a dropped value leaves behind when null placeholders are allowed: the token is read again.\<close>

definition unread :: "token \<Rightarrow> reader \<Rightarrow> reader" where
  "unread t r = r\<lparr>rd_current := tok_start t\<rparr>"

text \<open>
  One turn of the loop of \<open>readObject\<close>, before and after the member's value: up to the colon, with the last
  turn's \<open>name\<close>, and from there to the start of the next turn (\<open>Inr\<close>) unless the function returns (\<open>Inl\<close>).
\<close>

definition member_colon ::
    "u8 list \<Rightarrow> (u8 list \<times> json) list \<Rightarrow> reader \<Rightarrow> (bool \<times> json \<times> reader) parsed + (u8 list \<times> reader)" where
  "member_colon name ms r =
     (case readToken (rd_current r) of (colon, cur) \<Rightarrow>
        let r = r\<lparr>rd_current := cur\<rparr>
        in if tok_type colon \<noteq> tokenMemberSeparator then
             Inl (Parsed (False, ObjectValue ms,
               addErrorAndRecover (str ''Missing ':' after object member name'') tokenObjectEnd r))
           else Inr (name, r))"

definition member_name ::
    "features \<Rightarrow> (u8 list \<Rightarrow> real option) \<Rightarrow> u8 list \<Rightarrow> (u8 list \<times> json) list \<Rightarrow> reader \<Rightarrow>
     (bool \<times> json \<times> reader) parsed + (u8 list \<times> reader)" where
  "member_name ft rd name ms r =
     (case skip_comments (rd_current r) of (t, cur) \<Rightarrow>
        let r = r\<lparr>rd_current := cur\<rparr>;
            failed = (\<lambda>e. Inl (Parsed (False, ObjectValue ms, recoverFromError tokenObjectEnd (addError e r))))
        in if tok_type t = tokenObjectEnd \<and> name = [] then Inl (Parsed (True, ObjectValue ms, r))
           else if tok_type t = tokenString then
             (case decodeString t of Inl e \<Rightarrow> failed e | Inr name \<Rightarrow> member_colon name ms r)
           else if tok_type t = tokenNumber \<and> allowNumericKeys ft then
             (case decodeNumber rd t of
                Inl e \<Rightarrow> failed e
              | Inr x \<Rightarrow> (case asCString x of None \<Rightarrow> Inl Thrown | Some name \<Rightarrow> member_colon name ms r))
           else
             Inl (Parsed (False, ObjectValue ms,
               addErrorAndRecover (str ''Missing '}' or object member name'') tokenObjectEnd r)))"

definition member_end ::
    "(u8 list \<times> json) list \<Rightarrow> bool \<Rightarrow> reader \<Rightarrow> (bool \<times> json \<times> reader) + reader" where
  "member_end ms ok r =
     (if \<not> ok then Inl (False, ObjectValue ms, recoverFromError tokenObjectEnd r)
      else
        (case readToken (rd_current r) of (comma, cur) \<Rightarrow>
           if tok_type comma \<noteq> tokenObjectEnd \<and> tok_type comma \<noteq> tokenArraySeparator \<and> tok_type comma \<noteq> tokenComment then
             Inl (False, ObjectValue ms,
               addErrorAndRecover (str ''Missing ',' or '}' in object declaration'') tokenObjectEnd (r\<lparr>rd_current := cur\<rparr>))
           else
             (case (if tok_type comma = tokenComment then skip_comments cur else (comma, cur)) of (comma, cur) \<Rightarrow>
                let r = r\<lparr>rd_current := cur\<rparr>
                in if tok_type comma = tokenObjectEnd then Inl (True, ObjectValue ms, r) else Inr r)))"

text \<open>The same for \<open>readArray\<close>, after an element.\<close>

definition element_end :: "json list \<Rightarrow> bool \<Rightarrow> reader \<Rightarrow> (bool \<times> json \<times> reader) + reader" where
  "element_end vs ok r =
     (if \<not> ok then Inl (False, ArrayValue vs, recoverFromError tokenArrayEnd r)
      else
        (case skip_comments (rd_current r) of (t, cur) \<Rightarrow>
           let r = r\<lparr>rd_current := cur\<rparr>
           in if tok_type t \<noteq> tokenArraySeparator \<and> tok_type t \<noteq> tokenArrayEnd then
                Inl (False, ArrayValue vs,
                  addErrorAndRecover (str ''Missing ',' or ']' in array declaration'') tokenArrayEnd r)
              else if tok_type t = tokenArrayEnd then Inl (True, ArrayValue vs, r)
              else Inr r))"

text \<open>
  \<open>readValue\<close> with the value \<open>currentValue()\<close> held before; the result is its return value, the current value
  and the reader.  \<open>read_members\<close> is the loop of \<open>readObject\<close>, with \<open>name\<close> and the members read so far, and
  \<open>read_elements\<close> that of \<open>readArray\<close>.
\<close>

fun readValue :: "features \<Rightarrow> (u8 list \<Rightarrow> real option) \<Rightarrow> nat \<Rightarrow> json \<Rightarrow> reader \<Rightarrow> (bool \<times> json \<times> reader) parsed"
  and read_members :: "features \<Rightarrow> (u8 list \<Rightarrow> real option) \<Rightarrow> nat \<Rightarrow> u8 list \<Rightarrow> (u8 list \<times> json) list \<Rightarrow> reader \<Rightarrow>
    (bool \<times> json \<times> reader) parsed"
  and read_elements :: "features \<Rightarrow> (u8 list \<Rightarrow> real option) \<Rightarrow> nat \<Rightarrow> json list \<Rightarrow> reader \<Rightarrow> (bool \<times> json \<times> reader) parsed"
where
  "readValue ft rd 0 v r = No_Fuel"
| "readValue ft rd (Suc n) v r =
     (if rd_depth r \<ge> stackLimit_g then Thrown
      else
        case skipCommentTokens ft (rd_current r) of (t, cur) \<Rightarrow>
          let r = r\<lparr>rd_depth := rd_depth r + 1, rd_current := cur\<rparr>;
              leave = (\<lambda>(ok, v, r). Parsed (ok, v, r\<lparr>rd_depth := rd_depth r - 1\<rparr>));
              bad = Parsed (False, v, addError (str ''Syntax error: value, object or array expected.'') r)
          in case tok_type t of
               tokenObjectBegin \<Rightarrow>
                 (case read_members ft rd n [] [] r of Parsed x \<Rightarrow> leave x | Thrown \<Rightarrow> Thrown | No_Fuel \<Rightarrow> No_Fuel)
             | tokenArrayBegin \<Rightarrow>
                 let r = r\<lparr>rd_current := skipSpaces (rd_current r)\<rparr>
                 in if at_char (rd_current r) (ch CHR '']'') then
                      leave (True, ArrayValue [], r\<lparr>rd_current := snd (readToken (rd_current r))\<rparr>)
                    else
                      (case read_elements ft rd n [] r of Parsed x \<Rightarrow> leave x | Thrown \<Rightarrow> Thrown | No_Fuel \<Rightarrow> No_Fuel)
             | tokenNumber \<Rightarrow>
                 (case decodeNumber rd t of Inl e \<Rightarrow> leave (False, v, addError e r) | Inr x \<Rightarrow> leave (True, x, r))
             | tokenString \<Rightarrow>
                 (case decodeString t of Inl e \<Rightarrow> leave (False, v, addError e r) | Inr s \<Rightarrow> leave (True, StringValue s, r))
             | tokenTrue \<Rightarrow> leave (True, BooleanValue True, r)
             | tokenFalse \<Rightarrow> leave (True, BooleanValue False, r)
             | tokenNull \<Rightarrow> leave (True, NullValue, r)
             | tokenArraySeparator \<Rightarrow> if allowDroppedNullPlaceholders ft then leave (True, NullValue, unread t r) else bad
             | tokenObjectEnd \<Rightarrow> if allowDroppedNullPlaceholders ft then leave (True, NullValue, unread t r) else bad
             | tokenArrayEnd \<Rightarrow> if allowDroppedNullPlaceholders ft then leave (True, NullValue, unread t r) else bad
             | _ \<Rightarrow> bad)"
| "read_members ft rd 0 name ms r = No_Fuel"
| "read_members ft rd (Suc n) name ms r =
     (case member_name ft rd name ms r of
        Inl x \<Rightarrow> x
      | Inr (name, r) \<Rightarrow>
          (case readValue ft rd n (case map_of ms name of None \<Rightarrow> NullValue | Some v \<Rightarrow> v) r of
             Thrown \<Rightarrow> Thrown
           | No_Fuel \<Rightarrow> No_Fuel
           | Parsed (ok, v, r) \<Rightarrow>
               (case member_end (put_member name v ms) ok r of
                  Inl x \<Rightarrow> Parsed x
                | Inr r \<Rightarrow> read_members ft rd n name (put_member name v ms) r)))"
| "read_elements ft rd 0 vs r = No_Fuel"
| "read_elements ft rd (Suc n) vs r =
     (case readValue ft rd n NullValue r of
        Thrown \<Rightarrow> Thrown
      | No_Fuel \<Rightarrow> No_Fuel
      | Parsed (ok, v, r) \<Rightarrow>
          (case element_end (vs @ [v]) ok r of
             Inl x \<Rightarrow> Parsed x
           | Inr r \<Rightarrow> read_elements ft rd n (vs @ [v]) r))"

declare readValue.simps [simp del] read_members.simps [simp del] read_elements.simps [simp del]

definition check_root :: "features \<Rightarrow> bool \<Rightarrow> json \<Rightarrow> reader \<Rightarrow> bool \<times> json \<times> reader" where
  "check_root ft successful v r =
     (if strictRoot ft \<and> (case v of ArrayValue _ \<Rightarrow> False | ObjectValue _ \<Rightarrow> False | _ \<Rightarrow> True) then
        (False, v, addError (str ''A valid JSON document must be either an array or an object value.'') r)
      else (successful, v, r))"

text \<open>The value of the result is \<open>root\<close>, \<open>v\<close> what it was before.\<close>

definition Reader_parse :: "features \<Rightarrow> (u8 list \<Rightarrow> real option) \<Rightarrow> u8 list \<Rightarrow> json \<Rightarrow> (bool \<times> json \<times> reader) parsed" where
  "Reader_parse ft rd doc v =
     (case readValue ft rd (Suc (2 * length doc)) v \<lparr>rd_current = doc, rd_errors = [], rd_depth = 0\<rparr> of
        Thrown \<Rightarrow> Thrown
      | No_Fuel \<Rightarrow> No_Fuel
      | Parsed (successful, v, r) \<Rightarrow>
          Parsed (check_root ft successful v (r\<lparr>rd_current := snd (skipCommentTokens ft (rd_current r))\<rparr>)))"

text \<open>\<open>getline\<close> stops at the byte \<open>(char) EOF\<close>.\<close>

definition Reader_parse_stream :: "features \<Rightarrow> (u8 list \<Rightarrow> real option) \<Rightarrow> u8 list \<Rightarrow> json \<Rightarrow> (bool \<times> json \<times> reader) parsed" where
  "Reader_parse_stream ft rd content v = Reader_parse ft rd (takeWhile (\<lambda>c. c \<noteq> 0xFF) content) v"

text \<open>\<open>JsonParser::Parse\<close> of a file's content, \<open>None\<close> when it cannot be opened; the result is \<open>root_\<close> too.\<close>

definition JsonParser_Parse :: "(u8 list \<Rightarrow> real option) \<Rightarrow> u8 list option \<Rightarrow> json \<Rightarrow> (bool \<times> json) parsed" where
  "JsonParser_Parse rd file root_value =
     (case file of
        None \<Rightarrow> Parsed (False, root_value)
      | Some content \<Rightarrow>
          (case Reader_parse_stream Features_all rd content root_value of
             Thrown \<Rightarrow> Thrown
           | No_Fuel \<Rightarrow> No_Fuel
           | Parsed (ok, v, r) \<Rightarrow> Parsed (ok, v)))"

text \<open>\<open>dbl\<close> is the conversion of an integer to a double, which rounds.\<close>

definition asDouble :: "(int \<Rightarrow> real) \<Rightarrow> json \<Rightarrow> real option" where
  "asDouble dbl v =
     (case v of
        IntValue i \<Rightarrow> Some (dbl i)
      | UIntValue u \<Rightarrow> Some (dbl u)
      | RealValue d \<Rightarrow> Some d
      | NullValue \<Rightarrow> Some 0
      | BooleanValue b \<Rightarrow> Some (if b then 1 else 0)
      | _ \<Rightarrow> None)"

definition GetDouble :: "(int \<Rightarrow> real) \<Rightarrow> json \<Rightarrow> u8 list \<Rightarrow> real \<Rightarrow> real option" where
  "GetDouble dbl doc key d = Option.bind (get_member doc key (RealValue d)) (asDouble dbl)"

text \<open>\<open>root_[key]\<close> adds a null member when there is none of that name; the result is the copy returned and \<open>root_\<close>.\<close>

definition GetJsonValue :: "json \<Rightarrow> u8 list \<Rightarrow> (json \<times> json) option" where
  "GetJsonValue doc key =
     (case doc of
        NullValue \<Rightarrow> Some (NullValue, ObjectValue [(key, NullValue)])
      | ObjectValue ms \<Rightarrow>
          (case map_of ms key of
             Some v \<Rightarrow> Some (v, doc)
           | None \<Rightarrow> Some (NullValue, ObjectValue (put_member key NullValue ms)))
      | _ \<Rightarrow> None)"

lemma map_of_put_member: "map_of (put_member k v ms) = (map_of ms)(k \<mapsto> v)"
  by (induction k v ms rule: put_member.induct) auto

text \<open>Looking for a missing name with \<open>GetJsonValue\<close> hides the default of a later \<open>GetInteger\<close>.\<close>

lemma GetJsonValue_hides_default:
  assumes "map_of ms key = None"
  shows "GetInteger (ObjectValue ms) key d = asInt (IntValue d)"
    "\<exists>doc. GetJsonValue (ObjectValue ms) key = Some (NullValue, doc) \<and> GetInteger doc key d = Some 0"
  using assms by (simp_all add: GetJsonValue_def GetInteger_def get_member_def find_member_def map_of_put_member asInt_def)

section \<open>The reader returns\<close>

text \<open>
  A call ends within \<open>m\<close> remaining bytes: it has fuel enough, throws only when the bytes can nest beyond the
  limit (or a member has a numeric name), and when it succeeds leaves the depth as it was.
\<close>

definition ends_within :: "features \<Rightarrow> nat \<Rightarrow> nat \<Rightarrow> (bool \<times> json \<times> reader) parsed \<Rightarrow> bool" where
  "ends_within ft m d x \<longleftrightarrow>
     (case x of
        No_Fuel \<Rightarrow> False
      | Thrown \<Rightarrow> allowNumericKeys ft \<or> stackLimit_g \<le> m + d
      | Parsed (ok, v, r) \<Rightarrow> length (rd_current r) \<le> m \<and> (ok \<longrightarrow> rd_depth r = d))"

lemma ends_within_simps [simp]:
  "ends_within ft m d Thrown \<longleftrightarrow> allowNumericKeys ft \<or> stackLimit_g \<le> m + d" "\<not> ends_within ft m d No_Fuel"
  "ends_within ft m d (Parsed (ok, v, r)) \<longleftrightarrow> length (rd_current r) \<le> m \<and> (ok \<longrightarrow> rd_depth r = d)"
  by (simp_all add: ends_within_def)

lemma ends_within_mono: "ends_within ft m d x \<Longrightarrow> m \<le> n \<Longrightarrow> ends_within ft n d x"
  by (auto simp: ends_within_def split: parsed.splits)

lemma ends_within_bind:
  assumes "ends_within ft m d x" "m \<le> n"
    and "\<And>ok v r. length (rd_current r) \<le> m \<Longrightarrow> (ok \<Longrightarrow> rd_depth r = d) \<Longrightarrow> ends_within ft n d (f (ok, v, r))"
  shows "ends_within ft n d (case x of Thrown \<Rightarrow> Thrown | No_Fuel \<Rightarrow> No_Fuel | Parsed y \<Rightarrow> f y)"
  using assms by (cases x) auto

lemma addError_simps [simp]: "rd_current (addError e r) = rd_current r" "rd_depth (addError e r) = rd_depth r"
  by (simp_all add: addError_def)

lemma length_recover: "length (rd_current (recoverFromError ty r)) \<le> length (rd_current r)"
  by (simp add: recoverFromError_def length_skip_until)

lemma length_addErrorAndRecover: "length (rd_current (addErrorAndRecover e ty r)) \<le> length (rd_current r)"
  using length_recover [of ty "addError e r"] by (simp add: addErrorAndRecover_def)

lemma skipCommentTokens_shorter:
  "skipCommentTokens ft cur = (t, cur') \<Longrightarrow> length cur' \<le> length cur \<and> (tok_type t \<noteq> tokenEndOfStream \<longrightarrow> length cur' < length cur)"
  using skip_comments_shorter [of cur] readToken_shorter [of cur] by (auto simp: skipCommentTokens_def split: if_splits)

lemma readToken_start: "readToken cur = (t, cur') \<Longrightarrow> length (tok_start t) \<le> length cur"
  using length_dropWhile_le [of json_space cur] by (auto simp: readToken_def skipSpaces_def Let_def split: prod.splits)

lemma skip_comments_start: "skip_comments cur = (t, cur') \<Longrightarrow> length (tok_start t) \<le> length cur"
proof (induction cur rule: skip_comments.induct)
  case (1 cur)
  obtain u cur1 where u: "readToken cur = (u, cur1)" by fastforce
  show ?case
  proof (cases "tok_type u = tokenComment")
    case True
    then show ?thesis
      using 1(1) [OF u [symmetric] True] 1(2) u readToken_shorter(1) [OF u] by (simp add: skip_comments.simps [of cur])
  next
    case False
    then show ?thesis using 1(2) u readToken_start [OF u] by (simp add: skip_comments.simps [of cur])
  qed
qed

lemma skipCommentTokens_start: "skipCommentTokens ft cur = (t, cur') \<Longrightarrow> length (tok_start t) \<le> length cur"
  using skip_comments_start readToken_start by (auto simp: skipCommentTokens_def split: if_splits)

definition fueled :: "features \<Rightarrow> (u8 list \<Rightarrow> real option) \<Rightarrow> nat \<Rightarrow> bool" where
  "fueled ft rd n \<longleftrightarrow>
     (\<forall>v r. 2 * length (rd_current r) < n \<longrightarrow> ends_within ft (length (rd_current r)) (rd_depth r) (readValue ft rd n v r)) \<and>
     (\<forall>name ms r. 2 * length (rd_current r) < n \<longrightarrow>
        ends_within ft (length (rd_current r)) (rd_depth r) (read_members ft rd n name ms r)) \<and>
     (\<forall>vs r. Suc (2 * length (rd_current r)) < n \<longrightarrow>
        ends_within ft (length (rd_current r)) (rd_depth r) (read_elements ft rd n vs r))"

lemma fueledD:
  assumes "fueled ft rd n" "length (rd_current r) \<le> m" "rd_depth r = d"
  shows "2 * length (rd_current r) < n \<Longrightarrow> ends_within ft m d (readValue ft rd n v r)"
    "2 * length (rd_current r) < n \<Longrightarrow> ends_within ft m d (read_members ft rd n name ms r)"
    "Suc (2 * length (rd_current r)) < n \<Longrightarrow> ends_within ft m d (read_elements ft rd n vs r)"
  using assms ends_within_mono unfolding fueled_def by blast+

lemma ends_within_leave:
  assumes "ends_within ft m (Suc d) x" "Suc m \<le> n"
  shows "ends_within ft n d (case x of Thrown \<Rightarrow> Thrown | No_Fuel \<Rightarrow> No_Fuel
    | Parsed (ok, v, r) \<Rightarrow> Parsed (ok, v, r\<lparr>rd_depth := rd_depth r - Suc 0\<rparr>))"
  using assms by (cases x) auto

lemma fueled_value:
  assumes "fueled ft rd n" "2 * length (rd_current r) < Suc n"
  shows "ends_within ft (length (rd_current r)) (rd_depth r) (readValue ft rd (Suc n) v r)"
proof -
  obtain t cur where t: "skipCommentTokens ft (rd_current r) = (t, cur)" by fastforce
  note l = skipCommentTokens_shorter [OF t] skipCommentTokens_start [OF t]
  have s: "length (skipSpaces cur) \<le> length cur" unfolding skipSpaces_def by (rule length_dropWhile_le)
  obtain t' cur' where t': "readToken (skipSpaces cur) = (t', cur')" by fastforce
  have l': "length cur' \<le> length cur" using readToken_shorter(1) [OF t'] s by simp
  let ?m = "length (rd_current r)" let ?d = "rd_depth r"
  let ?r = "r\<lparr>rd_depth := ?d + 1, rd_current := cur\<rparr>" let ?r' = "?r\<lparr>rd_current := skipSpaces cur\<rparr>"
  let ?leave = "\<lambda>x. case x of Thrown \<Rightarrow> Thrown | No_Fuel \<Rightarrow> No_Fuel | Parsed (ok, v, r) \<Rightarrow> Parsed (ok, v, r\<lparr>rd_depth := rd_depth r - Suc 0\<rparr>)"
  have o: "ends_within ft ?m ?d (?leave (read_members ft rd n [] [] ?r))" if "tok_type t = tokenObjectBegin"
    using fueledD(2) [OF assms(1), of ?r] that l assms(2) by (intro ends_within_leave [of ft "length cur"]) auto
  have a: "ends_within ft ?m ?d (?leave (read_elements ft rd n [] ?r'))" if "tok_type t = tokenArrayBegin"
    using fueledD(3) [OF assms(1), of ?r'] that l s assms(2) by (intro ends_within_leave [of ft "length cur"]) auto
  show ?thesis
    using l l' o a t' s
    by (cases "tok_type t") (auto simp: readValue.simps t Let_def unread_def split: sum.splits)
qed

definition name_within :: "features \<Rightarrow> nat \<Rightarrow> nat \<Rightarrow> (bool \<times> json \<times> reader) parsed + (u8 list \<times> reader) \<Rightarrow> bool" where
  "name_within ft m d x \<longleftrightarrow>
     (case x of Inl y \<Rightarrow> ends_within ft m d y | Inr (name, r) \<Rightarrow> length (rd_current r) < m \<and> rd_depth r = d)"

lemma name_within_simps [simp]:
  "name_within ft m d (Inl y) = ends_within ft m d y"
  "name_within ft m d (Inr (name, r)) \<longleftrightarrow> length (rd_current r) < m \<and> rd_depth r = d"
  by (simp_all add: name_within_def)

lemma member_colon_within:
  assumes "length (rd_current r) \<le> m" "rd_depth r = d"
  shows "name_within ft m d (member_colon name ms r)"
proof -
  obtain t cur where t: "readToken (rd_current r) = (t, cur)" by fastforce
  show ?thesis
    using readToken_shorter [OF t] assms length_addErrorAndRecover [of "str ''Missing ':' after object member name''" tokenObjectEnd "r\<lparr>rd_current := cur\<rparr>"]
    by (auto simp: member_colon_def t Let_def)
qed

lemma number_not_string: "decodeNumber rd t = Inr x \<Longrightarrow> asCString x = None"
  by (auto simp: decodeNumber_def decodeDouble_def asCString_def Let_def split: option.splits if_splits)

lemma member_name_within: "name_within ft (length (rd_current r)) (rd_depth r) (member_name ft rd name ms r)"
proof -
  obtain t cur where t: "skip_comments (rd_current r) = (t, cur)" by fastforce
  let ?r = "r\<lparr>rd_current := cur\<rparr>" let ?m = "length (rd_current r)"
  have l: "length (rd_current ?r) \<le> ?m" "rd_depth ?r = rd_depth r" using skip_comments_shorter [OF t] by simp_all
  have e: "length (rd_current (recoverFromError ty (addError e ?r))) \<le> ?m" for ty e
    using length_recover [of ty "addError e ?r"] l by simp
  show ?thesis
    using l e member_colon_within [OF l]
    by (auto simp: member_name_def t Let_def addErrorAndRecover_def number_not_string split: sum.splits option.splits)
qed

lemma member_end_within:
  "case member_end ms ok r of
     Inl (ok', v, r') \<Rightarrow> length (rd_current r') \<le> length (rd_current r) \<and> (ok' \<longrightarrow> ok \<and> rd_depth r' = rd_depth r)
   | Inr r' \<Rightarrow> ok \<and> length (rd_current r') \<le> length (rd_current r) \<and> rd_depth r' = rd_depth r"
proof -
  obtain t cur where t: "readToken (rd_current r) = (t, cur)" by fastforce
  obtain t' cur' where t': "(if tok_type t = tokenComment then skip_comments cur else (t, cur)) = (t', cur')" by fastforce
  have l: "length cur \<le> length (rd_current r)" by (rule readToken_shorter(1) [OF t])
  have l': "length cur' \<le> length cur" using t' skip_comments_shorter [of cur] by (auto split: if_splits)
  have "length (rd_current (addErrorAndRecover e ty (r\<lparr>rd_current := cur\<rparr>))) \<le> length (rd_current r)" for e ty
    using length_addErrorAndRecover [of e ty "r\<lparr>rd_current := cur\<rparr>"] l by simp
  then show ?thesis
    using l l' length_recover [of tokenObjectEnd r] unfolding member_end_def t prod.case t' by (simp add: Let_def)
qed

lemma element_end_within:
  "case element_end vs ok r of
     Inl (ok', v, r') \<Rightarrow> length (rd_current r') \<le> length (rd_current r) \<and> (ok' \<longrightarrow> ok \<and> rd_depth r' = rd_depth r)
   | Inr r' \<Rightarrow> ok \<and> length (rd_current r') < length (rd_current r) \<and> rd_depth r' = rd_depth r"
proof -
  obtain t cur where t: "skip_comments (rd_current r) = (t, cur)" by fastforce
  note l = skip_comments_shorter [OF t]
  have "length (rd_current (addErrorAndRecover e ty (r\<lparr>rd_current := cur\<rparr>))) \<le> length (rd_current r)" for e ty
    using length_addErrorAndRecover [of e ty "r\<lparr>rd_current := cur\<rparr>"] l by simp
  then show ?thesis using l length_recover [of tokenArrayEnd r] by (auto simp: element_end_def t Let_def)
qed

lemma fueled_members:
  assumes "fueled ft rd n" "2 * length (rd_current r) < Suc n"
  shows "ends_within ft (length (rd_current r)) (rd_depth r) (read_members ft rd (Suc n) name ms r)"
proof (cases "member_name ft rd name ms r")
  case (Inl x)
  then show ?thesis using member_name_within [of ft r rd name ms] by (simp add: read_members.simps)
next
  case (Inr p)
  obtain nm r1 where p: "p = (nm, r1)" by fastforce
  have l: "length (rd_current r1) < length (rd_current r)" "rd_depth r1 = rd_depth r"
    using member_name_within [of ft r rd name ms] Inr p by simp_all
  have l1: "2 * length (rd_current r1) < n" using l assms(2) by simp
  have val: "ends_within ft (length (rd_current r1)) (rd_depth r) (readValue ft rd n v r1)" for v
    by (rule fueledD(1) [OF assms(1) _ _ l1]) (simp_all add: l)
  have rest: "ends_within ft (length (rd_current r)) (rd_depth r)
      (case member_end (put_member nm v ms) ok r2 of Inl x \<Rightarrow> Parsed x | Inr r \<Rightarrow> read_members ft rd n nm (put_member nm v ms) r)"
    if "length (rd_current r2) \<le> length (rd_current r1)" "ok \<Longrightarrow> rd_depth r2 = rd_depth r" for ok v r2
    using that member_end_within [where ms = "put_member nm v ms" and ok = ok and r = r2] l l1
    by (cases "member_end (put_member nm v ms) ok r2") (auto intro!: fueledD(2) [OF assms(1)])
  show ?thesis
    unfolding read_members.simps Inr p sum.case prod.case
    by (rule ends_within_bind [OF val]) (use l in \<open>simp_all add: rest\<close>)
qed

lemma fueled_elements:
  assumes "fueled ft rd n" "Suc (2 * length (rd_current r)) < Suc n"
  shows "ends_within ft (length (rd_current r)) (rd_depth r) (read_elements ft rd (Suc n) vs r)"
proof -
  have val: "ends_within ft (length (rd_current r)) (rd_depth r) (readValue ft rd n NullValue r)"
    by (rule fueledD(1) [OF assms(1)]) (use assms(2) in simp_all)
  have rest: "ends_within ft (length (rd_current r)) (rd_depth r)
      (case element_end (vs @ [v]) ok r2 of Inl x \<Rightarrow> Parsed x | Inr r \<Rightarrow> read_elements ft rd n (vs @ [v]) r)"
    if "length (rd_current r2) \<le> length (rd_current r)" "ok \<Longrightarrow> rd_depth r2 = rd_depth r" for ok v r2
    using that element_end_within [where vs = "vs @ [v]" and ok = ok and r = r2] assms(2)
    by (cases "element_end (vs @ [v]) ok r2") (auto intro!: fueledD(3) [OF assms(1)])
  show ?thesis unfolding read_elements.simps by (rule ends_within_bind [OF val]) (simp_all add: rest)
qed

lemma fuel_suffices: "fueled ft rd n"
proof (induction n)
  case 0
  show ?case by (simp add: fueled_def)
next
  case (Suc n)
  show ?case
    unfolding fueled_def using fueled_value [OF Suc] fueled_members [OF Suc] fueled_elements [OF Suc] by blast
qed

definition start_reader :: "u8 list \<Rightarrow> reader" where
  "start_reader doc = \<lparr>rd_current = doc, rd_errors = [], rd_depth = 0\<rparr>"

lemma reader_result:
  "Reader_parse ft rd doc v = Thrown \<and> (allowNumericKeys ft \<or> stackLimit_g \<le> length doc)
    \<or> (\<exists>ok v' r. Reader_parse ft rd doc v = Parsed (ok, v', r))"
proof -
  define x where "x = readValue ft rd (Suc (2 * length doc)) v (start_reader doc)"
  have "ends_within ft (length doc) 0 x"
    unfolding x_def by (rule fueledD(1) [OF fuel_suffices]) (simp_all add: start_reader_def)
  then show ?thesis
    unfolding Reader_parse_def start_reader_def [symmetric] x_def [symmetric] by (cases x) (auto, (metis prod_cases3)+)
qed

end
