(* ===== verification/Json_Grammar.thy ===== *)
theory Json_Grammar
  imports Json_Reader
begin

text \<open>
  JSON as a grammar (RFC 8259), and the proof that the reader accepts every text of it with the value the
  grammar gives: \<open>json_text rd d v t\<close> says that \<open>t\<close> is a text of \<open>v\<close> whose values are nested at most \<open>d\<close> deep.
\<close>

section \<open>Strings\<close>

text \<open>UTF-8, by arithmetic.\<close>

definition utf8 :: "nat \<Rightarrow> u8 list" where
  "utf8 n =
     (if n < 0x80 then [of_nat n]
      else if n < 0x800 then [of_nat (0xC0 + n div 64), of_nat (0x80 + n mod 64)]
      else if n < 0x10000 then [of_nat (0xE0 + n div 4096), of_nat (0x80 + n div 64 mod 64), of_nat (0x80 + n mod 64)]
      else [of_nat (0xF0 + n div 262144), of_nat (0x80 + n div 4096 mod 64), of_nat (0x80 + n div 64 mod 64),
            of_nat (0x80 + n mod 64)])"

text \<open>A hexadecimal digit and its value.\<close>

definition hex_char :: "u8 \<Rightarrow> nat \<Rightarrow> bool" where
  "hex_char c n \<longleftrightarrow> n < 16 \<and> (if n < 10 then c = of_nat (48 + n) else c = of_nat (87 + n) \<or> c = of_nat (55 + n))"

definition four_hex :: "nat \<Rightarrow> u8 list \<Rightarrow> bool" where
  "four_hex u hs \<longleftrightarrow> (\<exists>h1 h2 h3 h4 a b c d. hs = [h1, h2, h3, h4] \<and> hex_char h1 a \<and> hex_char h2 b \<and> hex_char h3 c \<and>
     hex_char h4 d \<and> u = 4096 * a + 256 * b + 16 * c + d)"

text \<open>The text between the quotes and the string it stands for.\<close>

inductive string_chars :: "u8 list \<Rightarrow> u8 list \<Rightarrow> bool" where
  chars_end: "string_chars [] []"
| chars_plain: "string_chars t s \<Longrightarrow> c \<noteq> ch CHR 0x22 \<Longrightarrow> c \<noteq> ch CHR 0x5C \<Longrightarrow> string_chars (c # t) (c # s)"
| chars_escape: "string_chars t s \<Longrightarrow>
    (e, x) \<in> {(ch CHR 0x22, ch CHR 0x22), (ch CHR 0x5C, ch CHR 0x5C), (ch CHR ''/'', ch CHR ''/''),
      (ch CHR ''b'', 8), (ch CHR ''f'', 12), (ch CHR ''n'', 10), (ch CHR ''r'', 13), (ch CHR ''t'', 9)} \<Longrightarrow>
    string_chars (ch CHR 0x5C # e # t) (x # s)"
| chars_unicode: "string_chars t s \<Longrightarrow> four_hex u hs \<Longrightarrow> u < 0xD800 \<or> 0xDFFF < u \<Longrightarrow>
    string_chars (ch CHR 0x5C # ch CHR ''u'' # hs @ t) (utf8 u @ s)"
| chars_pair: "string_chars t s \<Longrightarrow> four_hex u hs \<Longrightarrow> 0xD800 \<le> u \<Longrightarrow> u < 0xDC00 \<Longrightarrow> four_hex u' hs' \<Longrightarrow>
    0xDC00 \<le> u' \<Longrightarrow> u' < 0xE000 \<Longrightarrow>
    string_chars (ch CHR 0x5C # ch CHR ''u'' # hs @ ch CHR 0x5C # ch CHR ''u'' # hs' @ t)
      (utf8 (0x10000 + 1024 * (u - 0xD800) + (u' - 0xDC00)) @ s)"

lemma low_bits:
  assumes "u < 2 ^ 32"
  shows "ucast (mask k AND drop_bit n (of_nat u :: u32)) = (of_nat (u div 2 ^ n mod 2 ^ k) :: u8)"
proof -
  have "unat (of_nat u :: u32) = u" using assms by (simp add: unat_of_nat)
  then have "unat (take_bit k (drop_bit n (of_nat u :: u32))) = take_bit k (drop_bit n u)"
    by (simp only: unsigned_take_bit_eq unat_drop_bit_eq)
  then have "unat (mask k AND drop_bit n (of_nat u :: u32)) = u div 2 ^ n mod 2 ^ k"
    by (simp only: and.commute [of "mask k"] take_bit_eq_mask [symmetric] take_bit_eq_mod drop_bit_eq_div)
  then show ?thesis by (metis of_nat_unat)
qed

lemma or_plus:
  assumes "x < 2 ^ k"
  shows "(of_nat (2 ^ k * m) OR of_nat x :: u8) = of_nat (2 ^ k * m + x)"
proof -
  have "push_bit k m AND take_bit k x = 0" by (simp add: bit_eq_iff bit_simps)
  then have "2 ^ k * m OR x = 2 ^ k * m + x"
    using assms by (simp add: push_bit_eq_mult take_bit_nat_eq_self mult.commute flip: disjunctive_add_eq_or)
  then show ?thesis by (metis of_nat_or_eq)
qed

lemma utf8_byte:
  assumes "u < 2 ^ 32" "k < 8"
  shows "of_nat (2 ^ k * m) OR ucast (mask k AND drop_bit n (of_nat u :: u32)) = (of_nat (2 ^ k * m + u div 2 ^ n mod 2 ^ k) :: u8)"
  unfolding low_bits [OF assms(1)] by (rule or_plus) simp

lemma code_point_utf8:
  assumes "u < 0x110000"
  shows "codePointToUTF8 (of_nat u) = utf8 u"
proof -
  have u: "u < 2 ^ 32" using assms by simp
  have le: "(of_nat u :: u32) \<le> of_nat m \<longleftrightarrow> u \<le> m" if "m < 2 ^ 32" for m
    using u that by (simp add: word_le_nat_alt unat_of_nat)
  note b = utf8_byte [OF u]
  have b6: "0x80 OR ucast (0x3f AND drop_bit n (of_nat u :: u32)) = (of_nat (128 + u div 2 ^ n mod 64) :: u8)" for n
    using b [of 6 2 n] by (simp add: mask_eq_exp_minus_1)
  have b5: "0xC0 OR ucast (0x1f AND drop_bit 6 (of_nat u :: u32)) = (of_nat (0xC0 + u div 64 mod 32) :: u8)"
    using b [of 5 6 6] by (simp add: mask_eq_exp_minus_1)
  have b4: "0xE0 OR ucast (0xf AND drop_bit 12 (of_nat u :: u32)) = (of_nat (0xE0 + u div 4096 mod 16) :: u8)"
    using b [of 4 14 12] by (simp add: mask_eq_exp_minus_1)
  have b3: "0xF0 OR ucast (0x7 AND drop_bit 18 (of_nat u :: u32)) = (of_nat (0xF0 + u div 262144 mod 8) :: u8)"
    using b [of 3 30 18] by (simp add: mask_eq_exp_minus_1)
  have b0: "(ucast (of_nat u :: u32) :: u8) = of_nat u" 
  proof -
    have "unat (of_nat u :: u32) = u" using u by (simp add: unat_of_nat)
    then show ?thesis by (metis of_nat_unat)
  qed
  show ?thesis
    using le [of 127] le [of 2047] le [of 65535] le [of 1114111] assms b6 [of 0]
    unfolding codePointToUTF8_def utf8_def by (auto simp: b6 b5 b4 b3 b0)
qed

lemma byte_le: "m < 256 \<Longrightarrow> n < 256 \<Longrightarrow> (of_nat m :: u8) \<le> of_nat n \<longleftrightarrow> m \<le> n"
  by (simp add: word_le_nat_alt unat_of_nat)

lemma byte_minus: "m \<le> n \<Longrightarrow> n < 256 \<Longrightarrow> (ucast (of_nat n - of_nat m :: u8) :: u32) = of_nat (n - m)"
proof -
  assume m: "m \<le> n" "n < 256"
  have "unat (of_nat (n - m) :: u8) = n - m" using m unfolding unat_of_nat by simp
  then show ?thesis by (metis m(1) of_nat_diff of_nat_unat)
qed

lemma hex_value_nat:
  assumes "k < 256"
  shows "hex_value (of_nat k) =
    (if 48 \<le> k \<and> k \<le> 57 then Some (of_nat (k - 48)) else if 97 \<le> k \<and> k \<le> 102 then Some (of_nat (k - 87))
     else if 65 \<le> k \<and> k \<le> 70 then Some (of_nat (k - 55)) else None)"
  using assms byte_le [of 48 k] byte_le [of k 57] byte_le [of 97 k] byte_le [of k 102] byte_le [of 65 k] byte_le [of k 70]
    byte_minus [of 48 k] byte_minus [of 97 k] byte_minus [of 65 k]
  by (auto simp: is_digit_def)

lemma hex_char_value:
  assumes "hex_char c n"
  shows "hex_value c = Some (of_nat n)" "n < 16" "c \<noteq> ch CHR 0x22" "c \<noteq> ch CHR 0x5C"
proof -
  obtain k where k: "c = of_nat k" "n < 16" "n < 10 \<and> k = 48 + n \<or> 10 \<le> n \<and> (k = 87 + n \<or> k = 55 + n)"
    using assms unfolding hex_char_def by (metis not_le)
  then have l: "k < 256" by auto
  show "n < 16" by (rule k(2))
  show "hex_value c = Some (of_nat n)" unfolding k(1) hex_value_nat [OF l] using k(2,3) by auto
  have "(of_nat k :: u8) = of_nat m \<longleftrightarrow> k = m" if "m < 256" for m
    using l that by (metis byte_le le_antisym order_refl)
  from this [of 34] this [of 92] show "c \<noteq> ch CHR 0x22" "c \<noteq> ch CHR 0x5C" unfolding k(1) using k(2,3) by auto
qed

declare hex_value.simps [simp del]

lemma four_hex_value:
  assumes "four_hex u hs"
  shows "decodeUnicodeEscapeSequence (hs @ t) = Inr (of_nat u, t)" "u < 0x10000"
    "\<exists>c. string_loop q (hs @ t) = string_loop c t" "length hs = 4"
proof -
  obtain h1 h2 h3 h4 a b c d where h: "hs = [h1, h2, h3, h4]" "hex_char h1 a" "hex_char h2 b" "hex_char h3 c" "hex_char h4 d"
    "u = 4096 * a + 256 * b + 16 * c + d"
    using assms unfolding four_hex_def by blast
  note v = h(2-5) [THEN hex_char_value(1)] and l = h(2-5) [THEN hex_char_value(2)]
    and q = h(2-5) [THEN hex_char_value(3)] h(2-5) [THEN hex_char_value(4)]
  have "hex_digits_value 4 0 (hs @ t) = Some (of_nat u)"
  proof -
    have four: "(4::nat) = Suc (Suc (Suc (Suc 0)))" by simp
    show ?thesis unfolding four h(1) h(6) by (simp add: v algebra_simps)
  qed
  then show "decodeUnicodeEscapeSequence (hs @ t) = Inr (of_nat u, t)" using h(1) by (simp add: decodeUnicodeEscapeSequence_def)
  show "u < 0x10000" using l h(6) by simp
  show "\<exists>c. string_loop q (hs @ t) = string_loop c t" using h(1) q by auto
  show "length hs = 4" using h(1) by simp
qed

lemma word_le_of_nat: "m < 2 ^ 32 \<Longrightarrow> n < 2 ^ 32 \<Longrightarrow> (of_nat m :: u32) \<le> of_nat n \<longleftrightarrow> m \<le> n"
  by (simp add: word_le_nat_alt unat_of_nat)

lemma code_point_plain:
  assumes "four_hex u hs" "u < 0xD800 \<or> 0xDFFF < u"
  shows "decodeUnicodeCodePoint (hs @ t) = Inr (of_nat u, t)"
  using assms(2) four_hex_value(2) [OF assms(1)] word_le_of_nat [of 55296 u] word_le_of_nat [of u 56319]
  by (auto simp: decodeUnicodeCodePoint_def four_hex_value(1) [OF assms(1)])

lemma mod_offset: "k * m \<le> u \<Longrightarrow> u < k * m + m \<Longrightarrow> u mod m = u - k * m" for u :: nat
  by (rule mod_nat_eqI) auto

lemma surrogate_bits:
  assumes "0xD800 \<le> u" "u < 0xDC00" "0xDC00 \<le> u'" "u' < 0xE000"
  shows "0x10000 + push_bit 10 (of_nat u AND 0x3FF) + (of_nat u' AND 0x3FF) =
    (of_nat (0x10000 + 1024 * (u - 0xD800) + (u' - 0xDC00)) :: u32)"
proof -
  have m: "(of_nat n AND 0x3FF :: u32) = of_nat (n mod 1024)" for n
  proof -
    have "take_bit 10 (of_nat n :: u32) = of_nat (take_bit 10 n)" by (simp only: take_bit_of_nat)
    moreover have "n AND 1023 = n mod 1024"
      using take_bit_eq_mask [of 10 n] take_bit_eq_mod [of 10 n] by (simp add: mask_eq_exp_minus_1)
    ultimately show ?thesis unfolding take_bit_eq_mask by (simp add: mask_eq_exp_minus_1)
  qed
  have "u mod 1024 = u - 0xD800" "u' mod 1024 = u' - 0xDC00" using mod_offset [of 54 1024 u] mod_offset [of 55 1024 u'] assms by simp_all
  then have a: "(of_nat u AND 0x3FF :: u32) = of_nat (u - 0xD800)" "(of_nat u' AND 0x3FF :: u32) = of_nat (u' - 0xDC00)"
    by (simp_all only: m)
  have "push_bit 10 (of_nat (u - 0xD800)) = (of_nat (1024 * (u - 0xD800)) :: u32)" by (simp add: push_bit_eq_mult)
  then show ?thesis unfolding a by (simp only: of_nat_add of_nat_numeral)
qed

lemma code_point_pair:
  assumes "four_hex u hs" "0xD800 \<le> u" "u < 0xDC00" "four_hex u' hs'" "0xDC00 \<le> u'" "u' < 0xE000"
  shows "decodeUnicodeCodePoint (hs @ ch CHR 0x5C # ch CHR ''u'' # hs' @ t) =
    Inr (of_nat (0x10000 + 1024 * (u - 0xD800) + (u' - 0xDC00)), t)"
  using assms(2,3) four_hex_value(2) [OF assms(1)] word_le_of_nat [of 55296 u] word_le_of_nat [of u 56319]
    surrogate_bits [OF assms(2,3,5,6)] four_hex_value(4) [OF assms(4)]
  by (auto simp: decodeUnicodeCodePoint_def four_hex_value(1) [OF assms(1)] four_hex_value(1) [OF assms(4)])

lemma string_loop_chars: "string_chars t s \<Longrightarrow> string_loop q (t @ ch CHR 0x22 # post) = (True, post)"
proof (induction arbitrary: q rule: string_chars.induct)
  case (chars_unicode t s u hs)
  obtain c where "string_loop (ch CHR 0x5C) (hs @ t @ ch CHR 0x22 # post) = string_loop c (t @ ch CHR 0x22 # post)"
    using four_hex_value(3) [OF chars_unicode(2)] by blast
  then show ?case using chars_unicode by simp
next
  case (chars_pair t s u hs u' hs')
  let ?t = "t @ ch CHR 0x22 # post"
  let ?p = "ch CHR 0x5C # ch CHR ''u'' # hs' @ ?t"
  obtain c where c: "string_loop (ch CHR 0x5C) (hs @ ?p) = string_loop c ?p"
    using four_hex_value(3) [OF chars_pair(2)] by blast
  obtain c' where "string_loop (ch CHR 0x5C) (hs' @ ?t) = string_loop c' ?t"
    using four_hex_value(3) [OF chars_pair(5)] by blast
  then show ?case using chars_pair c by simp
qed auto

lemma decode_string_chars: "string_chars t s \<Longrightarrow> decode_chars t acc = Inr (acc @ s)"
proof (induction arbitrary: acc rule: string_chars.induct)
  case (chars_unicode t s u hs)
  then show ?case
    using four_hex_value(2) [OF chars_unicode(2)] by (simp add: code_point_plain code_point_utf8)
next
  case (chars_pair t s u hs u' hs')
  let ?n = "0x10000 + 1024 * (u - 0xD800) + (u' - 0xDC00)"
  have "codePointToUTF8 (of_nat ?n) = utf8 ?n" by (rule code_point_utf8) (use chars_pair in auto)
  then show ?case using chars_pair.IH code_point_pair [OF chars_pair.hyps(2-7), of t] by simp
next
  case (chars_escape t s e x)
  then show ?case by (auto simp: simple_escape_def)
qed (auto)

section \<open>Numbers\<close>

definition digits :: "u8 list \<Rightarrow> bool" where
  "digits ds \<longleftrightarrow> ds \<noteq> [] \<and> list_all is_digit ds"

definition digits_from :: "nat \<Rightarrow> u8 list \<Rightarrow> nat" where
  "digits_from n ds = foldl (\<lambda>n c. 10 * n + unat (c - ch CHR ''0'')) n ds"

text \<open>
  \<open>number_text neg ds ext t\<close>: the number \<open>t\<close> has the integer digits \<open>ds\<close>, a minus sign when \<open>neg\<close>, and a
  fraction or an exponent when \<open>ext\<close>.
\<close>

inductive number_text :: "bool \<Rightarrow> u8 list \<Rightarrow> bool \<Rightarrow> u8 list \<Rightarrow> bool" where
  "digits ds \<Longrightarrow> (hd ds = ch CHR ''0'' \<Longrightarrow> tl ds = []) \<Longrightarrow>
    fr = [] \<or> (\<exists>fs. fr = ch CHR ''.'' # fs \<and> digits fs) \<Longrightarrow>
    ex = [] \<or> (\<exists>e sg es. ex = e # sg @ es \<and> e \<in> {ch CHR ''e'', ch CHR ''E''} \<and>
      sg \<in> {[], [ch CHR ''+''], [ch CHR ''-'']} \<and> digits es) \<Longrightarrow>
    number_text neg ds (fr \<noteq> [] \<or> ex \<noteq> []) ((if neg then [ch CHR ''-''] else []) @ ds @ fr @ ex)"

text \<open>An integer in range is exact, any other number is what the conversion \<open>rd\<close> to a double makes of its text.\<close>

inductive number_value :: "(u8 list \<Rightarrow> real option) \<Rightarrow> u8 list \<Rightarrow> json \<Rightarrow> bool" for rd where
  "number_text True ds False t \<Longrightarrow> digits_from 0 ds \<le> 2 ^ 63 \<Longrightarrow> number_value rd t (IntValue (- int (digits_from 0 ds)))"
| "number_text False ds False t \<Longrightarrow> digits_from 0 ds < 2 ^ 31 \<Longrightarrow> number_value rd t (IntValue (int (digits_from 0 ds)))"
| "number_text False ds False t \<Longrightarrow> 2 ^ 31 \<le> digits_from 0 ds \<Longrightarrow> digits_from 0 ds < 2 ^ 64 \<Longrightarrow>
    number_value rd t (UIntValue (int (digits_from 0 ds)))"
| "number_text neg ds ext t \<Longrightarrow> ext \<or> (if neg then 2 ^ 63 < digits_from 0 ds else 2 ^ 64 \<le> digits_from 0 ds) \<Longrightarrow>
    rd t = Some x \<Longrightarrow> number_value rd t (RealValue x)"

lemma digits_from_ge: "n \<le> digits_from n ds"
proof (induction ds arbitrary: n)
  case (Cons c ds)
  have "n \<le> 10 * n + unat (c - ch CHR ''0'')" by simp
  also have "\<dots> \<le> digits_from (10 * n + unat (c - ch CHR ''0'')) ds" by (rule Cons)
  finally show ?case by (simp add: digits_from_def)
qed (simp add: digits_from_def)

lemma digits_from_Cons: "digits_from n (c # ds) = digits_from (10 * n + unat (c - ch CHR ''0'')) ds"
  by (simp add: digits_from_def)

lemma digits_from_Nil: "digits_from n [] = n"
  by (simp add: digits_from_def)

lemma digit_range: "is_digit c \<Longrightarrow> unat (c - ch CHR ''0'') < 10"
  by (auto simp: is_digit_def word_le_nat_alt unat_sub)

lemma decode_digits_other: "c \<in> set t \<Longrightarrow> \<not> is_digit c \<Longrightarrow> decode_digits m t v = None"
  by (induction t arbitrary: v) (auto simp: Let_def)

lemma decode_digits_value:
  assumes "list_all is_digit ds" "v \<le> m" "10 \<le> m" "m < 2 ^ 64"
  shows "decode_digits (of_nat m) ds (of_nat v) =
    (if digits_from v ds \<le> m then Some (of_nat (digits_from v ds)) else None)"
  using assms(1,2)
proof (induction ds arbitrary: v)
  case Nil
  then show ?case by (simp add: digits_from_Nil)
next
  case (Cons c ds)
  define g where "g = unat (c - ch CHR ''0'')"
  have g: "g < 10" using Cons(2) digit_range by (simp add: g_def)
  have uc: "(ucast (c - ch CHR ''0'') :: u64) = of_nat g" unfolding g_def by simp
  have num: "unat (of_nat k :: u64) = k" if "k \<le> m" for k using that assms(4) by (simp add: unat_of_nat)
  have th: "(of_nat m :: u64) div 10 = of_nat (m div 10)" "(of_nat m :: u64) mod 10 = of_nat (m mod 10)"
    using num [of m] by (simp_all add: word_arith_nat_div word_arith_nat_mod)
  have cmp: "(of_nat v :: u64) \<ge> of_nat (m div 10) \<longleftrightarrow> m div 10 \<le> v" "(of_nat v :: u64) > of_nat (m div 10) \<longleftrightarrow> m div 10 < v"
    "(of_nat g :: u64) > of_nat (m mod 10) \<longleftrightarrow> m mod 10 < g"
    using num [of v] num [of "m div 10"] num [of g] num [of "m mod 10"] Cons(3) assms(3) g
    by (simp_all add: word_le_nat_alt word_less_nat_alt)
  let ?w = "10 * v + g"
  have step: "(of_nat v :: u64) * 10 + of_nat g = of_nat ?w" by (simp add: mult.commute)
  let ?stop = "m div 10 \<le> v \<and> (m div 10 < v \<or> ds \<noteq> [] \<or> m mod 10 < g)"
  have eq: "decode_digits (of_nat m) (c # ds) (of_nat v) =
      (if ?stop then None else decode_digits (of_nat m) ds (of_nat ?w))"
  proof -
    have "is_digit c" using Cons(2) by simp
    then show ?thesis by (simp only: decode_digits.simps Let_def uc th cmp step not_True_eq_False if_False)
  qed
  have m10: "m = 10 * (m div 10) + m mod 10" "m mod 10 < 10" by simp_all
  show ?case
  proof (cases ?stop)
    case True
    have "m < digits_from ?w ds"
    proof (cases "m div 10 < v \<or> m mod 10 < g")
      case True
      then have "m < ?w" using \<open>?stop\<close> m10 by linarith
      then show ?thesis using digits_from_ge [of ?w ds] by simp
    next
      case False
      then obtain c' ds' where ds: "ds = c' # ds'" using \<open>?stop\<close> by (cases ds) auto
      have "1 \<le> m div 10" using assms(3) by linarith
      moreover have "m div 10 \<le> v" using \<open>?stop\<close> by blast
      moreover have "10 * q + r < 10 * (10 * v + g)" if "1 \<le> q" "q \<le> v" "r < 10" for q r
        using that by (simp add: algebra_simps)
      ultimately have "m < 10 * ?w" using m10 by metis
      also have "\<dots> \<le> digits_from ?w ds" using digits_from_ge [of _ ds'] unfolding ds digits_from_Cons by (meson le_add1 le_trans)
      finally show ?thesis .
    qed
    then show ?thesis unfolding eq using True by (simp add: digits_from_Cons g_def)
  next
    case False
    then have "?w \<le> m" using m10 g by linarith
    then have "decode_digits (of_nat m) ds (of_nat ?w) = (if digits_from ?w ds \<le> m then Some (of_nat (digits_from ?w ds)) else None)"
      using Cons(1) [of ?w] Cons(2) by simp
    then show ?thesis unfolding eq if_not_P [OF False] digits_from_Cons g_def [symmetric] .
  qed
qed

lemma not_digit [simp]: "\<not> is_digit 45" "\<not> is_digit 46" "\<not> is_digit 101" "\<not> is_digit 69" "\<not> is_digit 43"
  by (simp_all add: is_digit_def)

lemma decode_number_text:
  assumes "number_text neg ds ext t" "token_text tok = t"
  shows "decodeNumber rd tok =
    (if ext \<or> (if neg then 2 ^ 63 < digits_from 0 ds else 2 ^ 64 \<le> digits_from 0 ds) then decodeDouble rd t
     else Inr (if neg then IntValue (- int (digits_from 0 ds))
               else if digits_from 0 ds < 2 ^ 31 then IntValue (int (digits_from 0 ds)) else UIntValue (int (digits_from 0 ds))))"
  using assms(1)
proof cases
  case (1 fr ex)
  let ?u = "ds @ fr @ ex"
  define n where "n = digits_from 0 ds"
  define m where "m = (if neg then 2 ^ 63 else 2 ^ 64 - 1 :: nat)"
  have d: "list_all is_digit ds" "ds \<noteq> []" using 1(3) by (simp_all add: digits_def)
  then have "hd ds \<noteq> 45" using not_digit(1) by (cases ds) auto
  then have neg: "at_char t (ch CHR ''-'') = neg" "(if neg then tl t else t) = ?u" using d(2) 1(2) by (simp_all add: at_char_def)
  have m: "(if neg then 2 ^ 63 else - 1 :: u64) = of_nat m" "m < 2 ^ 64" "10 \<le> m" by (simp_all add: m_def)
  have dec: "decode_digits (of_nat m) ?u 0 = (if ext \<or> m < n then None else Some (of_nat n))"
  proof (cases ext)
    case True
    then have "\<exists>c\<in>set ?u. \<not> is_digit c" using 1(1,5,6) by auto
    then obtain c where "c \<in> set ?u" "\<not> is_digit c" by blast
    from decode_digits_other [OF this] show ?thesis using True by simp
  next
    case False
    then have "?u = ds" using 1(1) by simp
    then show ?thesis using decode_digits_value [of ds 0 m] d(1) False m(2,3) by (simp add: n_def)
  qed
  have over: "(if neg then 2 ^ 63 < n else 2 ^ 64 \<le> n) = (m < n)" by (auto simp: m_def)
  show ?thesis
  proof (cases "ext \<or> m < n")
    case True
    then show ?thesis
      unfolding decodeNumber_def Let_def assms(2) neg m dec n_def [symmetric] over by (simp split: if_splits)
  next
    case False
    then have num: "uint (of_nat n :: u64) = int n" "unat (of_nat n :: u64) = n" "unat (of_nat m :: u64) = m"
      using m(2) by (simp_all add: uint_nat unat_of_nat)
    have eq: "(of_nat n :: u64) = of_nat m \<longleftrightarrow> n = m" using num(2,3) by metis
    have big: "int n \<le> maxInt \<longleftrightarrow> n < 2 ^ 31" by (auto simp: maxInt_def)
    have "neg \<Longrightarrow> n = m \<Longrightarrow> int n = 2 ^ 63" by (simp add: m_def)
    then show ?thesis
      unfolding decodeNumber_def Let_def assms(2) neg m dec n_def [symmetric] over if_not_P [OF False] option.case num eq big
      by (cases neg) (simp_all del: of_nat_numeral)
  qed
qed

lemma decode_number_value: "number_value rd t v \<Longrightarrow> token_text tok = t \<Longrightarrow> decodeNumber rd tok = Inr v"
  by (induction rule: number_value.induct) (auto simp: decode_number_text decodeDouble_def)

definition number_end :: "u8 list \<Rightarrow> bool" where
  "number_end post \<longleftrightarrow> post = [] \<or> \<not> is_digit (hd post) \<and> hd post \<notin> {ch CHR ''.'', ch CHR ''e'', ch CHR ''E''}"

lemma dropWhile_digits: "list_all is_digit ds \<Longrightarrow> x = [] \<or> \<not> is_digit (hd x) \<Longrightarrow> dropWhile is_digit (ds @ x) = x"
  by (induction ds) (cases x, auto)

lemma dropWhile_all_digits: "list_all is_digit ds \<Longrightarrow> dropWhile is_digit ds = []"
  using dropWhile_digits [of ds "[]"] by simp

lemma digits_hd: "digits ds \<Longrightarrow> ds \<noteq> [] \<and> list_all is_digit ds \<and> hd ds \<noteq> 43 \<and> hd ds \<noteq> 45"
  by (cases ds) (auto simp: digits_def)

lemma read_number_text:
  assumes "number_text neg ds ext t" "number_end post"
  shows "\<exists>c x. t = c # x \<and> (is_digit c \<or> c = ch CHR ''-'') \<and> readNumber (x @ post) = post"
  using assms(1)
proof cases
  case (1 fr ex)
  have "number_exponent (ex @ post) = post" 
    using 1(6) assms(2) by (auto simp: number_exponent_def number_end_def at_char_def dropWhile_digits dropWhile_all_digits dest!: digits_hd)
  moreover have "number_fraction (fr @ ex @ post) = ex @ post"
    using 1(5,6) assms(2) by (auto simp: number_fraction_def number_end_def at_char_def dropWhile_digits dropWhile_all_digits dest!: digits_hd)
  moreover have "dropWhile is_digit (xs @ fr @ ex @ post) = fr @ ex @ post" if "list_all is_digit xs" for xs
    using that 1(5,6) assms(2) by (intro dropWhile_digits) (auto simp: number_end_def)
  ultimately have rn: "readNumber (xs @ fr @ ex @ post) = post" if "list_all is_digit xs" for xs
    using that by (simp add: readNumber_def)
  obtain d ds' where d: "ds = d # ds'" "is_digit d" "list_all is_digit ds'" using 1(3) by (cases ds) (auto simp: digits_def)
  have n: "readNumber (ds' @ fr @ ex @ post) = post" "readNumber (ds @ fr @ ex @ post) = post"
    using rn [of ds'] rn [of ds] d by simp_all
  show ?thesis using 1(2) n d by (cases neg) auto
qed

section \<open>Texts\<close>

definition ws :: "u8 list \<Rightarrow> bool" where "ws = list_all json_space"

text \<open>
  \<open>json_text rd d v t\<close>: \<open>t\<close> is a text of the value \<open>v\<close> nested at most \<open>d\<close> deep, a scalar counting as 1.  The
  members of an object are put one after the other, so that a repeated name keeps the last value.
\<close>

inductive json_text :: "(u8 list \<Rightarrow> real option) \<Rightarrow> nat \<Rightarrow> json \<Rightarrow> u8 list \<Rightarrow> bool"
  and members_text :: "(u8 list \<Rightarrow> real option) \<Rightarrow> nat \<Rightarrow> (u8 list \<times> json) list \<Rightarrow> u8 list \<Rightarrow> bool"
  and elements_text :: "(u8 list \<Rightarrow> real option) \<Rightarrow> nat \<Rightarrow> json list \<Rightarrow> u8 list \<Rightarrow> bool"
  for rd
where
  text_null: "json_text rd (Suc d) NullValue (str ''null'')"
| text_true: "json_text rd (Suc d) (BooleanValue True) (str ''true'')"
| text_false: "json_text rd (Suc d) (BooleanValue False) (str ''false'')"
| text_number: "number_value rd t v \<Longrightarrow> json_text rd (Suc d) v t"
| text_string: "string_chars t s \<Longrightarrow> json_text rd (Suc d) (StringValue s) (ch CHR 0x22 # t @ [ch CHR 0x22])"
| text_empty_array: "ws w \<Longrightarrow> json_text rd (Suc d) (ArrayValue []) (ch CHR ''['' # w @ [ch CHR '']''])"
| text_array: "elements_text rd d vs t \<Longrightarrow> json_text rd (Suc d) (ArrayValue vs) (ch CHR ''['' # t @ [ch CHR '']''])"
| text_empty_object: "ws w \<Longrightarrow> json_text rd (Suc d) (ObjectValue []) (ch CHR ''{'' # w @ [ch CHR ''}''])"
| text_object: "members_text rd d ms t \<Longrightarrow>
    json_text rd (Suc d) (ObjectValue (fold (\<lambda>(k, v). put_member k v) ms [])) (ch CHR ''{'' # t @ [ch CHR ''}''])"
| element: "ws w1 \<Longrightarrow> json_text rd d v t \<Longrightarrow> ws w2 \<Longrightarrow> elements_text rd d [v] (w1 @ t @ w2)"
| elements: "ws w1 \<Longrightarrow> json_text rd d v t \<Longrightarrow> ws w2 \<Longrightarrow> elements_text rd d vs ts \<Longrightarrow>
    elements_text rd d (v # vs) (w1 @ t @ w2 @ ch CHR '','' # ts)"
| member: "ws w1 \<Longrightarrow> string_chars kt k \<Longrightarrow> ws w2 \<Longrightarrow> ws w3 \<Longrightarrow> json_text rd d v t \<Longrightarrow> ws w4 \<Longrightarrow>
    members_text rd d [(k, v)] (w1 @ ch CHR 0x22 # kt @ ch CHR 0x22 # w2 @ ch CHR '':'' # w3 @ t @ w4)"
| members: "ws w1 \<Longrightarrow> string_chars kt k \<Longrightarrow> ws w2 \<Longrightarrow> ws w3 \<Longrightarrow> json_text rd d v t \<Longrightarrow> ws w4 \<Longrightarrow> members_text rd d ms ts \<Longrightarrow>
    members_text rd d ((k, v) # ms) (w1 @ ch CHR 0x22 # kt @ ch CHR 0x22 # w2 @ ch CHR '':'' # w3 @ t @ w4 @ ch CHR '','' # ts)"

section \<open>Tokens\<close>

lemma skipSpaces_ws: "ws w \<Longrightarrow> skipSpaces (w @ t) = skipSpaces t"
  by (induction w) (auto simp: ws_def skipSpaces_def)

lemma skipSpaces_Cons: "\<not> json_space c \<Longrightarrow> skipSpaces (c # t) = c # t"
  by (simp add: skipSpaces_def)

lemma readToken_at:
  assumes "skipSpaces cur = c # x" "read_token_from c x = (ty, True, y)"
  shows "readToken cur = (\<lparr>tok_type = ty, tok_start = c # x, tok_end = y\<rparr>, y)"
  using assms by (simp add: readToken_def)

lemma skip_comments_at:
  assumes "skipSpaces cur = c # x" "read_token_from c x = (ty, True, y)" "ty \<noteq> tokenComment"
  shows "skip_comments cur = (\<lparr>tok_type = ty, tok_start = c # x, tok_end = y\<rparr>, y)"
    "skipCommentTokens ft cur = (\<lparr>tok_type = ty, tok_start = c # x, tok_end = y\<rparr>, y)"
  using readToken_at [OF assms(1,2)] assms(3) by (simp_all add: skip_comments.simps [of cur] skipCommentTokens_def)

lemma token_text_app: "token_text \<lparr>tok_type = ty, tok_start = t @ post, tok_end = post\<rparr> = t"
  by (simp add: token_text_def)

lemma json_space_ch [simp]: "\<not> json_space 34" "\<not> json_space 44" "\<not> json_space 58" "\<not> json_space 91" "\<not> json_space 93" "\<not> json_space 123"
  "\<not> json_space 125" "\<not> json_space 110" "\<not> json_space 116" "\<not> json_space 102" "\<not> json_space 45"
  by (simp_all add: json_space_def)

lemma digit_not_json_space: "is_digit c \<Longrightarrow> \<not> json_space c"
  by (auto simp: is_digit_def json_space_def)

lemma json_text_hd:
  assumes "json_text rd d v t"
  shows "t \<noteq> []" "\<not> json_space (hd t)" "hd t \<noteq> ch CHR '']''"
proof -
  have "t \<noteq> [] \<and> \<not> json_space (hd t) \<and> hd t \<noteq> ch CHR '']''"
    using assms
  proof cases
    case text_number
    then obtain neg ds ext where "number_text neg ds ext t" by (auto elim: number_value.cases)
    then obtain c x where "t = c # x" "is_digit c \<or> c = ch CHR ''-''"
      using read_number_text [of neg ds ext t "[]"] by (auto simp: number_end_def)
    then show ?thesis using digit_not_json_space [of c] by (auto simp: is_digit_def)
  qed (simp_all add: str_def)
  then show "t \<noteq> []" "\<not> json_space (hd t)" "hd t \<noteq> ch CHR '']''" by simp_all
qed

section \<open>The reader accepts the texts\<close>

lemma length_skipSpaces: "length (skipSpaces cur) \<le> length cur"
  unfolding skipSpaces_def by (rule length_dropWhile_le)

lemma skipSpaces_idem: "skipSpaces (skipSpaces cur) = skipSpaces cur"
  by (simp add: skipSpaces_def)

lemma skipSpaces_text: "json_text rd d v t \<Longrightarrow> skipSpaces (t @ x) = t @ x"
  using json_text_hd [of rd d v t] by (cases t) (auto simp: skipSpaces_Cons)

lemma number_end_ws: "ws w \<Longrightarrow> number_end x \<Longrightarrow> number_end (w @ x)"
  by (cases w) (auto simp: ws_def number_end_def json_space_def is_digit_def)

lemma number_end_Cons: "c \<in> {ch CHR '','', ch CHR '']'', ch CHR ''}''} \<Longrightarrow> number_end (c # x)"
  by (auto simp: number_end_def is_digit_def)

lemma read_number_value:
  assumes "number_value rd t v" "number_end post"
  shows "\<exists>c x. t = c # x \<and> read_token_from c (x @ post) = (tokenNumber, True, post)"
proof -
  obtain neg ds ext where "number_text neg ds ext t" using assms(1) by (auto elim: number_value.cases)
  from read_number_text [OF this assms(2)] obtain c x where c: "t = c # x" "is_digit c \<or> c = ch CHR ''-''" "readNumber (x @ post) = post"
    by blast
  then have "read_token_from c (x @ post) = (tokenNumber, True, post)"
    by (auto simp: read_token_from_def is_digit_def)
  then show ?thesis using c(1) by blast
qed

lemma readString_chars: "string_chars t s \<Longrightarrow> readString (t @ ch CHR 0x22 # post) = (True, post)"
  unfolding readString_def by (rule string_loop_chars)

lemma decodeString_chars:
  assumes "string_chars t s"
  shows "decodeString \<lparr>tok_type = ty, tok_start = ch CHR 0x22 # t @ ch CHR 0x22 # post, tok_end = post\<rparr> = Inr s"
proof -
  have "token_text \<lparr>tok_type = ty, tok_start = ch CHR 0x22 # t @ ch CHR 0x22 # post, tok_end = post\<rparr> = ch CHR 0x22 # t @ [ch CHR 0x22]"
    using token_text_app [of ty "ch CHR 0x22 # t @ [ch CHR 0x22]" post] by simp
  then show ?thesis using decode_string_chars [OF assms, of "[]"] by (simp add: decodeString_def)
qed

text \<open>The token of a null, a literal, a number or a string, and its value.\<close>

definition scalar_token :: "(u8 list \<Rightarrow> real option) \<Rightarrow> token \<Rightarrow> json \<Rightarrow> bool" where
  "scalar_token rd t v \<longleftrightarrow>
     (case tok_type t of
        tokenNull \<Rightarrow> v = NullValue
      | tokenTrue \<Rightarrow> v = BooleanValue True
      | tokenFalse \<Rightarrow> v = BooleanValue False
      | tokenNumber \<Rightarrow> decodeNumber rd t = Inr v
      | tokenString \<Rightarrow> (\<exists>s. decodeString t = Inr s \<and> v = StringValue s)
      | _ \<Rightarrow> False)"

lemma reads_scalar:
  assumes "read_token_from (hd t) (tl t @ post) = (ty, True, post)" "t \<noteq> []" "skipSpaces (rd_current r) = t @ post"
    "rd_depth r < 1000" "scalar_token rd \<lparr>tok_type = ty, tok_start = t @ post, tok_end = post\<rparr> v"
  shows "readValue ft rd (Suc n) v0 r = Parsed (True, v, r\<lparr>rd_current := post\<rparr>)"
proof -
  obtain c x where t: "t = c # x" using assms(2) by (cases t) auto
  have "ty \<noteq> tokenComment" using assms(5) by (auto simp: scalar_token_def)
  then have tok: "skipCommentTokens ft (rd_current r) = (\<lparr>tok_type = ty, tok_start = t @ post, tok_end = post\<rparr>, post)"
    using skip_comments_at(2) [of "rd_current r" c "x @ post" ty post ft] assms(1,3) t by simp
  have "readValue ft rd (Suc n) v0 r = Parsed (True, v, r\<lparr>rd_depth := rd_depth r, rd_current := post\<rparr>)"
    using assms(4,5) by (cases ty) (auto simp: readValue.simps tok stackLimit_g_def scalar_token_def Let_def)
  then show ?thesis by simp
qed

lemma reads_array:
  assumes "skipSpaces (rd_current r) = ch CHR ''['' # x" "rd_depth r < 1000" "\<not> at_char (skipSpaces x) (ch CHR '']'')"
    "read_elements ft rd n [] (r\<lparr>rd_depth := Suc (rd_depth r), rd_current := skipSpaces x\<rparr>) =
       Parsed (True, v, r\<lparr>rd_depth := Suc (rd_depth r), rd_current := post\<rparr>)"
  shows "readValue ft rd (Suc n) v0 r = Parsed (True, v, r\<lparr>rd_current := post\<rparr>)"
proof -
  have tok: "skipCommentTokens ft (rd_current r) = (\<lparr>tok_type = tokenArrayBegin, tok_start = ch CHR ''['' # x, tok_end = x\<rparr>, x)"
    using assms(1) by (intro skip_comments_at) (simp_all add: read_token_from_def)
  have "readValue ft rd (Suc n) v0 r = Parsed (True, v, r\<lparr>rd_depth := rd_depth r, rd_current := post\<rparr>)"
    using assms(2-4) by (simp add: readValue.simps tok stackLimit_g_def Let_def)
  then show ?thesis by simp
qed

lemma reads_empty_array:
  assumes "skipSpaces (rd_current r) = ch CHR ''['' # x" "rd_depth r < 1000" "skipSpaces x = ch CHR '']'' # post"
  shows "readValue ft rd (Suc n) v0 r = Parsed (True, ArrayValue [], r\<lparr>rd_current := post\<rparr>)"
proof -
  have tok: "skipCommentTokens ft (rd_current r) = (\<lparr>tok_type = tokenArrayBegin, tok_start = ch CHR ''['' # x, tok_end = x\<rparr>, x)"
    using assms(1) by (intro skip_comments_at) (simp_all add: read_token_from_def)
  have tok2: "readToken (ch CHR '']'' # post) = (\<lparr>tok_type = tokenArrayEnd, tok_start = ch CHR '']'' # post, tok_end = post\<rparr>, post)"
    by (intro readToken_at) (simp_all add: read_token_from_def skipSpaces_Cons)
  have "readValue ft rd (Suc n) v0 r = Parsed (True, ArrayValue [], r\<lparr>rd_depth := rd_depth r, rd_current := post\<rparr>)"
    using assms(2,3) tok2 by (simp add: readValue.simps tok stackLimit_g_def at_char_def Let_def)
  then show ?thesis by simp
qed

lemma reads_object:
  assumes "skipSpaces (rd_current r) = ch CHR ''{'' # x" "rd_depth r < 1000"
    "read_members ft rd n [] [] (r\<lparr>rd_depth := Suc (rd_depth r), rd_current := x\<rparr>) =
       Parsed (True, v, r\<lparr>rd_depth := Suc (rd_depth r), rd_current := post\<rparr>)"
  shows "readValue ft rd (Suc n) v0 r = Parsed (True, v, r\<lparr>rd_current := post\<rparr>)"
proof -
  have tok: "skipCommentTokens ft (rd_current r) = (\<lparr>tok_type = tokenObjectBegin, tok_start = ch CHR ''{'' # x, tok_end = x\<rparr>, x)"
    using assms(1) by (intro skip_comments_at) (simp_all add: read_token_from_def)
  have "readValue ft rd (Suc n) v0 r = Parsed (True, v, r\<lparr>rd_depth := rd_depth r, rd_current := post\<rparr>)"
    using assms(2,3) by (simp add: readValue.simps tok stackLimit_g_def Let_def)
  then show ?thesis by simp
qed

lemma element_end_at:
  assumes "skipSpaces (rd_current r) = c # x"
  shows "c = ch CHR '']'' \<Longrightarrow> element_end vs True r = Inl (True, ArrayValue vs, r\<lparr>rd_current := x\<rparr>)"
    "c = ch CHR '','' \<Longrightarrow> element_end vs True r = Inr (r\<lparr>rd_current := x\<rparr>)"
proof -
  have "skip_comments (rd_current r) = (\<lparr>tok_type = ty, tok_start = c # x, tok_end = x\<rparr>, x)"
    if "read_token_from c x = (ty, True, x)" "ty \<noteq> tokenComment" for ty
    using skip_comments_at(1) [OF assms that] .
  note t = this [of tokenArrayEnd] this [of tokenArraySeparator]
  show "c = ch CHR '']'' \<Longrightarrow> element_end vs True r = Inl (True, ArrayValue vs, r\<lparr>rd_current := x\<rparr>)"
    "c = ch CHR '','' \<Longrightarrow> element_end vs True r = Inr (r\<lparr>rd_current := x\<rparr>)"
    using t by (simp_all add: element_end_def read_token_from_def is_digit_def)
qed

lemma member_end_at:
  assumes "skipSpaces (rd_current r) = c # x"
  shows "c = ch CHR ''}'' \<Longrightarrow> member_end ms True r = Inl (True, ObjectValue ms, r\<lparr>rd_current := x\<rparr>)"
    "c = ch CHR '','' \<Longrightarrow> member_end ms True r = Inr (r\<lparr>rd_current := x\<rparr>)"
proof -
  have "readToken (rd_current r) = (\<lparr>tok_type = ty, tok_start = c # x, tok_end = x\<rparr>, x)"
    if "read_token_from c x = (ty, True, x)" for ty
    using readToken_at [OF assms that] .
  note t = this [of tokenObjectEnd] this [of tokenArraySeparator]
  show "c = ch CHR ''}'' \<Longrightarrow> member_end ms True r = Inl (True, ObjectValue ms, r\<lparr>rd_current := x\<rparr>)"
    "c = ch CHR '','' \<Longrightarrow> member_end ms True r = Inr (r\<lparr>rd_current := x\<rparr>)"
    using t by (simp_all add: member_end_def read_token_from_def is_digit_def)
qed

lemma member_name_at:
  assumes "skipSpaces (rd_current r) = ch CHR 0x22 # kt @ ch CHR 0x22 # x" "string_chars kt k" "skipSpaces x = ch CHR '':'' # y"
  shows "member_name ft rd name ms r = Inr (k, r\<lparr>rd_current := y\<rparr>)"
proof -
  have "skip_comments (rd_current r) = (\<lparr>tok_type = tokenString, tok_start = ch CHR 0x22 # kt @ ch CHR 0x22 # x, tok_end = x\<rparr>, x)"
    using readString_chars [OF assms(2), of x] by (intro skip_comments_at(1) [OF assms(1)]) (simp_all add: read_token_from_def)
  moreover have "readToken x = (\<lparr>tok_type = tokenMemberSeparator, tok_start = ch CHR '':'' # y, tok_end = y\<rparr>, y)"
    by (rule readToken_at [OF assms(3)]) (simp add: read_token_from_def is_digit_def)
  ultimately show ?thesis
    using decodeString_chars [OF assms(2), of tokenString x] by (simp add: member_name_def member_colon_def Let_def)
qed

text \<open>
  What is to be shown of a text, of the members of an object up to its brace and of the elements of an array
  up to its bracket.
\<close>

definition reads_value :: "features \<Rightarrow> (u8 list \<Rightarrow> real option) \<Rightarrow> nat \<Rightarrow> json \<Rightarrow> u8 list \<Rightarrow> bool" where
  "reads_value ft rd d v t \<longleftrightarrow>
     (\<forall>n r v0 post. skipSpaces (rd_current r) = t @ post \<longrightarrow> number_end post \<longrightarrow> rd_depth r + d \<le> 1000 \<longrightarrow>
        2 * length (rd_current r) < n \<longrightarrow> readValue ft rd n v0 r = Parsed (True, v, r\<lparr>rd_current := post\<rparr>))"

definition reads_members :: "features \<Rightarrow> (u8 list \<Rightarrow> real option) \<Rightarrow> nat \<Rightarrow> (u8 list \<times> json) list \<Rightarrow> u8 list \<Rightarrow> bool" where
  "reads_members ft rd d ms t \<longleftrightarrow>
     (\<forall>n r name acc post. skipSpaces (rd_current r) = skipSpaces (t @ ch CHR ''}'' # post) \<longrightarrow> rd_depth r + d \<le> 1000 \<longrightarrow>
        2 * length (rd_current r) < n \<longrightarrow>
        read_members ft rd n name acc r =
          Parsed (True, ObjectValue (fold (\<lambda>(k, v). put_member k v) ms acc), r\<lparr>rd_current := post\<rparr>))"

definition reads_elements :: "features \<Rightarrow> (u8 list \<Rightarrow> real option) \<Rightarrow> nat \<Rightarrow> json list \<Rightarrow> u8 list \<Rightarrow> bool" where
  "reads_elements ft rd d vs t \<longleftrightarrow>
     (\<forall>n r acc post. skipSpaces (rd_current r) = skipSpaces (t @ ch CHR '']'' # post) \<longrightarrow> rd_depth r + d \<le> 1000 \<longrightarrow>
        Suc (2 * length (rd_current r)) < n \<longrightarrow>
        read_elements ft rd n acc r = Parsed (True, ArrayValue (acc @ vs), r\<lparr>rd_current := post\<rparr>))"

lemma reads_valueD:
  assumes "reads_value ft rd d v t" "skipSpaces (rd_current r) = t @ post" "number_end post" "rd_depth r + d \<le> 1000"
    "2 * length (rd_current r) < n"
  shows "readValue ft rd n v0 r = Parsed (True, v, r\<lparr>rd_current := post\<rparr>)"
  using assms unfolding reads_value_def by blast

lemma reads_scalarI:
  assumes "t \<noteq> []" "\<And>post. number_end post \<Longrightarrow> \<exists>ty. read_token_from (hd t) (tl t @ post) = (ty, True, post) \<and>
     scalar_token rd \<lparr>tok_type = ty, tok_start = t @ post, tok_end = post\<rparr> v"
  shows "reads_value ft rd (Suc d) v t"
proof -
  have "readValue ft rd n v0 r = Parsed (True, v, r\<lparr>rd_current := post\<rparr>)"
    if t: "skipSpaces (rd_current r) = t @ post" "number_end post" and d: "rd_depth r + Suc d \<le> 1000" "2 * length (rd_current r) < n"
    for n r v0 post
  proof -
    obtain n' where n: "n = Suc n'" using d(2) by (cases n) auto
    obtain ty where "read_token_from (hd t) (tl t @ post) = (ty, True, post)"
      "scalar_token rd \<lparr>tok_type = ty, tok_start = t @ post, tok_end = post\<rparr> v"
      using assms(2) [OF t(2)] by blast
    then show ?thesis unfolding n using d(1) by (intro reads_scalar [OF _ assms(1) t(1)]) simp_all
  qed
  then show ?thesis unfolding reads_value_def by blast
qed

lemma reads_literals:
  "reads_value ft rd (Suc d) NullValue (str ''null'')" "reads_value ft rd (Suc d) (BooleanValue True) (str ''true'')"
  "reads_value ft rd (Suc d) (BooleanValue False) (str ''false'')"
  by (rule reads_scalarI; force simp: str_def read_token_from_def is_digit_def match_text_def scalar_token_def)+

lemma reads_number:
  assumes "number_value rd t v"
  shows "reads_value ft rd (Suc d) v t"
proof (rule reads_scalarI)
  show "t \<noteq> []" using read_number_value [OF assms, of "[]"] by (auto simp: number_end_def)
  fix post assume "number_end post"
  from read_number_value [OF assms this] show "\<exists>ty. read_token_from (hd t) (tl t @ post) = (ty, True, post) \<and>
     scalar_token rd \<lparr>tok_type = ty, tok_start = t @ post, tok_end = post\<rparr> v"
    using decode_number_value [OF assms token_text_app] by (auto simp: scalar_token_def)
qed

lemma reads_string:
  assumes "string_chars t s"
  shows "reads_value ft rd (Suc d) (StringValue s) (ch CHR 0x22 # t @ [ch CHR 0x22])"
proof (rule reads_scalarI)
  fix post :: "u8 list"
  let ?t = "ch CHR 0x22 # t @ [ch CHR 0x22]"
  have "read_token_from (hd ?t) (tl ?t @ post) = (tokenString, True, post)"
    using readString_chars [OF assms, of post] by (simp add: read_token_from_def)
  moreover have "decodeString \<lparr>tok_type = tokenString, tok_start = ?t @ post, tok_end = post\<rparr> = Inr s"
    using decodeString_chars [OF assms, of tokenString post] by simp
  ultimately show "\<exists>ty. read_token_from (hd ?t) (tl ?t @ post) = (ty, True, post) \<and>
     scalar_token rd \<lparr>tok_type = ty, tok_start = ?t @ post, tok_end = post\<rparr> (StringValue s)"
    by (auto simp: scalar_token_def simp del: append_Cons)
qed simp

lemma reads_nested:
  assumes "reads_elements ft rd d vs t" "elements_text rd d vs t"
  shows "reads_value ft rd (Suc d) (ArrayValue vs) (ch CHR ''['' # t @ [ch CHR '']''])"
proof -
  have "readValue ft rd n v0 r = Parsed (True, ArrayValue vs, r\<lparr>rd_current := post\<rparr>)"
    if c: "skipSpaces (rd_current r) = (ch CHR ''['' # t @ [ch CHR '']'']) @ post"
      and d: "rd_depth r + Suc d \<le> 1000" "2 * length (rd_current r) < n" for n r v0 post
  proof -
    obtain n' where n: "n = Suc n'" using d(2) by (cases n) auto
    let ?x = "t @ ch CHR '']'' # post"
    let ?r = "r\<lparr>rd_depth := Suc (rd_depth r), rd_current := skipSpaces ?x\<rparr>"
    have "\<not> at_char (skipSpaces ?x) (ch CHR '']'')"
      using assms(2) by cases (auto simp: skipSpaces_ws skipSpaces_text at_char_def json_text_hd(1) dest: json_text_hd(3))
    moreover have "length (skipSpaces ?x) < length (rd_current r)"
      using length_skipSpaces [of "rd_current r"] length_skipSpaces [of ?x] c by simp
    then have "read_elements ft rd n' [] ?r = Parsed (True, ArrayValue vs, ?r\<lparr>rd_current := post\<rparr>)"
      using assms(1) d unfolding reads_elements_def n by (simp add: skipSpaces_idem)
    ultimately show ?thesis unfolding n using c d(1) by (intro reads_array [of r ?x]) simp_all
  qed
  then show ?thesis unfolding reads_value_def by blast
qed

lemma reads_empty:
  assumes "ws w"
  shows "reads_value ft rd (Suc d) (ArrayValue []) (ch CHR ''['' # w @ [ch CHR '']''])"
    "reads_value ft rd (Suc d) (ObjectValue []) (ch CHR ''{'' # w @ [ch CHR ''}''])"
proof -
  have "readValue ft rd n v0 r = Parsed (True, ArrayValue [], r\<lparr>rd_current := post\<rparr>)"
    if c: "skipSpaces (rd_current r) = (ch CHR ''['' # w @ [ch CHR '']'']) @ post"
      and d: "rd_depth r + Suc d \<le> 1000" "2 * length (rd_current r) < n" for n r v0 post
  proof -
    obtain n' where n: "n = Suc n'" using d(2) by (cases n) auto
    show ?thesis unfolding n
      using c d(1) skipSpaces_ws [OF assms, of "ch CHR '']'' # post"]
      by (intro reads_empty_array [of r "w @ ch CHR '']'' # post"]) (simp_all add: skipSpaces_Cons)
  qed
  then show "reads_value ft rd (Suc d) (ArrayValue []) (ch CHR ''['' # w @ [ch CHR '']''])" unfolding reads_value_def by blast
  have "readValue ft rd n v0 r = Parsed (True, ObjectValue [], r\<lparr>rd_current := post\<rparr>)"
    if c: "skipSpaces (rd_current r) = (ch CHR ''{'' # w @ [ch CHR ''}'']) @ post"
      and d: "rd_depth r + Suc d \<le> 1000" "2 * length (rd_current r) < n" for n r v0 post
  proof -
    obtain n' where n: "n = Suc (Suc n')"
      using d(2) c length_skipSpaces [of "rd_current r"] by (cases n; cases "n - 1") auto
    let ?x = "w @ ch CHR ''}'' # post"
    let ?r = "r\<lparr>rd_depth := Suc (rd_depth r), rd_current := ?x\<rparr>"
    have s: "skipSpaces (rd_current ?r) = ch CHR ''}'' # post"
      using skipSpaces_ws [OF assms, of "ch CHR ''}'' # post"] by (simp add: skipSpaces_Cons)
    have "skip_comments (rd_current ?r) = (\<lparr>tok_type = tokenObjectEnd, tok_start = ch CHR ''}'' # post, tok_end = post\<rparr>, post)"
      by (rule skip_comments_at(1) [OF s]) (simp_all add: read_token_from_def is_digit_def)
    then have "read_members ft rd (Suc n') [] [] ?r = Parsed (True, ObjectValue [], ?r\<lparr>rd_current := post\<rparr>)"
      by (simp add: read_members.simps member_name_def Let_def)
    then show ?thesis unfolding n using c d(1) by (intro reads_object [of r ?x]) simp_all
  qed
  then show "reads_value ft rd (Suc d) (ObjectValue []) (ch CHR ''{'' # w @ [ch CHR ''}''])" unfolding reads_value_def by blast
qed

lemma reads_members_value:
  assumes "reads_members ft rd d ms t"
  shows "reads_value ft rd (Suc d) (ObjectValue (fold (\<lambda>(k, v). put_member k v) ms [])) (ch CHR ''{'' # t @ [ch CHR ''}''])"
proof -
  let ?v = "ObjectValue (fold (\<lambda>(k, v). put_member k v) ms [])"
  have "readValue ft rd n v0 r = Parsed (True, ?v, r\<lparr>rd_current := post\<rparr>)"
    if c: "skipSpaces (rd_current r) = (ch CHR ''{'' # t @ [ch CHR ''}'']) @ post"
      and d: "rd_depth r + Suc d \<le> 1000" "2 * length (rd_current r) < n" for n r v0 post
  proof -
    obtain n' where n: "n = Suc n'" using d(2) by (cases n) auto
    let ?x = "t @ ch CHR ''}'' # post"
    let ?r = "r\<lparr>rd_depth := Suc (rd_depth r), rd_current := ?x\<rparr>"
    have "length ?x < length (rd_current r)" using length_skipSpaces [of "rd_current r"] c by simp
    then have "read_members ft rd n' [] [] ?r = Parsed (True, ?v, ?r\<lparr>rd_current := post\<rparr>)"
      using assms d unfolding reads_members_def n by simp
    then show ?thesis unfolding n using c d(1) by (intro reads_object [of r ?x]) simp_all
  qed
  then show ?thesis unfolding reads_value_def by blast
qed

text \<open>One element with what follows it: the closing bracket or a comma and the other elements.\<close>

lemma read_elements_at:
  assumes v: "reads_value ft rd d v t" "json_text rd d v t" "ws w2"
    and c: "skipSpaces (rd_current r) = t @ w2 @ c # x" "c \<in> {ch CHR '','', ch CHR '']''}"
    and d: "rd_depth r + d \<le> 1000" "2 * length (rd_current r) < n"
  shows "read_elements ft rd (Suc n) acc r =
    (if c = ch CHR '']'' then Parsed (True, ArrayValue (acc @ [v]), r\<lparr>rd_current := x\<rparr>)
     else read_elements ft rd n (acc @ [v]) (r\<lparr>rd_current := x\<rparr>))"
proof -
  let ?r = "r\<lparr>rd_current := w2 @ c # x\<rparr>"
  have "number_end (w2 @ c # x)" using c(2) by (intro number_end_ws [OF v(3)] number_end_Cons) auto
  then have "readValue ft rd n NullValue r = Parsed (True, v, ?r)" by (rule reads_valueD [OF v(1) c(1) _ d])
  moreover have "skipSpaces (rd_current ?r) = c # x"
    using c(2) skipSpaces_ws [OF v(3), of "c # x"] by (auto simp: skipSpaces_Cons)
  note element_end_at [OF this]
  ultimately show ?thesis using c(2) by (auto simp: read_elements.simps)
qed

lemma read_members_at:
  assumes k: "string_chars kt k" "ws w2" "ws w3" and v: "reads_value ft rd d v t" "json_text rd d v t" "ws w4"
    and c: "skipSpaces (rd_current r) = ch CHR 0x22 # kt @ ch CHR 0x22 # w2 @ ch CHR '':'' # w3 @ t @ w4 @ c # x"
      "c \<in> {ch CHR '','', ch CHR ''}''}"
    and d: "rd_depth r + d \<le> 1000" "2 * length (rd_current r) < Suc n"
  shows "read_members ft rd (Suc n) name acc r =
    (if c = ch CHR ''}'' then Parsed (True, ObjectValue (put_member k v acc), r\<lparr>rd_current := x\<rparr>)
     else read_members ft rd n k (put_member k v acc) (r\<lparr>rd_current := x\<rparr>))"
proof -
  let ?y = "w3 @ t @ w4 @ c # x"
  let ?r = "r\<lparr>rd_current := w4 @ c # x\<rparr>"
  have "member_name ft rd name acc r = Inr (k, r\<lparr>rd_current := ?y\<rparr>)"
    using skipSpaces_ws [OF k(2), of "ch CHR '':'' # ?y"] by (intro member_name_at [OF c(1) k(1)]) (simp add: skipSpaces_Cons)
  moreover have "number_end (w4 @ c # x)" using c(2) by (intro number_end_ws [OF v(3)] number_end_Cons) auto
  then have "readValue ft rd n v0 (r\<lparr>rd_current := ?y\<rparr>) = Parsed (True, v, r\<lparr>rd_current := w4 @ c # x\<rparr>)" for v0
    using reads_valueD [OF v(1), of "r\<lparr>rd_current := ?y\<rparr>" "w4 @ c # x" n v0] skipSpaces_ws [OF k(3), of "t @ w4 @ c # x"]
      skipSpaces_text [OF v(2)] d length_skipSpaces [of "rd_current r"] c(1) by simp
  moreover have "skipSpaces (rd_current ?r) = c # x"
    using c(2) skipSpaces_ws [OF v(3), of "c # x"] by (auto simp: skipSpaces_Cons)
  note member_end_at [OF this]
  ultimately show ?thesis using c(2) by (auto simp: read_members.simps)
qed

lemma reads_one_element:
  assumes "ws w1" "json_text rd d v t" "reads_value ft rd d v t" "ws w2"
  shows "reads_elements ft rd d [v] (w1 @ t @ w2)"
proof -
  have "read_elements ft rd n acc r = Parsed (True, ArrayValue (acc @ [v]), r\<lparr>rd_current := post\<rparr>)"
    if c: "skipSpaces (rd_current r) = skipSpaces ((w1 @ t @ w2) @ ch CHR '']'' # post)"
      and d: "rd_depth r + d \<le> 1000" "Suc (2 * length (rd_current r)) < n" for n r acc post
  proof -
    obtain n' where n: "n = Suc n'" using d(2) by (cases n) auto
    have "skipSpaces (rd_current r) = t @ w2 @ ch CHR '']'' # post"
      using c by (simp add: skipSpaces_ws [OF assms(1)] skipSpaces_text [OF assms(2)])
    from read_elements_at [OF assms(3,2,4) this _ d(1), of n' acc] show ?thesis unfolding n using d(2) n by simp
  qed
  then show ?thesis unfolding reads_elements_def by blast
qed

lemma reads_more_elements:
  assumes "ws w1" "json_text rd d v t" "reads_value ft rd d v t" "ws w2" "reads_elements ft rd d vs ts"
  shows "reads_elements ft rd d (v # vs) (w1 @ t @ w2 @ ch CHR '','' # ts)"
proof -
  have "read_elements ft rd n acc r = Parsed (True, ArrayValue (acc @ v # vs), r\<lparr>rd_current := post\<rparr>)"
    if c: "skipSpaces (rd_current r) = skipSpaces ((w1 @ t @ w2 @ ch CHR '','' # ts) @ ch CHR '']'' # post)"
      and d: "rd_depth r + d \<le> 1000" "Suc (2 * length (rd_current r)) < n" for n r acc post
  proof -
    obtain n' where n: "n = Suc n'" using d(2) by (cases n) auto
    let ?x = "ts @ ch CHR '']'' # post"
    have cur: "skipSpaces (rd_current r) = t @ w2 @ ch CHR '','' # ?x"
      using c by (simp add: skipSpaces_ws [OF assms(1)] skipSpaces_text [OF assms(2)])
    have "read_elements ft rd n' (acc @ [v]) (r\<lparr>rd_current := ?x\<rparr>) =
        Parsed (True, ArrayValue ((acc @ [v]) @ vs), r\<lparr>rd_current := ?x\<rparr>\<lparr>rd_current := post\<rparr>)"
      using assms(5) d n cur length_skipSpaces [of "rd_current r"] unfolding reads_elements_def by simp
    with read_elements_at [OF assms(3,2,4) cur _ d(1), of n' acc] show ?thesis unfolding n using d(2) n by simp
  qed
  then show ?thesis unfolding reads_elements_def by blast
qed

lemma reads_one_member:
  assumes "ws w1" "string_chars kt k" "ws w2" "ws w3" "json_text rd d v t" "reads_value ft rd d v t" "ws w4"
  shows "reads_members ft rd d [(k, v)] (w1 @ ch CHR 0x22 # kt @ ch CHR 0x22 # w2 @ ch CHR '':'' # w3 @ t @ w4)"
proof -
  have "read_members ft rd n name acc r = Parsed (True, ObjectValue (put_member k v acc), r\<lparr>rd_current := post\<rparr>)"
    if c: "skipSpaces (rd_current r) =
          skipSpaces ((w1 @ ch CHR 0x22 # kt @ ch CHR 0x22 # w2 @ ch CHR '':'' # w3 @ t @ w4) @ ch CHR ''}'' # post)"
      and d: "rd_depth r + d \<le> 1000" "2 * length (rd_current r) < n" for n r name acc post
  proof -
    obtain n' where n: "n = Suc n'" using d(2) by (cases n) auto
    have "skipSpaces (rd_current r) = ch CHR 0x22 # kt @ ch CHR 0x22 # w2 @ ch CHR '':'' # w3 @ t @ w4 @ ch CHR ''}'' # post"
      using c by (simp add: skipSpaces_ws [OF assms(1)] skipSpaces_Cons)
    from read_members_at [OF assms(2-4,6,5,7) this _ d(1), of n' name acc] show ?thesis unfolding n using d(2) n by simp
  qed
  then show ?thesis unfolding reads_members_def by simp
qed

lemma reads_more_members:
  assumes "ws w1" "string_chars kt k" "ws w2" "ws w3" "json_text rd d v t" "reads_value ft rd d v t" "ws w4"
    "reads_members ft rd d ms ts"
  shows "reads_members ft rd d ((k, v) # ms)
    (w1 @ ch CHR 0x22 # kt @ ch CHR 0x22 # w2 @ ch CHR '':'' # w3 @ t @ w4 @ ch CHR '','' # ts)"
proof -
  let ?put = "fold (\<lambda>(k, v). put_member k v) ms"
  have "read_members ft rd n name acc r = Parsed (True, ObjectValue (?put (put_member k v acc)), r\<lparr>rd_current := post\<rparr>)"
    if c: "skipSpaces (rd_current r) =
          skipSpaces ((w1 @ ch CHR 0x22 # kt @ ch CHR 0x22 # w2 @ ch CHR '':'' # w3 @ t @ w4 @ ch CHR '','' # ts) @ ch CHR ''}'' # post)"
      and d: "rd_depth r + d \<le> 1000" "2 * length (rd_current r) < n" for n r name acc post
  proof -
    obtain n' where n: "n = Suc n'" using d(2) by (cases n) auto
    let ?x = "ts @ ch CHR ''}'' # post"
    have cur: "skipSpaces (rd_current r) = ch CHR 0x22 # kt @ ch CHR 0x22 # w2 @ ch CHR '':'' # w3 @ t @ w4 @ ch CHR '','' # ?x"
      using c by (simp add: skipSpaces_ws [OF assms(1)] skipSpaces_Cons)
    have "read_members ft rd n' k (put_member k v acc) (r\<lparr>rd_current := ?x\<rparr>) =
        Parsed (True, ObjectValue (?put (put_member k v acc)), r\<lparr>rd_current := ?x\<rparr>\<lparr>rd_current := post\<rparr>)"
      using assms(8) d n cur length_skipSpaces [of "rd_current r"] unfolding reads_members_def by simp
    with read_members_at [OF assms(2-4,6,5,7) cur _ d(1), of n' name acc] show ?thesis unfolding n using d(2) n by simp
  qed
  then show ?thesis unfolding reads_members_def by simp
qed

lemma reads_texts:
  "json_text rd d v t \<Longrightarrow> reads_value ft rd d v t"
  "members_text rd d ms t \<Longrightarrow> reads_members ft rd d ms t"
  "elements_text rd d vs t \<Longrightarrow> reads_elements ft rd d vs t"
proof (induction rule: json_text_members_text_elements_text.inducts)
  case (text_array d vs t)
  then show ?case by (intro reads_nested)
qed (rule reads_literals reads_number reads_string reads_empty reads_members_value reads_one_element
    reads_more_elements reads_one_member reads_more_members; assumption)+

lemma reader_accepts:
  assumes "json_text rd d v t" "d \<le> 1000" "ws w1" "number_end post"
    "strictRoot ft \<longrightarrow> (\<exists>vs. v = ArrayValue vs) \<or> (\<exists>ms. v = ObjectValue ms)"
  shows "\<exists>r. Reader_parse ft rd (w1 @ t @ post) v0 = Parsed (True, v, r) \<and> rd_errors r = []"
proof -
  let ?doc = "w1 @ t @ post"
  have "readValue ft rd (Suc (2 * length ?doc)) v0 (start_reader ?doc) = Parsed (True, v, (start_reader ?doc)\<lparr>rd_current := post\<rparr>)"
    using assms(2,4) skipSpaces_text [OF assms(1)] skipSpaces_ws [OF assms(3)]
    by (intro reads_valueD [OF reads_texts(1) [OF assms(1)]]) (simp_all add: start_reader_def)
  then show ?thesis
    using assms(5) unfolding Reader_parse_def start_reader_def by (auto simp: check_root_def)
qed

end
