(* ===== verification/Reader_Proof.thy ===== *)
theory Reader_Proof
  imports Json_Grammar Config_Parser
begin

text \<open>
  What the JSON reader does on every document: it ends, keeps the values well-formed, accepts JSON with the
  value of the grammar up to its nesting limit; how a configuration file becomes a configuration, and a
  document that is not JSON and is accepted.
\<close>

section \<open>The reader ends\<close>

text \<open>
  C15. \<open>JsonParser::Parse\<close> ends on every file: it returns, or it throws, and it throws only when the file has
  at least \<open>stackLimit_g\<close>, 1000, bytes.
\<close>

theorem parse_ends:
  "(\<exists>ok v'. JsonParser_Parse rd file v = Parsed (ok, v'))
    \<or> JsonParser_Parse rd file v = Thrown \<and> (\<exists>content. file = Some content \<and> length content \<in> {1000..})"
proof (cases "file")
  case None
  then have "JsonParser_Parse rd file v = Parsed (False, v)" by (simp add: JsonParser_Parse_def)
  then show ?thesis by blast
next
  case (Some content)
  let ?doc = "takeWhile (\<lambda>c. c \<noteq> 0xFF) content"
  have "length ?doc \<le> length content" by (rule length_takeWhile_le)
  moreover consider "Reader_parse Features_all rd ?doc v = Thrown" "stackLimit_g \<le> length ?doc"
    | ok v' r where "Reader_parse Features_all rd ?doc v = Parsed (ok, v', r)"
    using reader_result [of Features_all rd ?doc v] by (auto simp: Features_all_def)
  then have "JsonParser_Parse rd file v = Thrown \<and> 1000 \<le> length ?doc \<or> (\<exists>ok v'. JsonParser_Parse rd file v = Parsed (ok, v'))"
    using Some by cases (auto simp: JsonParser_Parse_def Reader_parse_stream_def stackLimit_g_def)
  ultimately show ?thesis using Some by auto
qed

section \<open>Values are well-formed\<close>

text \<open>Integers fit their 64 bits and the names of an object's members are distinct, as in a \<open>std::map\<close>.\<close>

fun json_typed :: "json \<Rightarrow> bool" where
  "json_typed (IntValue i) \<longleftrightarrow> - (2 ^ 63) \<le> i \<and> i < 2 ^ 63"
| "json_typed (UIntValue u) \<longleftrightarrow> 0 \<le> u \<and> u < 2 ^ 64"
| "json_typed (ArrayValue vs) \<longleftrightarrow> list_all json_typed vs"
| "json_typed (ObjectValue ms) \<longleftrightarrow> distinct (map fst ms) \<and> list_all (\<lambda>m. json_typed (snd m)) ms"
| "json_typed _ \<longleftrightarrow> True"

abbreviation typed_members :: "(u8 list \<times> json) list \<Rightarrow> bool" where
  "typed_members ms \<equiv> json_typed (ObjectValue ms)"

lemma put_member_keys: "set (map fst (put_member k v ms)) = insert k (set (map fst ms))"
  by (induction k v ms rule: put_member.induct) auto

lemma put_member_typed: "typed_members ms \<Longrightarrow> json_typed v \<Longrightarrow> typed_members (put_member k v ms)"
proof (induction k v ms rule: put_member.induct)
  case (2 k v k' v' ms)
  then show ?case using put_member_keys [of k v ms] by auto
qed simp

lemma decode_digits_bound:
  assumes "decode_digits (of_nat m) ds 0 = Some x" "10 \<le> m" "m < 2 ^ 64"
  shows "uint x \<le> int m"
proof -
  have "list_all is_digit ds" using assms(1) by (metis list_all_iff decode_digits_other option.distinct(1))
  then have x: "x = of_nat (digits_from 0 ds)" "digits_from 0 ds \<le> m"
    using decode_digits_value [of ds 0 m] assms by (auto split: if_splits)
  then show ?thesis using assms(3) by (simp add: uint_nat unat_of_nat)
qed

lemma decodeNumber_typed: "decodeNumber rd t = Inr v \<Longrightarrow> json_typed v"
proof -
  let ?neg = "at_char (token_text t) (ch CHR ''-'')"
  define m where "m = (if ?neg then 2 ^ 63 else 2 ^ 64 - 1 :: nat)"
  have m: "(if ?neg then 2 ^ 63 else - 1 :: u64) = of_nat m" "10 \<le> m" "m < 2 ^ 64" by (simp_all add: m_def)
  have b: "uint x < 2 ^ 64" "0 \<le> uint x" "?neg \<longrightarrow> uint x \<le> 2 ^ 63"
    if "decode_digits (of_nat m) ds 0 = Some x" for ds x
    using decode_digits_bound [OF that m(2,3)] uint_bounded [of x] by (auto simp: m_def)
  assume v: "decodeNumber rd t = Inr v"
  show "json_typed v"
  proof (cases "decode_digits (of_nat m) (if ?neg then tl (token_text t) else token_text t) 0")
    case None
    then show ?thesis using v unfolding decodeNumber_def Let_def m(1) by (auto simp: decodeDouble_def split: option.splits)
  next
    case (Some x)
    have v_eq: "v = (if ?neg \<and> x = of_nat m then IntValue (- (2 ^ 63)) else if ?neg then IntValue (- uint x)
        else if uint x \<le> maxInt then IntValue (uint x) else UIntValue (uint x))"
      using v unfolding decodeNumber_def Let_def m(1) Some by simp
    have "json_typed (if c then IntValue (- (2 ^ 63)) else if g then IntValue (- y) else if y \<le> maxInt then IntValue y else UIntValue y)"
      if "y < 2 ^ 64" "0 \<le> y" "g \<longrightarrow> y \<le> 2 ^ 63" for c g y
      using that by (simp add: maxInt_def)
    from this [OF b [OF Some]] show ?thesis unfolding v_eq .
  qed
qed

definition typed_result :: "(bool \<times> json \<times> reader) parsed \<Rightarrow> bool" where
  "typed_result x \<longleftrightarrow> (case x of Parsed (ok, v, r) \<Rightarrow> json_typed v | _ \<Rightarrow> True)"

lemma typed_result_simps [simp]:
  "typed_result (Parsed (ok, v, r)) = json_typed v" "typed_result Thrown" "typed_result No_Fuel"
  by (simp_all add: typed_result_def)

lemma typed_result_bind:
  assumes "typed_result x" "\<And>ok v r. json_typed v \<Longrightarrow> typed_result (f (ok, v, r))"
  shows "typed_result (case x of Parsed y \<Rightarrow> f y | Thrown \<Rightarrow> Thrown | No_Fuel \<Rightarrow> No_Fuel)"
  using assms by (cases x) auto

lemma member_name_typed:
  "typed_members ms \<Longrightarrow> case member_name ft rd name ms r of Inl x \<Rightarrow> typed_result x | Inr _ \<Rightarrow> True"
  by (auto simp: member_name_def member_colon_def Let_def split: prod.splits sum.splits option.splits)

lemma member_end_typed:
  "typed_members ms \<Longrightarrow> case member_end ms ok r of Inl (ok, v, r) \<Rightarrow> json_typed v | Inr _ \<Rightarrow> True"
  by (auto simp: member_end_def Let_def split: prod.splits sum.splits)

lemma element_end_typed:
  "list_all json_typed vs \<Longrightarrow> case element_end vs ok r of Inl (ok, v, r) \<Rightarrow> json_typed v | Inr _ \<Rightarrow> True"
  by (auto simp: element_end_def Let_def split: prod.splits sum.splits)

lemma map_of_typed: "typed_members ms \<Longrightarrow> map_of ms k = Some v \<Longrightarrow> json_typed v"
  by (auto simp: list_all_iff dest: map_of_SomeD)

lemma reader_typed:
  "json_typed v \<Longrightarrow> typed_result (readValue ft rd n v r)"
  "typed_members ms \<Longrightarrow> typed_result (read_members ft rd n name ms r)"
  "list_all json_typed vs \<Longrightarrow> typed_result (read_elements ft rd n vs r)"
proof (induction n arbitrary: v r name ms vs)
  case (Suc n)
  { case 1
    have o: "typed_result (case read_members ft rd n [] [] r of Parsed x \<Rightarrow> f x | Thrown \<Rightarrow> Thrown | No_Fuel \<Rightarrow> No_Fuel)"
      if "\<And>ok v r. json_typed v \<Longrightarrow> typed_result (f (ok, v, r))" for r f
      using Suc(2) [of "[]" "[]" r] that by (cases "read_members ft rd n [] [] r") auto
    have a: "typed_result (case read_elements ft rd n [] r of Parsed x \<Rightarrow> f x | Thrown \<Rightarrow> Thrown | No_Fuel \<Rightarrow> No_Fuel)"
      if "\<And>ok v r. json_typed v \<Longrightarrow> typed_result (f (ok, v, r))" for r f
      using Suc(3) [of "[]" r] that by (cases "read_elements ft rd n [] r") auto
    obtain t cur where t: "skipCommentTokens ft (rd_current r) = (t, cur)" by fastforce
    show ?case
      using 1 by (cases "tok_type t") (auto simp: readValue.simps t Let_def decodeNumber_typed intro!: o a split: sum.splits)
  next
    case 2
    have val: "typed_result (readValue ft rd n (case map_of ms k of None \<Rightarrow> NullValue | Some v \<Rightarrow> v) r)" for k r
      using map_of_typed [OF 2] by (intro Suc(1)) (auto split: option.splits)
    have rest: "typed_result (case member_end ms' ok r of Inl x \<Rightarrow> Parsed x | Inr r \<Rightarrow> read_members ft rd n k ms' r)"
      if "typed_members ms'" for ms' ok r k
      using member_end_typed [OF that, of ok r] Suc(2) [OF that] by (cases "member_end ms' ok r") auto
    show ?case
      using member_name_typed [OF 2, of ft rd name r] put_member_typed [OF 2]
      by (cases "member_name ft rd name ms r")
        (auto simp: read_members.simps simp del: json_typed.simps intro!: typed_result_bind [OF val] rest)
  next
    case 3
    have rest: "typed_result (case element_end vs' ok r of Inl x \<Rightarrow> Parsed x | Inr r \<Rightarrow> read_elements ft rd n vs' r)"
      if "list_all json_typed vs'" for vs' ok r
      using element_end_typed [OF that, of ok r] Suc(3) [OF that] by (cases "element_end vs' ok r") auto
    show ?case
      unfolding read_elements.simps using 3 by (intro typed_result_bind [OF Suc(1)]) (auto intro!: rest)
  }
qed (simp_all add: readValue.simps read_members.simps read_elements.simps)

lemma parse_typed: "JsonParser_Parse rd file v = Parsed (ok, v') \<Longrightarrow> json_typed v \<Longrightarrow> json_typed v'"
proof (cases "file")
  case (Some content)
  assume p: "JsonParser_Parse rd file v = Parsed (ok, v')" and v: "json_typed v"
  define doc where "doc = takeWhile (\<lambda>c. c \<noteq> 0xFF) content"
  have "typed_result (readValue Features_all rd (Suc (2 * length doc)) v (start_reader doc))" by (rule reader_typed(1) [OF v])
  then show ?thesis
    using p unfolding Some JsonParser_Parse_def Reader_parse_stream_def Reader_parse_def option.case doc_def [symmetric] start_reader_def
    by (auto simp: check_root_def Features_all_def split: parsed.splits)
qed (simp add: JsonParser_Parse_def)

lemma get_member_typed: "json_typed v \<Longrightarrow> json_typed d \<Longrightarrow> get_member v key d = Some x \<Longrightarrow> json_typed x"
  by (cases v) (auto simp: get_member_def find_member_def list_all_iff split: option.splits dest!: map_of_SomeD)

lemma asUInt64_range: "asUInt64 ovf v = Some u \<Longrightarrow> json_typed v \<Longrightarrow> 0 \<le> ovf \<Longrightarrow> ovf < 2 ^ 64 \<Longrightarrow> 0 \<le> u \<and> u < 2 ^ 64"
proof (cases v)
  case (RealValue d)
  assume "asUInt64 ovf v = Some u" and o: "0 \<le> ovf" "ovf < 2 ^ 64"
  then have d: "0 \<le> d" "d \<le> 2 ^ 64" "u = (if d = 2 ^ 64 then ovf else trunc_real d)"
    using RealValue by (auto simp: asUInt64_def split: if_splits)
  show ?thesis
  proof (cases "d = 2 ^ 64")
    case False
    then have "\<lfloor>d\<rfloor> < 2 ^ 64" using d(2) by (simp add: floor_less_iff)
    then show ?thesis using d False by (simp add: trunc_real_def)
  qed (use d o in simp)
qed (auto simp: asUInt64_def isUInt64_def split: if_splits)

text \<open>
  C16. Whatever the document, well-formed or not, the value \<open>Parse\<close> leaves in \<open>root_\<close> is well-formed: its integers
  fit 64 bits and no object has two members of one name.  \<open>GetInteger\<close> then throws or returns a value of type
  \<open>int\<close>, and \<open>GetUint64\<close> one of type \<open>uint64_t\<close>.
\<close>

theorem parsed_values_typed:
  assumes "JsonParser_Parse rd file v = Parsed (ok, v')" "json_typed v" "i \<in> {minInt..maxInt}" "u \<in> {0..<2 ^ 64}" "ovf \<in> {0..<2 ^ 64}"
  shows "json_typed v' \<and> (case GetInteger v' key i of None \<Rightarrow> True | Some n \<Rightarrow> n \<in> {minInt..maxInt})
    \<and> (case GetUint64 ovf v' key u of None \<Rightarrow> True | Some n \<Rightarrow> n \<in> {0..<2 ^ 64})"
proof -
  have v': "json_typed v'" by (rule parse_typed [OF assms(1,2)])
  have "n \<in> {minInt..maxInt}" if n: "GetInteger v' key i = Some n" for n
  proof -
    obtain x where x: "get_member v' key (IntValue i) = Some x" "asInt x = Some n"
      using n by (auto simp: GetInteger_def Option.bind_eq_Some_conv)
    then have "json_typed x" using get_member_typed [OF v' _ x(1)] assms(3) by (simp add: minInt_def maxInt_def)
    then have "0 \<le> w" if "x = UIntValue w" for w using that by simp
    then show ?thesis using asInt_range [OF x(2)] by simp
  qed
  moreover have "n \<in> {0..<2 ^ 64}" if n: "GetUint64 ovf v' key u = Some n" for n
  proof -
    obtain x where x: "get_member v' key (UIntValue u) = Some x" "asUInt64 ovf x = Some n"
      using n by (auto simp: GetUint64_def Option.bind_eq_Some_conv)
    then have "json_typed x" using get_member_typed [OF v' _ x(1)] assms(4) by simp
    then show ?thesis using asUInt64_range [OF x(2)] assms(5) by auto
  qed
  ultimately show ?thesis using v' by (auto split: option.splits)
qed

section \<open>JSON is accepted\<close>

lemma takeWhile_ws: "ws w \<Longrightarrow> 0xFF \<notin> set w"
  by (auto simp: ws_def list_all_iff json_space_def)

lemma parse_stream: "0xFF \<notin> set doc \<Longrightarrow> Reader_parse_stream ft rd doc v = Reader_parse ft rd doc v"
proof -
  assume "0xFF \<notin> set doc"
  then have "takeWhile (\<lambda>c. c \<noteq> 0xFF) doc = doc" by (auto simp: takeWhile_eq_all_conv)
  then show ?thesis by (simp only: Reader_parse_stream_def)
qed

lemma parse_text:
  assumes "json_text rd d v t" "d \<le> 1000" "ws w1" "ws w2" "0xFF \<notin> set t"
  shows "JsonParser_Parse rd (Some (w1 @ t @ w2)) v0 = Parsed (True, v)"
proof -
  have "number_end w2" using number_end_ws [OF assms(4), of "[]"] by (simp add: number_end_def)
  then obtain r where r: "Reader_parse Features_all rd (w1 @ t @ w2) v0 = Parsed (True, v, r)"
    using reader_accepts [OF assms(1-3)] by (force simp: Features_all_def)
  have "0xFF \<notin> set (w1 @ t @ w2)" using assms(3-5) takeWhile_ws by auto
  then show ?thesis using r by (simp add: JsonParser_Parse_def parse_stream)
qed

text \<open>
  C14. \<open>Parse\<close> accepts every JSON text, with space around it, whose values are nested at most 1000 deep, and the
  value is the one of the grammar: integers that fit 64 bits are exact, escapes become UTF-8, a repeated name
  keeps its last value.  (The file must not contain the byte 255, which UTF-8 never has.)
\<close>

theorem parse_accepts_json:
  assumes "json_text rd d v t" "d \<le> 1000" "ws w1" "ws w2" "0xFF \<notin> set t"
  shows "JsonParser_Parse rd (Some (w1 @ t @ w2)) v0 = Parsed (True, v)"
  by (rule parse_text [OF assms])

lemma members_one: "members_text rd d [(k, v)] (ch CHR 0x22 # kt @ ch CHR 0x22 # ch CHR '':'' # t)"
  if "string_chars kt k" "json_text rd d v t"
  using member [of "[]" kt k "[]" "[]" rd d v t "[]"] that by (simp add: ws_def)

lemma string_chars_plain: "ch CHR 0x22 \<notin> set s \<Longrightarrow> ch CHR 0x5C \<notin> set s \<Longrightarrow> string_chars s s"
  by (induction s) (auto intro: string_chars.intros)

lemma digit_text: "c \<in> {49..57} \<Longrightarrow> json_text rd (Suc d) (IntValue (uint c - 48)) [c]"
proof (rule text_number)
  assume c: "c \<in> {49..57}"
  then have u: "48 \<le> unat c" "unat c \<le> 57" "unat c \<noteq> 48" by (auto simp: word_le_nat_alt)
  then have d: "is_digit c" "c \<noteq> 48" by (auto simp: is_digit_def word_le_nat_alt)
  have "digits_from 0 [c] = unat (c - 48)" by (simp add: digits_from_def)
  also have "\<dots> = unat c - 48" using u by (simp add: unat_sub word_le_nat_alt)
  finally have n: "digits_from 0 [c] = unat c - 48" .
  have "number_text False [c] False [c]"
    using number_text.intros [of "[c]" "[]" "[]" False] d by (simp add: digits_def)
  from number_value.intros(2) [OF this, of rd] show "number_value rd [c] (IntValue (uint c - 48))"
    using u unfolding n by (simp add: of_nat_diff)
qed

definition example_members :: "u8 list" where
  "example_members = ch CHR 0x22 # str ''max_idx'' @ ch CHR 0x22 # ch CHR '':'' # [ch CHR ''5'']"

lemma example_text: "members_text rd (Suc d) [(str ''max_idx'', IntValue 5)] example_members"
  unfolding example_members_def
  using digit_text [of 53 rd d] by (intro members_one string_chars_plain) (simp_all add: str_def)

lemma example_clean: "0xFF \<notin> set example_members"
  by (simp add: example_members_def str_def)

theorem parse_accepts_json_witness:
  "JsonParser_Parse (\<lambda>_. None) (Some ([32] @ (ch CHR ''{'' # example_members @ [ch CHR ''}'']) @ [10])) NullValue =
     Parsed (True, ObjectValue [(str ''max_idx'', IntValue 5)])"
  using parse_accepts_json [OF text_object [OF example_text [of "\<lambda>_. None" 0]], of "[32]" "[10]" NullValue] example_clean
  by (simp add: ws_def json_space_def)

theorem parsed_values_typed_witness:
  "case GetInteger (ObjectValue [(str ''max_idx'', IntValue 5)]) (str ''max_idx'') 100 of None \<Rightarrow> True | Some n \<Rightarrow> n \<in> {minInt..maxInt}"
proof -
  have "JsonParser_Parse (\<lambda>_. None) (Some ([] @ (ch CHR ''{'' # example_members @ [ch CHR ''}'']) @ [])) NullValue =
      Parsed (True, ObjectValue (fold (\<lambda>(k, v). put_member k v) [(str ''max_idx'', IntValue 5)] []))"
    using example_clean by (intro parse_text [OF text_object [OF example_text [of "\<lambda>_. None" 0]]]) (simp_all add: ws_def)
  then show ?thesis
    using parsed_values_typed [of "\<lambda>_. None" _ NullValue True _ 100 0 0 "str ''max_idx''"]
    by (fastforce simp: minInt_def maxInt_def)
qed

section \<open>The nesting limit\<close>

fun nested_array :: "nat \<Rightarrow> json" where
  "nested_array 0 = ArrayValue []"
| "nested_array (Suc n) = ArrayValue [nested_array n]"

lemma nested_text: "json_text rd (Suc k) (nested_array k) (replicate (Suc k) (ch CHR ''['') @ replicate (Suc k) (ch CHR '']''))"
proof (induction k)
  case 0
  show ?case using text_empty_array [of "[]" rd 0] by (simp add: ws_def)
next
  case (Suc k)
  have "elements_text rd (Suc k) [nested_array k] (replicate (Suc k) (ch CHR ''['') @ replicate (Suc k) (ch CHR '']''))"
    using element [of "[]" rd "Suc k", OF _ Suc, of "[]"] by (simp add: ws_def)
  from text_array [OF this] show ?case by (simp add: replicate_append_same)
qed

lemma nesting_throws:
  "rd_current r = replicate (Suc k) (ch CHR ''['') @ rest \<Longrightarrow> rd_depth r + k = 1000 \<Longrightarrow> 2 * k < n \<Longrightarrow>
    readValue ft rd n v r = Thrown"
proof (induction k arbitrary: n v r)
  case 0
  then show ?case by (cases n) (simp_all add: readValue.simps stackLimit_g_def)
next
  case (Suc k)
  obtain m where n: "n = Suc (Suc m)" using Suc(4) by (cases n; cases "n - 1") auto
  let ?x = "replicate (Suc k) (ch CHR ''['') @ rest"
  let ?r = "r\<lparr>rd_depth := Suc (rd_depth r), rd_current := ?x\<rparr>"
  have c: "skipSpaces (rd_current r) = ch CHR ''['' # ?x" "skipSpaces ?x = ?x"
    using Suc(2) by (simp_all add: skipSpaces_Cons)
  have tok: "skipCommentTokens ft (rd_current r) = (\<lparr>tok_type = tokenArrayBegin, tok_start = ch CHR ''['' # ?x, tok_end = ?x\<rparr>, ?x)"
    using c by (intro skip_comments_at) (simp_all add: read_token_from_def)
  have "readValue ft rd m NullValue ?r = Thrown" using Suc(3,4) n by (intro Suc(1)) simp_all
  then have "read_elements ft rd (Suc m) [] ?r = Thrown" by (simp add: read_elements.simps)
  then show ?case
    unfolding n using Suc(3) c(2) by (simp add: readValue.simps tok stackLimit_g_def at_char_def Let_def)
qed

text \<open>
  The nesting limit is exact: \<open>n\<close> opening brackets closed again are parsed up to \<open>n\<close> = 1000, and from 1001
  on \<open>Parse\<close> throws; nothing in the program catches it.
\<close>

theorem nesting_limit:
  assumes "0 < n"
  shows "JsonParser_Parse rd (Some (replicate n (ch CHR ''['') @ replicate n (ch CHR '']''))) v =
    (if n \<le> 1000 then Parsed (True, nested_array (n - 1)) else Thrown)"
proof (cases "n \<le> 1000")
  case True
  then show ?thesis
    using parse_text [OF nested_text [of rd "n - 1"], of "[]" "[]" v] assms by (simp add: ws_def)
next
  case False
  let ?doc = "replicate n (ch CHR ''['') @ replicate n (ch CHR '']'')"
  have "replicate n (ch CHR ''['') = replicate (Suc 1000) (ch CHR ''['') @ replicate (n - Suc 1000) (ch CHR ''['')"
    using False by (metis le_add_diff_inverse not_less_eq_eq replicate_add)
  then have "rd_current (start_reader ?doc) = replicate (Suc 1000) (ch CHR ''['') @ (replicate (n - Suc 1000) (ch CHR ''['') @ replicate n (ch CHR '']''))"
    by (simp only: start_reader_def reader.select_convs append_assoc)
  then have "readValue Features_all rd (Suc (2 * length ?doc)) v (start_reader ?doc) = Thrown"
    by (rule nesting_throws) (use False in \<open>simp_all add: start_reader_def\<close>)
  then have "Reader_parse Features_all rd ?doc v = Thrown" unfolding Reader_parse_def start_reader_def by (simp only: parsed.case)
  moreover have "0xFF \<notin> set ?doc" by auto
  ultimately show ?thesis using False by (simp add: JsonParser_Parse_def parse_stream)
qed

theorem nesting_limit_witness: "JsonParser_Parse (\<lambda>_. None) (Some (replicate 1001 (ch CHR ''['') @ replicate 1001 (ch CHR '']''))) NullValue = Thrown"
  using nesting_limit [of 1001 "\<lambda>_. None" NullValue] by simp

section \<open>Configuration files\<close>

text \<open>\<open>ConfigParser::ParseProfile\<close> of the server and of the client from the file on, with a new \<open>JsonParser\<close>.\<close>

definition svr_load :: "(u8 list \<Rightarrow> real option) \<Rightarrow> u8 list option \<Rightarrow> svr_config \<Rightarrow> (bool \<times> svr_config) option" where
  "svr_load rd file cfg =
     (case JsonParser_Parse rd file NullValue of
        Parsed (ok, doc) \<Rightarrow> svr_ParseProfile (if ok then Some doc else None) cfg
      | _ \<Rightarrow> None)"

definition clnt_load :: "int \<Rightarrow> (u8 list \<Rightarrow> real option) \<Rightarrow> u8 list option \<Rightarrow> clnt_config \<Rightarrow> (bool \<times> clnt_config) option" where
  "clnt_load ovf rd file cfg =
     (case JsonParser_Parse rd file NullValue of
        Parsed (ok, doc) \<Rightarrow> clnt_ParseProfile ovf (if ok then Some doc else None) cfg
      | _ \<Rightarrow> None)"

lemma map_of_fold_put: "map_of (fold (\<lambda>(k, v). put_member k v) ms acc) = map_of acc ++ map_of (rev ms)"
  by (induction ms arbitrary: acc) (auto simp: map_of_put_member map_add_def split: option.splits)

lemma get_member_map_of: "map_of ms = map_of ms' \<Longrightarrow> get_member (ObjectValue ms) = get_member (ObjectValue ms')"
  by (intro ext) (simp add: get_member_def find_member_def)

lemma profile_map_of:
  assumes "map_of ms = map_of ms'"
  shows "svr_ParseProfile (Some (ObjectValue ms)) cfg = svr_ParseProfile (Some (ObjectValue ms')) cfg"
    "clnt_ParseProfile ovf (Some (ObjectValue ms)) cfg' = clnt_ParseProfile ovf (Some (ObjectValue ms')) cfg'"
  using get_member_map_of [OF assms]
  by (simp_all add: svr_ParseProfile_def clnt_ParseProfile_def GetInteger_def GetString_def GetUint64_def)

lemma load_texts:
  assumes "members_text rd d ms t" "d < 1000" "ws w1" "ws w2" "0xFF \<notin> set t" "map_of ms' = map_of (rev ms)"
  shows "svr_load rd (Some (w1 @ (ch CHR ''{'' # t @ [ch CHR ''}'']) @ w2)) cfg = svr_ParseProfile (Some (ObjectValue ms')) cfg
    \<and> clnt_load ovf rd (Some (w1 @ (ch CHR ''{'' # t @ [ch CHR ''}'']) @ w2)) cfg' = clnt_ParseProfile ovf (Some (ObjectValue ms')) cfg'"
proof -
  let ?ms = "fold (\<lambda>(k, v). put_member k v) ms []"
  have "JsonParser_Parse rd (Some (w1 @ (ch CHR ''{'' # t @ [ch CHR ''}'']) @ w2)) NullValue = Parsed (True, ObjectValue ?ms)"
    by (rule parse_text [OF text_object [OF assms(1)]]) (use assms(2-5) in auto)
  moreover have "map_of ?ms = map_of ms'" using assms(6) by (simp add: map_of_fold_put)
  note profile_map_of [OF this]
  ultimately show ?thesis by (simp add: svr_load_def clnt_load_def del: append_Cons)
qed

lemmas load_text = load_texts [THEN conjunct1]

text \<open>
  C25. A configuration file that is a JSON object is read by both programs as the last value of each of its
  names: the configuration depends on nothing else of the file, such as the order of the members, repeated
  names that are overridden, or space.
\<close>

theorem config_loaded:
  assumes "members_text rd d ms t" "d < 1000" "ws w1" "ws w2" "0xFF \<notin> set t" "map_of ms' = map_of (rev ms)"
  shows "svr_load rd (Some (w1 @ (ch CHR ''{'' # t @ [ch CHR ''}'']) @ w2)) cfg = svr_ParseProfile (Some (ObjectValue ms')) cfg
    \<and> clnt_load ovf rd (Some (w1 @ (ch CHR ''{'' # t @ [ch CHR ''}'']) @ w2)) cfg' = clnt_ParseProfile ovf (Some (ObjectValue ms')) cfg'"
  by (rule load_texts [OF assms])

lemma parse_example:
  "svr_ParseProfile (Some (ObjectValue [(str ''max_idx'', IntValue 5)])) cfg = Some (True, empty_document_config\<lparr>cfg_max_idx := 5, flag := 5\<rparr>)"
  by (simp add: svr_ParseProfile_def GetInteger_def GetString_def get_member_def find_member_def asInt_def
      isInt_def minInt_def maxInt_def asCString_def empty_document_config_def str_def)

theorem config_loaded_witness:
  "svr_load (\<lambda>_. None) (Some ([] @ (ch CHR ''{'' # example_members @ [ch CHR ''}'']) @ [])) svr_config0 =
     Some (True, empty_document_config\<lparr>cfg_max_idx := 5, flag := 5\<rparr>)"
proof -
  have "svr_load (\<lambda>_. None) (Some ([] @ (ch CHR ''{'' # example_members @ [ch CHR ''}'']) @ [])) svr_config0 =
      svr_ParseProfile (Some (ObjectValue [(str ''max_idx'', IntValue 5)])) svr_config0"
    using config_loaded [OF example_text [of "\<lambda>_. None" 0], of "[]" "[]" "[(str ''max_idx'', IntValue 5)]" svr_config0 0] example_clean
    by (auto simp: ws_def)
  then show ?thesis unfolding parse_example .
qed

section \<open>A comment for a comma\<close>

lemma comment_token: "readToken (str ''/**/'' @ x) = (\<lparr>tok_type = tokenComment, tok_start = str ''/**/'' @ x, tok_end = x\<rparr>, x)"
  using readToken_at [of "str ''/**/'' @ x" "ch CHR ''/''" "str ''**/'' @ x" tokenComment x]
  by (simp add: str_def skipSpaces_def json_space_def read_token_from_def readComment_def readCStyleComment_def)

lemma parse_of_value:
  assumes "readValue ft rd (Suc (2 * length doc)) v0 (start_reader doc) = Parsed (True, v, r)" "\<not> strictRoot ft"
  shows "\<exists>r'. Reader_parse ft rd doc v0 = Parsed (True, v, r')"
  using assms unfolding start_reader_def by (simp add: Reader_parse_def check_root_def)

lemma member_end_comment:
  assumes "rd_current r = str ''/**/'' @ c # x" "c \<in> set (str '':,[]{'')"
  shows "member_end ms True r = Inr (r\<lparr>rd_current := x\<rparr>)"
proof -
  obtain ty where "read_token_from c x = (ty, True, x)" "ty \<notin> {tokenComment, tokenObjectEnd}" "\<not> json_space c"
    using assms(2) by (auto simp: str_def read_token_from_def is_digit_def json_space_def)
  then have "skip_comments (c # x) = (\<lparr>tok_type = ty, tok_start = c # x, tok_end = x\<rparr>, x)" "ty \<noteq> tokenObjectEnd"
    using skip_comments_at(1) [of "c # x" c x ty x] by (simp_all add: skipSpaces_Cons)
  then show ?thesis using assms(1) comment_token [of "c # x"] by (simp add: member_end_def)
qed

text \<open>
  Behind a member's value a comment replaces the comma: when the value is followed by a comment, whatever
  token comes next is dropped and taken for the separator, so that a document with a colon or a bracket there,
  which is not JSON, is accepted with both parts' members.
\<close>

theorem comment_hides_separator:
  assumes "string_chars kt k" "json_text rd d v t" "members_text rd d ms ts" "d < 1000" "c \<in> set (str '':,[]{'')"
    "0xFF \<notin> set (kt @ t @ ts)"
  shows "JsonParser_Parse rd (Some (str ''{'' @ ch CHR 0x22 # kt @ ch CHR 0x22 # ch CHR '':'' # t @ str ''/**/'' @ c # ts @ str ''}'')) v0 =
    Parsed (True, ObjectValue (fold (\<lambda>(k, v). put_member k v) ms [(k, v)]))"
proof -
  let ?x = "ts @ str ''}''"
  let ?w = "str ''/**/'' @ c # ?x"
  let ?y = "ch CHR 0x22 # kt @ ch CHR 0x22 # ch CHR '':'' # t @ ?w"
  let ?doc = "str ''{'' @ ?y"
  let ?v = "ObjectValue (fold (\<lambda>(k, v). put_member k v) ms [(k, v)])"
  define r where "r = (start_reader ?doc)\<lparr>rd_depth := 1, rd_current := ?y\<rparr>"
  define n where "n = Suc (2 * length ?doc)"
  have name: "member_name Features_all rd [] [] r = Inr (k, r\<lparr>rd_current := t @ ?w\<rparr>)"
    by (rule member_name_at [where kt = kt and x = "ch CHR '':'' # t @ ?w"]) (simp_all add: r_def assms(1) skipSpaces_Cons)
  have "number_end ?w" by (simp add: number_end_def str_def is_digit_def)
  then have val: "readValue Features_all rd (n - 2) NullValue (r\<lparr>rd_current := t @ ?w\<rparr>) = Parsed (True, v, r\<lparr>rd_current := ?w\<rparr>)"
    using reads_valueD [OF reads_texts(1) [OF assms(2)], of "r\<lparr>rd_current := t @ ?w\<rparr>" ?w "n - 2"] skipSpaces_text [OF assms(2)] assms(4)
    by (simp add: r_def start_reader_def n_def str_def)
  have end': "member_end [(k, v)] True (r\<lparr>rd_current := ?w\<rparr>) = Inr (r\<lparr>rd_current := ?x\<rparr>)"
    using member_end_comment [of "r\<lparr>rd_current := ?w\<rparr>" c ?x] assms(5) by simp
  have rest: "read_members Features_all rd (n - 2) k [(k, v)] (r\<lparr>rd_current := ?x\<rparr>) = Parsed (True, ?v, r\<lparr>rd_current := []\<rparr>)"
    using reads_texts(2) [OF assms(3), of Features_all] assms(4) unfolding reads_members_def
    by (simp add: r_def start_reader_def n_def str_def)
  have "read_members Features_all rd (Suc (n - 2)) [] [] r = Parsed (True, ?v, r\<lparr>rd_current := []\<rparr>)"
    by (simp add: read_members.simps name val end' rest)
  then have "readValue Features_all rd (Suc (Suc (n - 2))) v0 (start_reader ?doc) = Parsed (True, ?v, (start_reader ?doc)\<lparr>rd_current := []\<rparr>)"
    by (intro reads_object [of _ ?y]) (simp_all add: r_def start_reader_def str_def skipSpaces_Cons)
  moreover have "Suc (Suc (n - 2)) = n" by (simp add: n_def str_def)
  ultimately obtain r' where "Reader_parse Features_all rd ?doc v0 = Parsed (True, ?v, r')"
    using parse_of_value [of Features_all rd ?doc v0 ?v] unfolding n_def by (metis Features_all_def features.select_convs(2))
  moreover have "0xFF \<notin> set ?doc" using assms(5,6) by (auto simp: str_def)
  ultimately show ?thesis by (simp add: JsonParser_Parse_def parse_stream)
qed

theorem comment_hides_separator_witness:
  "JsonParser_Parse (\<lambda>_. None) (Some (str ''{'' @ ch CHR 0x22 # str ''a'' @ ch CHR 0x22 # ch CHR '':'' # [ch CHR ''1''] @ str ''/**/'' @
       ch CHR '']'' # example_members @ str ''}'')) NullValue =
     Parsed (True, ObjectValue [(str ''a'', IntValue 1), (str ''max_idx'', IntValue 5)])"
proof -
  have "string_chars (str ''a'') (str ''a'')" by (rule string_chars_plain) (simp_all add: str_def)
  moreover have "json_text (\<lambda>_. None) (Suc 0) (IntValue 1) [ch CHR ''1'']" using digit_text [of 49 "\<lambda>_. None" 0] by simp
  ultimately show ?thesis
    using comment_hides_separator [OF _ _ example_text [of "\<lambda>_. None" 0], of "str ''a''" "str ''a''" "IntValue 1" "[ch CHR ''1'']" "ch CHR '']''" NullValue]
      example_clean
    by (simp add: str_def)
qed

end
