(* ===== verification/Startup.thy ===== *)
theory Startup
  imports Reader_Proof Init_Proof Event_Proof
begin

text \<open>
  The two programs, \<^verbatim>\<open>src/stpserver/main.cc\<close> and \<^verbatim>\<open>src/stpclient/main.cc\<close>, from the bytes of the configuration file
  to the event loop, which is an argument, like the connection pool of the database and libevent.  An
  exception nobody catches and \<open>LOG(FATAL)\<close> end the process: \<open>Abort\<close>.
\<close>

definition SIGUSR2 :: int where "SIGUSR2 = 12"

record ('b, 'os, 'db, 'e) server_platform =
  pf_init_pool :: "u8 list \<Rightarrow> int \<Rightarrow> u8 list \<Rightarrow> u8 list \<Rightarrow> u8 list \<Rightarrow> 'db \<Rightarrow> 'db run"
  pf_events :: "'e event_api"
  pf_can_listen :: "16 word \<Rightarrow> bool"
  pf_dispatch :: "bool \<Rightarrow> ('b, 'os, 'db) server \<Rightarrow> ('b, 'os, 'db) server run"

definition server_main ::
    "(u8 list \<Rightarrow> real option) \<Rightarrow> ('b, 'os, 'db, 'e) server_platform \<Rightarrow> ('b, 'os, 'db) services \<Rightarrow> u8 list option \<Rightarrow> svr_config \<Rightarrow>
     ('b, 'os, 'db) server \<times> 'e \<Rightarrow> (('b, 'os, 'db) server \<times> 'e signals) run" where
  "server_main rd pf sv file cfg0 st =
     (case svr_load rd file cfg0 of
        None \<Rightarrow> Abort
      | Some (ok, cfg) \<Rightarrow>
          if \<not> ok then Abort
          else
            run_bind (pf_init_pool pf (db_addr cfg) (db_port cfg) (db_user cfg) (db_passwd cfg) (database cfg) (s_db (fst st))) (\<lambda>db.
            run_bind (AddSignalEvent (pf_events pf) SIGUSR2 (Map.empty, snd st)) (\<lambda>(_, sigs).
            run_bind (server_StartRun (sv\<lparr>sv_config := cfg\<rparr>)
                (tcp_server_StartRun (pf_can_listen pf) (pf_dispatch pf) (svr_port cfg)) ((fst st)\<lparr>s_db := db\<rparr>)) (\<lambda>(ok, s).
              if \<not> ok then Abort else Ret (s, sigs)))))"

text \<open>
  The client's two timers are added before \<open>Init\<close>; \<open>f\<close> is the descriptor of its socket, \<open>can_connect\<close> whether the
  connection could be started, \<open>arr\<close> the contents of the connection's array.
\<close>

definition client_main ::
    "int \<Rightarrow> (u8 list \<Rightarrow> real option) \<Rightarrow> 'e event_api \<Rightarrow> ('b, 'os) client_services \<Rightarrow> 'b \<Rightarrow> u8 list \<Rightarrow> bool \<Rightarrow> int \<Rightarrow>
     (('b, ('b, 'os) client) loop \<Rightarrow> ('b, ('b, 'os) client) loop run) \<Rightarrow> u8 list option \<Rightarrow> clnt_config \<Rightarrow> 'os world \<times> 'e \<Rightarrow>
     (('b, ('b, 'os) client) loop \<times> 'e) run" where
  "client_main ovf rd api cs empty_buf arr can_connect f dispatch file cfg0 st =
     (case clnt_load ovf rd file cfg0 of
        None \<Rightarrow> Abort
      | Some (ok, cfg) \<Rightarrow>
          if \<not> ok then Abort
          else
            let cs = cs\<lparr>cs_config := cfg\<rparr>
            in run_bind (new_StpClient cs (fst st)) (\<lambda>c.
               case AddTimerEvent api False (snd st) of (_, e) \<Rightarrow>
               case AddTimerEvent api False e of (_, e) \<Rightarrow>
               case client_Init cs c of (ok, c) \<Rightarrow>
                 if \<not> ok then Abort
                 else run_bind (tcp_client_StartRun (\<lambda>_. Ret) empty_buf arr can_connect f (empty_loop c)) (\<lambda>lp.
                        run_bind (dispatch lp) (\<lambda>lp. Ret (lp, e)))))"

text \<open>The handlers of the signal, which end the loop in one second.\<close>

definition QuitStpServerCallback :: "event_base \<Rightarrow> event_base run" where
  "QuitStpServerCallback b = run_bind (EventNotifier_StopRun b) (\<lambda>(_, b). Ret b)"

definition QuitStpClientCallback :: "event_base \<Rightarrow> event_base run" where
  "QuitStpClientCallback b = run_bind (EventNotifier_StopRun b) (\<lambda>(_, b). Ret b)"

lemma first_signal: "\<exists>r. AddSignalEvent api sig (Map.empty, e) = Ret r"
  by (auto simp: AddSignalEvent_def DeleteSignalEvent_def split: option.splits prod.splits)

lemma profile_true: "svr_ParseProfile (Some doc) cfg = Some (ok, cfg') \<Longrightarrow> ok"
  by (auto simp: svr_ParseProfile_def option_binds)

text \<open>
  C26. What the server does with its configuration file, when that is a JSON object (whose last values are the
  members \<open>ms'\<close>): an exception of a conversion and a \<open>max_idx\<close> outside 1 to 100000 end it before it
  initialises anything; otherwise it ends when \<open>Init\<close> fails or the port cannot be listened on, and else runs its
  event loop over the groups \<open>Init\<close> made.
\<close>

theorem server_main_starts:
  assumes "members_text rd d ms t" "d < 1000" "ws w1" "ws w2" "0xFF \<notin> set t" "map_of ms' = map_of (rev ms)"
    and "\<And>a p u pw db x. pf_init_pool pf a p u pw db x = Ret (pool x)" "\<not> initialized (s_nego s)"
    and "AddSignalEvent (pf_events pf) SIGUSR2 (Map.empty, e) = Ret (r, sigs)"
  shows "server_main rd pf sv (Some (w1 @ (ch CHR ''{'' # t @ [ch CHR ''}'']) @ w2)) cfg0 (s, e) =
    (case svr_ParseProfile (Some (ObjectValue ms')) cfg0 of
       None \<Rightarrow> Abort
     | Some (_, cfg) \<Rightarrow>
         if cfg_max_idx cfg \<le> 0 \<or> 100000 < cfg_max_idx cfg then Abort
         else
           (case Init (sv_env sv) cfg (s_nego s, s_world s) of
              Ret (True, n, w) \<Rightarrow>
                if sint (svr_port cfg) \<noteq> -1 \<and> \<not> pf_can_listen pf (svr_port cfg) then Abort
                else run_bind (pf_dispatch pf (sint (svr_port cfg) \<noteq> -1) (s\<lparr>s_db := pool (s_db s), s_nego := n, s_world := w\<rparr>))
                       (\<lambda>s. Ret (s, sigs))
            | _ \<Rightarrow> Abort))"
proof -
  have load: "svr_load rd (Some (w1 @ (ch CHR ''{'' # t @ [ch CHR ''}'']) @ w2)) cfg0 = svr_ParseProfile (Some (ObjectValue ms')) cfg0"
    by (rule load_text [OF assms(1-6)])
  show ?thesis
  proof (cases "svr_ParseProfile (Some (ObjectValue ms')) cfg0")
    case None
    then show ?thesis unfolding server_main_def load by simp
  next
    case (Some x)
    obtain cfg where x: "x = (True, cfg)" using profile_true Some by (metis surj_pair)
    have Init: "(Init (sv_env sv) cfg (s_nego s, s_world s) = Abort \<longleftrightarrow> cfg_max_idx cfg \<le> 0 \<or> 100000 < cfg_max_idx cfg)"
      "Init (sv_env sv) cfg (s_nego s, s_world s) \<noteq> Fault"
      using init_outcome [OF assms(8)] by blast+
    show ?thesis
    proof (cases "Init (sv_env sv) cfg (s_nego s, s_world s)")
      case (Ret y)
      obtain ok n w where y: "y = (ok, n, w)" by (metis surj_pair)
      then show ?thesis
        unfolding server_main_def load Some x using Ret Init assms(7,9)
        by (cases ok; cases "sint (svr_port cfg) = -1") (auto simp: server_StartRun_def tcp_server_StartRun_def run_bind_assoc Let_def)
    next
      case Abort
      then show ?thesis unfolding server_main_def load Some x using Init(1) assms(7,9) by (simp add: server_StartRun_def)
    qed (use Init in simp)
  qed
qed

definition zero_slots :: "u8 list" where
  "zero_slots = ch CHR 0x22 # str ''max_idx'' @ ch CHR 0x22 # ch CHR '':'' # str ''false''"

lemma zero_slots_text: "members_text rd (Suc d) [(str ''max_idx'', BooleanValue False)] zero_slots"
  unfolding zero_slots_def by (intro members_one string_chars_plain text_false) (simp_all add: str_def)

lemma zero_slots_profile:
  "svr_ParseProfile (Some (ObjectValue [(str ''max_idx'', BooleanValue False)])) cfg =
     Some (True, empty_document_config\<lparr>cfg_max_idx := 0, flag := 0\<rparr>)"
  by (simp add: svr_ParseProfile_def GetInteger_def GetString_def get_member_def find_member_def asInt_def
      isInt_def minInt_def maxInt_def asCString_def empty_document_config_def str_def)

definition demo_platform :: "('b, 'os, 'db, nat) server_platform" where
  "demo_platform = \<lparr>pf_init_pool = (\<lambda>_ _ _ _ _ x. Ret x), pf_events = counting_events, pf_can_listen = (\<lambda>_. True), pf_dispatch = (\<lambda>_. Ret)\<rparr>"

theorem server_main_starts_witness:
  "server_main (\<lambda>_. None) demo_platform (demo_services True) (Some ([] @ (ch CHR ''{'' # zero_slots @ [ch CHR ''}'']) @ [])) svr_config0
     (demo_server\<lparr>s_nego := negotiate0\<rparr>, 0) = Abort"
proof -
  have "0xFF \<notin> set zero_slots" by (simp add: zero_slots_def str_def)
  then show ?thesis
    using server_main_starts [OF zero_slots_text [of "\<lambda>_. None" 0], where ?w1.0 = "[]" and ?w2.0 = "[]" and
        ms' = "[(str ''max_idx'', BooleanValue False)]" and pf = demo_platform and pool = "\<lambda>x. x" and
        s = "demo_server\<lparr>s_nego := negotiate0\<rparr>" and e = 0 and r = True and sigs = "([12 \<mapsto> 0], 1)" and
        sv = "demo_services True" and ?cfg0.0 = svr_config0]
    by (simp add: ws_def zero_slots_profile demo_platform_def AddSignalEvent_def DeleteSignalEvent_def counting_events_def SIGUSR2_def
        negotiate0_def)
qed

end
