(* ===== verification/Decimal.thy ===== *)
theory Decimal
  imports Prelude
begin

text \<open>Decimal digits: what \<open>snprintf\<close> prints for \<open>%lu\<close>, and the number they stand for.\<close>

fun decimal :: "nat \<Rightarrow> u8 list" where
  "decimal n = (if n < 10 then [48 + of_nat n] else decimal (n div 10) @ [48 + of_nat (n mod 10)])"

declare decimal.simps [simp del]

definition undecimal :: "u8 list \<Rightarrow> nat" where
  "undecimal ds = foldl (\<lambda>n c. 10 * n + unat (c - 48)) 0 ds"

lemma unat_digit: "n < 10 \<Longrightarrow> unat ((48 + of_nat n) - 48 :: u8) = n"
  by (simp add: unat_of_nat)

lemma undecimal_decimal: "undecimal (decimal n) = n"
proof (induction n rule: decimal.induct)
  case (1 n)
  show ?case
  proof (cases "n < 10")
    case True
    then show ?thesis using unat_digit [of n] by (simp add: decimal.simps [of n] undecimal_def)
  next
    case False
    have "undecimal (decimal n) = 10 * undecimal (decimal (n div 10)) + n mod 10"
      using False unat_digit [of "n mod 10"] by (simp add: decimal.simps [of n] undecimal_def)
    then show ?thesis using 1 False by simp
  qed
qed

lemma decimal_inject: "decimal m = decimal n \<longleftrightarrow> m = n"
  by (metis undecimal_decimal)

lemma decimal_not_Nil: "decimal n \<noteq> []"
  by (simp add: decimal.simps [of n])

lemma digit_byte: "n < 10 \<Longrightarrow> 48 \<le> (48 + of_nat n :: u8) \<and> (48 + of_nat n :: u8) \<le> 57"
proof -
  assume "n < 10"
  moreover from this have "unat (48 + of_nat n :: u8) = 48 + n" using unat_of_nat [of "48 + n", where ?'a = 8] by simp
  ultimately show ?thesis by (simp add: word_le_nat_alt)
qed

lemma decimal_digits: "list_all (\<lambda>c. 48 \<le> c \<and> c \<le> 57) (decimal n)"
proof (induction n rule: decimal.induct)
  case (1 n)
  then show ?case using digit_byte [of n] digit_byte [of "n mod 10"] by (simp add: decimal.simps [of n])
qed

lemma decimal_hd: "0 < n \<Longrightarrow> hd (decimal n) \<noteq> 48"
proof (induction n rule: decimal.induct)
  case (1 n)
  show ?case
  proof (cases "n < 10")
    case True
    then have "unat (48 + of_nat n :: u8) = 48 + n" using unat_of_nat [of "48 + n", where ?'a = 8] by simp
    then have "(48 + of_nat n :: u8) \<noteq> 48" using 1(2) by auto
    then show ?thesis using True by (simp add: decimal.simps [of n])
  next
    case False
    then show ?thesis using 1 decimal_not_Nil by (simp add: decimal.simps [of n])
  qed
qed

lemma decimal_one: "decimal 0 = [48]"
  by (simp add: decimal.simps)

end
