(* ===== verification/Threads.thy ===== *)
theory Threads
  imports Decimal Atomic_Counter
begin

text \<open>
  \<^verbatim>\<open>src/stputil/thread.cc\<close>, \<^verbatim>\<open>thread.h\<close> and \<^verbatim>\<open>mutex.cc\<close>, \<^verbatim>\<open>mutex.h\<close> (the branches for pthreads): a thread object, the
  threads it creates, and mutexes with their guards, stepped in any order.

  A pthread is a number; it is \<open>Born\<close> by \<open>pthread_create\<close>, runs \<open>ThreadFunc\<close>, and is \<open>Gone\<close> when it has
  returned and waits to be joined.  Joining an identifier that names no thread is undefined: \<open>Fault\<close>.
\<close>

section \<open>Thread\<close>

datatype phase = Born | In_Run | Returned | Gone

record thread_object =
  th_running :: bool
  th_stoped :: bool
  th_pid :: "nat option"
  th_name :: "u8 list"

record thread_world =
  w_obj :: thread_object
  w_threads :: "nat \<Rightarrow> phase option"
  w_next :: nat

text \<open>The counter \<open>num_created_\<close> is incremented also for a thread that is given a name.\<close>

definition SetDefaultName :: "u8 list \<Rightarrow> u64 \<Rightarrow> u8 list \<times> u64" where
  "SetDefaultName name created =
     (case pre_inc created of (num, created) \<Rightarrow>
        (if name = [] then str ''Thread'' @ decimal (unat num) else name, created))"

definition new_Thread :: "u8 list \<Rightarrow> u64 \<Rightarrow> thread_object \<times> u64" where
  "new_Thread name created =
     (case SetDefaultName name created of (name, created) \<Rightarrow>
        (\<lparr>th_running = False, th_stoped = False, th_pid = None, th_name = name\<rparr>, created))"

text \<open>\<open>rc\<close> is what \<open>pthread_create\<close> returns: 0, or the number of an error, when no thread is created.\<close>

definition Thread_Start :: "int \<Rightarrow> thread_world \<Rightarrow> bool \<times> thread_world" where
  "Thread_Start rc w =
     (if th_running (w_obj w) then (False, w)
      else
        let ob = (w_obj w)\<lparr>th_running := True, th_stoped := False\<rparr>
        in if rc = 0 then
             (True, w\<lparr>w_obj := ob\<lparr>th_pid := Some (w_next w)\<rparr>, w_threads := (w_threads w)(w_next w \<mapsto> Born), w_next := Suc (w_next w)\<rparr>)
           else (\<not> rc < 0, w\<lparr>w_obj := ob\<rparr>))"

text \<open>One step of \<open>ThreadFunc\<close>; \<open>ends\<close> says whether \<open>Run\<close>, when the thread is in it, returns in this step.\<close>

definition ThreadFunc_step :: "nat \<Rightarrow> bool \<Rightarrow> thread_world \<Rightarrow> thread_world" where
  "ThreadFunc_step t ends w =
     (case w_threads w t of
        Some Born \<Rightarrow> w\<lparr>w_obj := (w_obj w)\<lparr>th_running := True\<rparr>, w_threads := (w_threads w)(t \<mapsto> In_Run)\<rparr>
      | Some In_Run \<Rightarrow> if ends then w\<lparr>w_threads := (w_threads w)(t \<mapsto> Returned)\<rparr> else w
      | Some Returned \<Rightarrow> w\<lparr>w_obj := (w_obj w)\<lparr>th_running := False\<rparr>, w_threads := (w_threads w)(t \<mapsto> Gone)\<rparr>
      | _ \<Rightarrow> w)"

text \<open>\<open>Stop\<close> in steps: \<open>Stop_wait i\<close> is at the head of its loop, \<open>Stop_join\<close> in \<open>pthread_join\<close>, which waits.\<close>

datatype stop_pc = Stop_begin | Stop_wait nat | Stop_join | Stop_done

definition stop_step :: "stop_pc \<Rightarrow> thread_world \<Rightarrow> (stop_pc \<times> thread_world) run" where
  "stop_step pc w =
     (case pc of
        Stop_begin \<Rightarrow> Ret (Stop_wait 0, w\<lparr>w_obj := (w_obj w)\<lparr>th_stoped := True\<rparr>\<rparr>)
      | Stop_wait i \<Rightarrow> Ret (if th_running (w_obj w) \<and> i < 30 then Stop_wait (Suc i) else Stop_join, w)
      | Stop_join \<Rightarrow>
          (case th_pid (w_obj w) of
             None \<Rightarrow> Fault
           | Some t \<Rightarrow>
               (case w_threads w t of
                  None \<Rightarrow> Fault
                | Some Gone \<Rightarrow>
                    Ret (Stop_done, w\<lparr>w_obj := (w_obj w)\<lparr>th_pid := None, th_running := False\<rparr>, w_threads := (w_threads w)(t := None)\<rparr>)
                | Some _ \<Rightarrow> Ret (Stop_join, w)))
      | Stop_done \<Rightarrow> Ret (Stop_done, w))"

text \<open>A schedule interleaves the caller of \<open>Stop\<close> with the threads.\<close>

datatype actor = Caller | Worker nat bool

fun run_stop :: "actor list \<Rightarrow> stop_pc \<times> thread_world \<Rightarrow> (stop_pc \<times> thread_world) run" where
  "run_stop [] s = Ret s"
| "run_stop (Caller # as) (pc, w) = run_bind (stop_step pc w) (run_stop as)"
| "run_stop (Worker t ends # as) (pc, w) = run_stop as (pc, ThreadFunc_step t ends w)"

definition delete_Thread :: "actor list \<Rightarrow> thread_world \<Rightarrow> (stop_pc \<times> thread_world) run" where
  "delete_Thread as w = (if \<not> th_stoped (w_obj w) then run_stop as (Stop_begin, w) else Ret (Stop_done, w))"

section \<open>Stop joins the thread\<close>

text \<open>From \<open>Start\<close> on, until and after \<open>Stop\<close> of the thread \<open>t\<close>.\<close>

fun stop_inv :: "nat \<Rightarrow> stop_pc \<times> thread_world \<Rightarrow> bool" where
  "stop_inv t (pc, w) \<longleftrightarrow>
     (if pc = Stop_done then th_pid (w_obj w) = None \<and> w_threads w t = None \<and> \<not> th_running (w_obj w) \<and> th_stoped (w_obj w)
      else th_pid (w_obj w) = Some t \<and> (\<exists>p. w_threads w t = Some p \<and> th_running (w_obj w) = (p \<noteq> Gone)) \<and>
        (pc \<noteq> Stop_begin \<longrightarrow> th_stoped (w_obj w)))"

definition others_gone :: "nat \<Rightarrow> actor list \<Rightarrow> bool" where
  "others_gone t as \<longleftrightarrow> list_all (\<lambda>a. case a of Caller \<Rightarrow> True | Worker u _ \<Rightarrow> u = t) as"

lemma stop_step_inv:
  assumes "stop_inv t (pc, w)"
  shows "\<exists>pc' w'. stop_step pc w = Ret (pc', w') \<and> stop_inv t (pc', w')"
  using assms by (cases pc) (auto simp: stop_step_def split: phase.splits)

lemma ThreadFunc_step_inv: "stop_inv t (pc, w) \<Longrightarrow> stop_inv t (pc, ThreadFunc_step t ends w)"
  by (auto simp: ThreadFunc_step_def split: option.splits phase.splits if_splits)

lemma run_stop_inv: "stop_inv t s \<Longrightarrow> others_gone t as \<Longrightarrow> \<exists>pc w. run_stop as s = Ret (pc, w) \<and> stop_inv t (pc, w)"
proof (induction as s rule: run_stop.induct)
  case (2 as pc w)
  obtain pc' w' where "stop_step pc w = Ret (pc', w')" "stop_inv t (pc', w')" using stop_step_inv [OF 2(2)] by blast
  then show ?case using 2(1) 2(3) by (simp add: others_gone_def)
next
  case (3 u ends as pc w)
  then show ?case using ThreadFunc_step_inv [of t pc w ends] by (simp add: others_gone_def)
next
  case (1 s)
  then show ?case by (metis run_stop.simps(1) surj_pair)
qed

lemma run_stop_append: "run_stop (as @ bs) s = run_bind (run_stop as s) (run_stop bs)"
proof (induction as s rule: run_stop.induct)
  case (2 as pc w)
  then show ?case by (cases "stop_step pc w") auto
qed simp_all

text \<open>How many steps of the thread are left until it is gone.\<close>

fun phase_rank :: "phase option \<Rightarrow> nat" where
  "phase_rank (Some Born) = 3"
| "phase_rank (Some In_Run) = 2"
| "phase_rank (Some Returned) = 1"
| "phase_rank _ = 0"

lemma stop_step_rank: "stop_step pc w = Ret (pc', w') \<Longrightarrow> phase_rank (w_threads w' t) \<le> phase_rank (w_threads w t)"
  by (auto simp: stop_step_def split: stop_pc.splits option.splits phase.splits)

lemma ThreadFunc_step_rank:
  "phase_rank (w_threads (ThreadFunc_step t ends w) t) \<le> phase_rank (w_threads w t) - (if ends then 1 else 0)"
  by (auto simp: ThreadFunc_step_def split: option.splits phase.splits)

lemma run_stop_rank:
  "run_stop as (pc, w) = Ret (pc', w') \<Longrightarrow> others_gone t as \<Longrightarrow>
     phase_rank (w_threads w' t) \<le> phase_rank (w_threads w t) - count_list as (Worker t True)"
proof (induction as "(pc, w)" arbitrary: pc w rule: run_stop.induct)
  case (2 as pc w)
  then obtain pc1 w1 where s: "stop_step pc w = Ret (pc1, w1)" by (auto simp: run_bind_Ret_iff)
  then have "phase_rank (w_threads w' t) \<le> phase_rank (w_threads w1 t) - count_list as (Worker t True)"
    using 2 by (simp add: others_gone_def)
  then show ?case using stop_step_rank [OF s, of t] by simp
next
  case (3 u ends as pc w)
  then have u: "u = t" and "phase_rank (w_threads w' t) \<le> phase_rank (w_threads (ThreadFunc_step t ends w) t) - count_list as (Worker t True)"
    by (simp_all add: others_gone_def)
  then show ?case using ThreadFunc_step_rank [of t ends w] by (auto split: if_splits)
qed simp

fun pc_rank :: "stop_pc \<Rightarrow> nat" where
  "pc_rank Stop_begin = 3"
| "pc_rank (Stop_wait i) = 2"
| "pc_rank Stop_join = 1"
| "pc_rank Stop_done = 0"

lemma stop_step_gone:
  assumes "stop_inv t (pc, w)" "phase_rank (w_threads w t) = 0" "stop_step pc w = Ret (pc', w')"
  shows "pc_rank pc' \<le> pc_rank pc - 1"
proof -
  have "p = Gone" if "phase_rank (Some p) = 0" for p using that by (cases p) auto
  then show ?thesis using assms by (cases pc) (auto simp: stop_step_def split: if_splits option.splits phase.splits)
qed

lemma run_stop_gone:
  "stop_inv t (pc, w) \<Longrightarrow> others_gone t as \<Longrightarrow> phase_rank (w_threads w t) = 0 \<Longrightarrow> run_stop as (pc, w) = Ret (pc', w') \<Longrightarrow>
     pc_rank pc' \<le> pc_rank pc - count_list as Caller"
proof (induction as "(pc, w)" arbitrary: pc w rule: run_stop.induct)
  case (2 as pc w)
  obtain pc1 w1 where s: "stop_step pc w = Ret (pc1, w1)" "stop_inv t (pc1, w1)" using stop_step_inv [OF 2(2)] by blast
  have "phase_rank (w_threads w1 t) = 0" using stop_step_rank [OF s(1), of t] 2(4) by simp
  then have "pc_rank pc' \<le> pc_rank pc1 - count_list as Caller" using 2 s by (simp add: others_gone_def)
  then show ?case using stop_step_gone [OF 2(2,4) s(1)] by simp
next
  case (3 u ends as pc w)
  then have "u = t" by (simp add: others_gone_def)
  then show ?case
    using 3 ThreadFunc_step_inv [OF 3(2), of ends] ThreadFunc_step_rank [of t ends w] by (simp add: others_gone_def)
qed simp

lemma run_length_ends: "others_gone t as \<Longrightarrow> Worker t True \<notin> set as \<Longrightarrow> run_stop as (pc, w) = Ret (pc', w') \<Longrightarrow>
    w_threads w t \<in> {Some Born, Some In_Run} \<Longrightarrow> w_threads w' t \<in> {Some Born, Some In_Run}"
proof (induction as "(pc, w)" arbitrary: pc w rule: run_stop.induct)
  case (2 as pc w)
  then obtain pc1 w1 where s: "stop_step pc w = Ret (pc1, w1)" by (auto simp: run_bind_Ret_iff)
  then have "w_threads w1 t = w_threads w t"
    using 2(5) by (auto simp: stop_step_def split: stop_pc.splits option.splits phase.splits)
  then show ?case using 2 s by (simp add: others_gone_def)
next
  case (3 u ends as pc w)
  then have "u = t" "\<not> ends" by (auto simp: others_gone_def)
  then show ?case using 3 by (auto simp: others_gone_def ThreadFunc_step_def)
qed simp

lemma start_inv:
  assumes "Thread_Start 0 w = (True, w1)"
  shows "stop_inv (w_next w) (Stop_begin, w1)" "w_threads w1 (w_next w) = Some Born"
  using assms by (auto simp: Thread_Start_def Let_def split: if_splits)

text \<open>
  C27. After \<open>Start\<close>, \<open>Stop\<close> returns exactly when \<open>Run\<close> does, whatever the order of the steps of caller and
  thread.  No order makes it fail; when it has returned the thread is gone and joined and \<open>running_\<close> is false;
  as long as \<open>Run\<close> does not return, it has not returned either, however many steps it made, its 30 sleeps
  included; and once the thread has made the three steps to its end, \<open>Stop\<close> returns within its own next three.
\<close>

theorem stop_returns_with_run:
  assumes "Thread_Start 0 w = (True, w1)" "t = w_next w" "others_gone t as" "others_gone t bs"
    "3 \<le> count_list as (Worker t True)" "3 \<le> count_list bs Caller" "others_gone t cs" "Worker t True \<notin> set cs"
  shows "(case run_stop (as @ bs) (Stop_begin, w1) of
      Ret (pc, w') \<Rightarrow> pc = Stop_done \<and> w_threads w' t = None \<and> th_pid (w_obj w') = None \<and> \<not> th_running (w_obj w') \<and> th_stoped (w_obj w')
    | _ \<Rightarrow> False)
    \<and> (case run_stop cs (Stop_begin, w1) of Ret (pc, w') \<Rightarrow> pc \<noteq> Stop_done \<and> w_threads w' t \<in> {Some Born, Some In_Run} | _ \<Rightarrow> False)"
proof -
  note i = start_inv [OF assms(1), folded assms(2)]
  obtain pc w' where r: "run_stop as (Stop_begin, w1) = Ret (pc, w')" "stop_inv t (pc, w')"
    using run_stop_inv [OF i(1) assms(3)] by blast
  have g: "phase_rank (w_threads w' t) = 0" using run_stop_rank [OF r(1) assms(3)] i(2) assms(5) by simp
  obtain pc2 w2 where r2: "run_stop bs (pc, w') = Ret (pc2, w2)" "stop_inv t (pc2, w2)"
    using run_stop_inv [OF r(2) assms(4)] by blast
  have "pc_rank pc2 = 0" using run_stop_gone [OF r(2) assms(4) g r2(1)] assms(6) by (cases pc) auto
  then have "pc2 = Stop_done" by (cases pc2) auto
  moreover obtain pc3 w3 where r3: "run_stop cs (Stop_begin, w1) = Ret (pc3, w3)" "stop_inv t (pc3, w3)"
    using run_stop_inv [OF i(1) assms(7)] by blast
  have "w_threads w3 t \<in> {Some Born, Some In_Run}" using run_length_ends [OF assms(7,8) r3(1)] i(2) by simp
  moreover from this have "pc3 \<noteq> Stop_done" using r3(2) by auto
  ultimately show ?thesis using r r2 r3 by (simp add: run_stop_append)
qed

definition example_world :: thread_world where
  "example_world = \<lparr>w_obj = fst (new_Thread [] 0), w_threads = Map.empty, w_next = 0\<rparr>"

theorem stop_returns_with_run_witness:
  "case run_stop ([Caller, Worker 0 False, Caller, Worker 0 True, Worker 0 True, Worker 0 True] @ [Caller, Caller, Caller])
      (Stop_begin, snd (Thread_Start 0 example_world)) of Ret (pc, w') \<Rightarrow> pc = Stop_done | _ \<Rightarrow> False"
proof -
  have s: "Thread_Start 0 example_world = (True, snd (Thread_Start 0 example_world))" "w_next example_world = 0"
    by (simp_all add: Thread_Start_def example_world_def new_Thread_def SetDefaultName_def pre_inc_def IncrementAndGet_def
        AddAndGet_def GetAndAdd_def sync_fetch_and_add_def Let_def)
  show ?thesis
    using stop_returns_with_run [OF s(1) s(2) [symmetric], of "[Caller, Worker 0 False, Caller, Worker 0 True, Worker 0 True, Worker 0 True]"
        "[Caller, Caller, Caller]" "[]"]
    by (auto simp: others_gone_def split: run.splits prod.splits)
qed

section \<open>Joining no thread\<close>

lemma run_callers: "run_stop (replicate (Suc n) Caller) (pc, w) = run_bind (stop_step pc w) (run_stop (replicate n Caller))"
  by simp

lemma waits_without_thread:
  "th_pid (w_obj w) = None \<Longrightarrow> i \<le> 30 \<Longrightarrow> 32 \<le> n + i \<Longrightarrow> run_stop (replicate n Caller) (Stop_wait i, w) = Fault"
proof (induction n arbitrary: i)
  case (Suc n)
  show ?case
  proof (cases "th_running (w_obj w) \<and> i < 30")
    case True
    then show ?thesis using Suc by (simp add: stop_step_def)
  next
    case False
    then obtain m where "n = Suc m" using Suc(3,4) by (cases n) auto
    then show ?thesis using False Suc(2) by (auto simp: stop_step_def)
  qed
qed simp

text \<open>
  Two objects whose deletion joins a thread that does not exist, which is undefined: one that was never
  started, because \<open>stoped_\<close> is false until \<open>Stop\<close>; and one whose thread could not be created, which \<open>Start\<close>
  reports as success because \<open>pthread_create\<close> returns a positive number (the destructor then first waits its
  three seconds).
\<close>

theorem delete_without_thread:
  assumes "ob = fst (new_Thread name created)" "0 < rc" "33 \<le> n"
  shows "delete_Thread (replicate n Caller) \<lparr>w_obj = ob, w_threads = ths, w_next = k\<rparr> = Fault
    \<and> fst (Thread_Start rc \<lparr>w_obj = ob, w_threads = ths, w_next = k\<rparr>)
    \<and> delete_Thread (replicate n Caller) (snd (Thread_Start rc \<lparr>w_obj = ob, w_threads = ths, w_next = k\<rparr>)) = Fault"
proof -
  obtain nm where ob: "ob = \<lparr>th_running = False, th_stoped = False, th_pid = None, th_name = nm\<rparr>"
    using assms(1) by (cases "SetDefaultName name created") (simp add: new_Thread_def)
  obtain m where n: "n = Suc m" "32 \<le> m" using assms(3) by (cases n) auto
  have f: "run_stop (replicate n Caller) (Stop_begin, w) = Fault" if "th_pid (w_obj w) = None" for w
    unfolding n run_callers using that n(2) by (simp add: stop_step_def waits_without_thread)
  show ?thesis using assms(2) by (simp add: delete_Thread_def Thread_Start_def ob f)
qed

theorem delete_without_thread_witness:
  "delete_Thread (replicate 33 Caller) \<lparr>w_obj = fst (new_Thread [] 0), w_threads = Map.empty, w_next = 0\<rparr> = Fault"
  using delete_without_thread [of "fst (new_Thread [] 0)" "[]" 0 11 33 Map.empty 0] by simp

text \<open>The default names of fewer than 2^64 threads differ.\<close>

lemma default_names_differ: "fst (SetDefaultName [] a) = fst (SetDefaultName [] b) \<longleftrightarrow> a = b"
  by (auto simp: SetDefaultName_def pre_inc_def IncrementAndGet_def AddAndGet_def GetAndAdd_def sync_fetch_and_add_def decimal_inject
      dest!: unsigned_word_eqI)

section \<open>Mutex and MutexGuard\<close>

text \<open>The owner of a mutex; locking a held one waits (\<open>None\<close>), unlocking one of another thread is undefined.\<close>

definition Mutex_Lock :: "nat \<Rightarrow> nat option \<Rightarrow> nat option option" where
  "Mutex_Lock t m = (case m of None \<Rightarrow> Some (Some t) | Some _ \<Rightarrow> None)"

definition Mutex_Unlock :: "nat \<Rightarrow> nat option \<Rightarrow> nat option run" where
  "Mutex_Unlock t m = (if m = Some t then Ret None else Fault)"

text \<open>A thread that increments a shared variable, by a load and a store, in the scope of a guard.\<close>

datatype guard_pc = Outside | Guarded | Loaded u64 | Stored | Left

record guard_world =
  g_pcs :: "guard_pc list"
  g_mutex :: "nat option"
  g_shared :: u64

definition guard_step :: "nat \<Rightarrow> guard_world \<Rightarrow> guard_world run" where
  "guard_step t g =
     (if t \<ge> length (g_pcs g) then Ret g
      else
        (case g_pcs g ! t of
           Outside \<Rightarrow>
             (case Mutex_Lock t (g_mutex g) of
                None \<Rightarrow> Ret g
              | Some m \<Rightarrow> Ret (g\<lparr>g_pcs := (g_pcs g)[t := Guarded], g_mutex := m\<rparr>))
         | Guarded \<Rightarrow> Ret (g\<lparr>g_pcs := (g_pcs g)[t := Loaded (g_shared g)]\<rparr>)
         | Loaded v \<Rightarrow> Ret (g\<lparr>g_pcs := (g_pcs g)[t := Stored], g_shared := v + 1\<rparr>)
         | Stored \<Rightarrow> run_bind (Mutex_Unlock t (g_mutex g)) (\<lambda>m. Ret (g\<lparr>g_pcs := (g_pcs g)[t := Left], g_mutex := m\<rparr>))
         | Left \<Rightarrow> Ret g))"

fun run_guards :: "nat list \<Rightarrow> guard_world \<Rightarrow> guard_world run" where
  "run_guards [] g = Ret g"
| "run_guards (t # ts) g = run_bind (guard_step t g) (run_guards ts)"

definition inside :: "guard_pc \<Rightarrow> bool" where "inside p \<longleftrightarrow> p \<noteq> Outside \<and> p \<noteq> Left"

definition counted :: "guard_pc \<Rightarrow> u64" where "counted p = (if p = Stored \<or> p = Left then 1 else 0)"

definition guard_inv :: "u64 \<Rightarrow> guard_world \<Rightarrow> bool" where
  "guard_inv v g \<longleftrightarrow>
     (\<forall>t < length (g_pcs g). (inside (g_pcs g ! t) \<longleftrightarrow> g_mutex g = Some t) \<and> (\<forall>x. g_pcs g ! t = Loaded x \<longrightarrow> x = g_shared g)) \<and>
     g_shared g = v + sum_list (map counted (g_pcs g))"

lemma guard_invI:
  assumes "guard_inv v g" "t < length (g_pcs g)"
    and "\<And>u. u < length (g_pcs g) \<Longrightarrow> u \<noteq> t \<Longrightarrow> (inside (g_pcs g ! u) \<longleftrightarrow> m = Some u)" "inside p \<longleftrightarrow> m = Some t"
    and "\<And>x. p = Loaded x \<Longrightarrow> x = s" "s = g_shared g \<or> g_mutex g = Some t"
    and "s - g_shared g = counted p - counted (g_pcs g ! t)"
  shows "guard_inv v (g\<lparr>g_pcs := (g_pcs g)[t := p], g_mutex := m, g_shared := s\<rparr>)"
proof -
  have step: "sum_list (map counted ((g_pcs g)[t := p])) + counted (g_pcs g ! t) = sum_list (map counted (g_pcs g)) + counted p"
    using sum_list_upd [of t "map counted (g_pcs g)" "counted p"] assms(2) by (simp add: map_update)
  then have sum: "s = v + sum_list (map counted ((g_pcs g)[t := p]))"
  proof -
    let ?X = "sum_list (map counted ((g_pcs g)[t := p]))" and ?S = "sum_list (map counted (g_pcs g))"
    have "s + counted (g_pcs g ! t) = v + (counted p + ?S)" using assms(1,7) unfolding guard_inv_def by (simp add: algebra_simps)
    also have "counted p + ?S = ?X + counted (g_pcs g ! t)" using step by (simp add: add.commute)
    finally show ?thesis by (simp flip: add.assoc)
  qed
  have "x = s" if "u < length (g_pcs g)" "u \<noteq> t" "g_pcs g ! u = Loaded x" for u x
  proof -
    have "inside (g_pcs g ! u)" using that(3) by (simp add: inside_def)
    then have "g_mutex g = Some u" using assms(1) that(1) unfolding guard_inv_def by blast
    then show ?thesis using assms(1,6) that unfolding guard_inv_def by auto
  qed
  then have "(inside ((g_pcs g)[t := p] ! u) \<longleftrightarrow> m = Some u) \<and> (\<forall>x. (g_pcs g)[t := p] ! u = Loaded x \<longrightarrow> x = s)"
    if "u < length (g_pcs g)" for u
    using that assms(3-5) by (cases "u = t") simp_all
  then show ?thesis using sum by (simp add: guard_inv_def)
qed

lemma guard_step_inv:
  assumes "guard_inv v g"
  shows "\<exists>g'. guard_step t g = Ret g' \<and> guard_inv v g' \<and> length (g_pcs g') = length (g_pcs g)"
proof (cases "t < length (g_pcs g)")
  case True
  have i: "inside (g_pcs g ! u) \<longleftrightarrow> g_mutex g = Some u" if "u < length (g_pcs g)" for u
    using assms that unfolding guard_inv_def by blast
  have own: "g_mutex g = Some t" if "inside (g_pcs g ! t)" using i [OF True] that by simp
  show ?thesis
  proof (cases "g_pcs g ! t")
    case Outside
    show ?thesis
    proof (cases "g_mutex g")
      case None
      have "guard_inv v (g\<lparr>g_pcs := (g_pcs g)[t := Guarded], g_mutex := Some t, g_shared := g_shared g\<rparr>)"
        by (rule guard_invI [OF assms True]) (use i None Outside in \<open>auto simp: inside_def counted_def\<close>)
      then show ?thesis using True Outside None by (simp add: guard_step_def Mutex_Lock_def)
    qed (use True Outside assms in \<open>simp add: guard_step_def Mutex_Lock_def\<close>)
  next
    case Guarded
    have "guard_inv v (g\<lparr>g_pcs := (g_pcs g)[t := Loaded (g_shared g)], g_mutex := g_mutex g, g_shared := g_shared g\<rparr>)"
      by (rule guard_invI [OF assms True]) (use i own Guarded in \<open>auto simp: inside_def counted_def\<close>)
    then show ?thesis using True Guarded by (simp add: guard_step_def)
  next
    case (Loaded x)
    then have x: "x = g_shared g" using assms True unfolding guard_inv_def by blast
    have "guard_inv v (g\<lparr>g_pcs := (g_pcs g)[t := Stored], g_mutex := g_mutex g, g_shared := x + 1\<rparr>)"
      by (rule guard_invI [OF assms True]) (use i own Loaded x in \<open>auto simp: inside_def counted_def\<close>)
    then show ?thesis using True Loaded by (simp add: guard_step_def)
  next
    case Stored
    have "guard_inv v (g\<lparr>g_pcs := (g_pcs g)[t := Left], g_mutex := None, g_shared := g_shared g\<rparr>)"
      by (rule guard_invI [OF assms True]) (use i own Stored in \<open>auto simp: inside_def counted_def\<close>)
    then show ?thesis using True Stored own by (simp add: guard_step_def Mutex_Unlock_def inside_def)
  next
    case Left
    then show ?thesis using True assms by (simp add: guard_step_def)
  qed
qed (use assms in \<open>simp add: guard_step_def\<close>)

lemma run_guards_inv: "guard_inv v g \<Longrightarrow> \<exists>g'. run_guards ts g = Ret g' \<and> guard_inv v g' \<and> length (g_pcs g') = length (g_pcs g)"
proof (induction ts arbitrary: g)
  case (Cons t ts)
  obtain g1 where "guard_step t g = Ret g1" "guard_inv v g1" "length (g_pcs g1) = length (g_pcs g)"
    using guard_step_inv [OF Cons(2)] by blast
  then show ?case using Cons(1) [of g1] by simp
qed simp

text \<open>
  C40. Threads that change a variable in the scope of a guard, in any order of their steps, never unlock a mutex they
  do not hold, are in the guarded scope one at a time, and lose no update: when all have left it, the variable
  has grown by their number.
\<close>

theorem guarded_updates:
  fixes n :: nat and v :: u64
  shows "\<exists>g. run_guards ts \<lparr>g_pcs = replicate n Outside, g_mutex = None, g_shared = v\<rparr> = Ret g
    \<and> card {t. t < length (g_pcs g) \<and> inside (g_pcs g ! t)} \<le> 1
    \<and> (list_all (\<lambda>p. p = Left) (g_pcs g) \<longrightarrow> g_shared g = v + of_nat n)"
proof -
  have "guard_inv v \<lparr>g_pcs = replicate n Outside, g_mutex = None, g_shared = v\<rparr>"
    by (simp add: guard_inv_def inside_def counted_def sum_list_replicate)
  from run_guards_inv [OF this] obtain g where g: "run_guards ts \<lparr>g_pcs = replicate n Outside, g_mutex = None, g_shared = v\<rparr> = Ret g"
    "guard_inv v g" "length (g_pcs g) = n" by auto
  have "card {t. t < length (g_pcs g) \<and> inside (g_pcs g ! t)} \<le> 1"
  proof (cases "g_mutex g")
    case None
    then have "{t. t < length (g_pcs g) \<and> inside (g_pcs g ! t)} = {}" using g(2) unfolding guard_inv_def by auto
    then show ?thesis by (simp only: card.empty)
  next
    case (Some u)
    then have "{t. t < length (g_pcs g) \<and> inside (g_pcs g ! t)} \<subseteq> {u}" using g(2) unfolding guard_inv_def by auto
    then show ?thesis using card_mono [of "{u}"] by simp
  qed
  moreover have "g_shared g = v + of_nat n" if "list_all (\<lambda>p. p = Left) (g_pcs g)"
  proof -
    have "g_pcs g = replicate n Left" by (rule replicate_eqI) (use that g(3) in \<open>auto simp: list_all_iff\<close>)
    moreover have "g_shared g = v + sum_list (map counted (g_pcs g))" using g(2) unfolding guard_inv_def by blast
    ultimately show ?thesis by (simp only: map_replicate sum_list_replicate) (simp add: counted_def)
  qed
  ultimately show ?thesis using g(1) by blast
qed

theorem guarded_updates_witness:
  "\<exists>g. run_guards [0, 0, 0, 0] \<lparr>g_pcs = replicate 1 Outside, g_mutex = None, g_shared = 6\<rparr> = Ret g \<and> g_shared g = 7"
  using guarded_updates [of "[0, 0, 0, 0]" 1 6] by (auto simp: guard_step_def Mutex_Lock_def Mutex_Unlock_def)

end
