(* ===== verification/Json_Writer.thy ===== *)
theory Json_Writer
  imports Reader_Proof Decimal "HOL-Library.List_Lexorder" "HOL-Library.Multiset"
begin

text \<open>
  The class \<open>FastWriter\<close> of \<^verbatim>\<open>src/stputil/json/jsoncpp.cc\<close>, and that the reader gets back what it writes.

  The members of an object are written in the order of a \<open>std::map\<close>, that of their names' bytes (\<open>by_name_order\<close>;
  a name has fewer than \<open>2 ^ 30\<close> bytes, the width of the field for its length).  The text \<open>snprintf\<close> makes of a
  finite double with 17 digits is the argument \<open>fmt\<close>; infinities and NaN are not values of the model.
\<close>

section \<open>Scalars\<close>

text \<open>The digits are put in front of \<open>current\<close>, in a buffer of \<open>uintToStringBufferSize\<close> characters.\<close>

definition uintToStringBufferSize :: nat where "uintToStringBufferSize = 3 * 8 + 1"

function uintToString :: "u64 \<Rightarrow> u8 list \<Rightarrow> u8 list" where
  "uintToString v current =
     (let current = (ucast (v mod 10) + ch CHR ''0'') # current; v = v div 10
      in if v \<noteq> 0 then uintToString v current else current)"
  by pat_completeness auto
termination
proof (relation "measure (\<lambda>(v, current). unat v)")
  fix v :: u64 and current c :: "u8 list" and v' assume "v' = v div 10" "v' \<noteq> 0"
  then have "v \<noteq> 0" by auto
  then have "0 < unat v" by (simp add: unat_gt_0)
  then show "((v', c), v, current) \<in> measure (\<lambda>(v, current). unat v)" using \<open>v' = v div 10\<close> by (simp add: unat_div)
qed simp

declare uintToString.simps [simp del]

definition valueToString_int :: "int \<Rightarrow> u8 list" where
  "valueToString_int i =
     (if i = - (2 ^ 63) then ch CHR ''-'' # uintToString (2 ^ 63) []
      else if i < 0 then ch CHR ''-'' # uintToString (word_of_int (- i)) []
      else uintToString (word_of_int i) [])"

definition valueToString_uint :: "int \<Rightarrow> u8 list" where
  "valueToString_uint u = uintToString (word_of_int u) []"

definition fixNumericLocale :: "u8 list \<Rightarrow> u8 list" where
  "fixNumericLocale buf = map (\<lambda>c. if c = ch CHR '','' then ch CHR ''.'' else c) buf"

definition valueToString_double :: "(real \<Rightarrow> u8 list) \<Rightarrow> real \<Rightarrow> u8 list" where
  "valueToString_double fmt x = fixNumericLocale (fmt x)"

definition isControlCharacter :: "u8 \<Rightarrow> bool" where "isControlCharacter c \<longleftrightarrow> 0 < c \<and> c \<le> 0x1F"

definition containsControlCharacter0 :: "u8 list \<Rightarrow> bool" where
  "containsControlCharacter0 s = list_ex (\<lambda>c. isControlCharacter c \<or> c = 0) s"

definition hex_upper :: "u8 \<Rightarrow> u8" where "hex_upper d = (if d < 10 then 48 + d else 55 + d)"

text \<open>The characters written for one of the string.\<close>

definition quote_char :: "u8 \<Rightarrow> u8 list" where
  "quote_char c =
     (if c = ch CHR 0x22 then [ch CHR 0x5C, ch CHR 0x22]
      else if c = ch CHR 0x5C then [ch CHR 0x5C, ch CHR 0x5C]
      else if c = 8 then [ch CHR 0x5C, ch CHR ''b'']
      else if c = 12 then [ch CHR 0x5C, ch CHR ''f'']
      else if c = 10 then [ch CHR 0x5C, ch CHR ''n'']
      else if c = 13 then [ch CHR 0x5C, ch CHR ''r'']
      else if c = 9 then [ch CHR 0x5C, ch CHR ''t'']
      else if isControlCharacter c \<or> c = 0 then
        [ch CHR 0x5C, ch CHR ''u'', ch CHR ''0'', ch CHR ''0'', hex_upper (c div 16), hex_upper (c mod 16)]
      else [c])"

definition valueToQuotedStringN :: "u8 list \<Rightarrow> u8 list" where
  "valueToQuotedStringN s =
     (if \<not> list_ex (\<lambda>c. c \<in> {ch CHR 0x22, ch CHR 0x5C, 8, 12, 10, 13, 9}) s \<and> \<not> containsControlCharacter0 s
      then ch CHR 0x22 # takeWhile (\<lambda>c. c \<noteq> 0) s @ [ch CHR 0x22]
      else ch CHR 0x22 # concat (map quote_char s) @ [ch CHR 0x22])"

section \<open>FastWriter\<close>

record fast_writer =
  yamlCompatiblityEnabled :: bool
  fw_dropNullPlaceholders :: bool
  fw_omitEndingLineFeed :: bool

definition new_FastWriter :: fast_writer where
  "new_FastWriter = \<lparr>yamlCompatiblityEnabled = False, fw_dropNullPlaceholders = False, fw_omitEndingLineFeed = False\<rparr>"

definition enableYAMLCompatibility :: "fast_writer \<Rightarrow> fast_writer" where
  "enableYAMLCompatibility w = w\<lparr>yamlCompatiblityEnabled := True\<rparr>"

definition dropNullPlaceholders :: "fast_writer \<Rightarrow> fast_writer" where
  "dropNullPlaceholders w = w\<lparr>fw_dropNullPlaceholders := True\<rparr>"

definition omitEndingLineFeed :: "fast_writer \<Rightarrow> fast_writer" where
  "omitEndingLineFeed w = w\<lparr>fw_omitEndingLineFeed := True\<rparr>"

text \<open>The order of the names, and the members, with what belongs to each, in that order.\<close>

fun memcmp_order :: "u8 list \<Rightarrow> u8 list \<Rightarrow> int" where
  "memcmp_order (x # xs) (y # ys) = (if x < y then -1 else if y < x then 1 else memcmp_order xs ys)"
| "memcmp_order xs ys = 0"

definition CZString_less :: "u8 list \<Rightarrow> u8 list \<Rightarrow> bool" where
  "CZString_less a b =
     (let min_len = min (length a) (length b); comp = memcmp_order (take min_len a) (take min_len b)
      in if comp < 0 then True else if comp > 0 then False else length a < length b)"

definition by_name :: "(u8 list \<times> 'a) list \<Rightarrow> (u8 list \<times> 'a) list" where "by_name ms = sort_key fst ms"

lemma CZString_less_Cons: "CZString_less (x # a) (y # b) \<longleftrightarrow> x < y \<or> x = y \<and> CZString_less a b"
  by (cases x y rule: linorder_cases) (auto simp: CZString_less_def Let_def dest: less_asym)

lemma CZString_less_lexicographic: "CZString_less a b \<longleftrightarrow> a < b"
proof (induction a arbitrary: b)
  case Nil
  then show ?case by (cases b) (simp_all add: CZString_less_def)
next
  case Cons_IH: (Cons x a)
  show ?case
  proof (cases b)
    case Nil
    then show ?thesis by (simp add: CZString_less_def)
  next
    case (Cons y b')
    then show ?thesis using Cons_IH [of b'] by (simp add: CZString_less_Cons)
  qed
qed

lemma by_name_order: "distinct (map fst ms) \<Longrightarrow> sorted_wrt CZString_less (map fst (by_name ms))"
proof -
  assume "distinct (map fst ms)"
  then have "distinct (map fst (by_name ms))" by (metis by_name_def mset_eq_imp_distinct_iff mset_map mset_sort)
  moreover have "sorted (map fst (by_name ms))" by (simp add: by_name_def)
  ultimately show ?thesis unfolding CZString_less_lexicographic by (rule strict_sorted_iff [THEN iffD2, OF conjI, rotated])
qed

fun comma_list :: "u8 list list \<Rightarrow> u8 list" where
  "comma_list [] = []"
| "comma_list [t] = t"
| "comma_list (t # ts) = t @ ch CHR '','' # comma_list ts"

fun writeValue :: "fast_writer \<Rightarrow> (real \<Rightarrow> u8 list) \<Rightarrow> json \<Rightarrow> u8 list" where
  "writeValue w fmt NullValue = (if fw_dropNullPlaceholders w then [] else str ''null'')"
| "writeValue w fmt (IntValue i) = valueToString_int i"
| "writeValue w fmt (UIntValue u) = valueToString_uint u"
| "writeValue w fmt (RealValue x) = valueToString_double fmt x"
| "writeValue w fmt (StringValue s) = valueToQuotedStringN s"
| "writeValue w fmt (BooleanValue b) = (if b then str ''true'' else str ''false'')"
| "writeValue w fmt (ArrayValue vs) = ch CHR ''['' # comma_list (map (writeValue w fmt) vs) @ [ch CHR '']'']"
| "writeValue w fmt (ObjectValue ms) =
     ch CHR ''{'' # comma_list (map (\<lambda>(name, t). valueToQuotedStringN name @
         (if yamlCompatiblityEnabled w then str '': '' else str '':'') @ t)
       (by_name (map (\<lambda>(name, v). (name, writeValue w fmt v)) ms))) @ [ch CHR ''}'']"

definition FastWriter_write :: "fast_writer \<Rightarrow> (real \<Rightarrow> u8 list) \<Rightarrow> json \<Rightarrow> u8 list" where
  "FastWriter_write w fmt v = writeValue w fmt v @ (if fw_omitEndingLineFeed w then [] else [10])"

section \<open>What is written is JSON\<close>

lemma uintToString_decimal: "uintToString v current = decimal (unat v) @ current"
proof (induction v current rule: uintToString.induct)
  case (1 v current)
  have d: "ucast (v mod 10) = (of_nat (unat v mod 10) :: u8)"
  proof -
    have "unat (v mod 10) = unat v mod 10" by (simp add: unat_mod)
    then show ?thesis by (metis of_nat_unat)
  qed
  have q: "unat (v div 10) = unat v div 10" by (simp add: unat_div)
  have z: "v div 10 = 0 \<longleftrightarrow> unat v < 10"
  proof -
    have "v div 10 = 0 \<longleftrightarrow> unat (v div 10) = 0" by (rule unat_eq_0 [symmetric])
    then show ?thesis unfolding q by (simp add: div_eq_0_iff)
  qed
  show ?case
    using 1 unfolding uintToString.simps [of v] Let_def d
    by (cases "unat v < 10") (simp_all add: z decimal.simps [of "unat v"] q add.commute)
qed

lemma decimal_length: "n < 10 ^ k \<Longrightarrow> 0 < k \<Longrightarrow> length (decimal n) \<le> k"
proof (induction k arbitrary: n)
  case (Suc k)
  show ?case
  proof (cases "n < 10")
    case True
    then show ?thesis by (simp add: decimal.simps [of n])
  next
    case False
    then have "0 < k" using Suc(2) by (cases k) auto
    moreover have "n div 10 < 10 ^ k" using Suc(2) by (simp add: div_less_iff_less_mult)
    ultimately show ?thesis using Suc(1) False by (simp add: decimal.simps [of n])
  qed
qed simp

text \<open>The buffer is large enough: its last character is the NUL, and a sign may go in front.\<close>

lemma uintToString_fits: "Suc (Suc (length (uintToString v []))) \<le> uintToStringBufferSize"
proof -
  have "unat v < 10 ^ 20" using unsigned_less [of v, where ?'a = nat] by simp
  then have "length (decimal (unat v)) \<le> 20" by (rule decimal_length) simp
  then show ?thesis by (simp add: uintToString_decimal uintToStringBufferSize_def)
qed

lemma decimal_number_text: "number_text neg (decimal n) False ((if neg then [ch CHR ''-''] else []) @ decimal n)"
proof -
  have "digits (decimal n)" using decimal_digits [of n] decimal_not_Nil [of n] by (simp add: digits_def is_digit_def list_all_iff)
  moreover have "tl (decimal n) = []" if "hd (decimal n) = ch CHR ''0''"
    using that decimal_hd [of n] by (cases "n = 0") (auto simp: decimal_one)
  ultimately show ?thesis using number_text.intros [of "decimal n" "[]" "[]" neg] by simp
qed

lemma digits_from_decimal: "digits_from 0 (decimal n) = n"
  using undecimal_decimal [of n] by (simp add: digits_from_def undecimal_def)

definition reread_int :: "int \<Rightarrow> json" where
  "reread_int i = (if i \<le> maxInt then IntValue i else UIntValue i)"

lemma decimal_number_value:
  "n \<le> 2 ^ 63 \<Longrightarrow> number_value rd (ch CHR ''-'' # decimal n) (IntValue (- int n))"
  "n < 2 ^ 64 \<Longrightarrow> number_value rd (decimal n) (reread_int (int n))"
proof -
  show "n \<le> 2 ^ 63 \<Longrightarrow> number_value rd (ch CHR ''-'' # decimal n) (IntValue (- int n))"
    using number_value.intros(1) [OF decimal_number_text [of True n, simplified]] by (simp add: digits_from_decimal)
  show "n < 2 ^ 64 \<Longrightarrow> number_value rd (decimal n) (reread_int (int n))"
    using number_value.intros(2,3) [OF decimal_number_text [of False n, simplified], of rd]
    by (auto simp: digits_from_decimal reread_int_def maxInt_def)
qed

lemma unat_of_int64: "0 \<le> i \<Longrightarrow> i < 2 ^ 64 \<Longrightarrow> unat (word_of_int i :: u64) = nat i"
  by (simp add: unat_eq_nat_uint uint_word_of_int_eq take_bit_int_eq_self)

lemma valueToString_int_value:
  assumes "- (2 ^ 63) \<le> i" "i < 2 ^ 63"
  shows "number_value rd (valueToString_int i) (reread_int i)"
proof -
  consider "i = - (2 ^ 63)" | "- (2 ^ 63) < i" "i < 0" | "0 \<le> i" using assms(1) by linarith
  then show ?thesis
  proof cases
    case 1
    then show ?thesis using decimal_number_value(1) [of "2 ^ 63" rd] by (simp add: valueToString_int_def uintToString_decimal reread_int_def maxInt_def)
  next
    case 2
    have "unat (word_of_int (- i) :: u64) = nat (- i)" using 2 by (intro unat_of_int64) simp_all
    then show ?thesis
      using 2 decimal_number_value(1) [of "nat (- i)" rd] by (simp add: valueToString_int_def uintToString_decimal reread_int_def maxInt_def)
  next
    case 3
    have "unat (word_of_int i :: u64) = nat i" using 3 assms(2) by (intro unat_of_int64) simp_all
    then show ?thesis
      using 3 assms(2) decimal_number_value(2) [of "nat i" rd] by (simp add: valueToString_int_def uintToString_decimal)
  qed
qed

lemma valueToString_uint_value:
  assumes "0 \<le> u" "u < 2 ^ 64"
  shows "number_value rd (valueToString_uint u) (reread_int u)"
proof -
  have "unat (word_of_int u :: u64) = nat u" using assms by (intro unat_of_int64) simp_all
  then show ?thesis using assms decimal_number_value(2) [of "nat u" rd] by (simp add: valueToString_uint_def uintToString_decimal)
qed

lemma hex_upper_char: "n < 16 \<Longrightarrow> hex_char (hex_upper (of_nat n)) n"
proof -
  assume n: "n < 16"
  then have "(of_nat n :: u8) < 10 \<longleftrightarrow> n < 10" by (simp add: word_less_nat_alt unat_of_nat)
  then show ?thesis using n by (simp add: hex_char_def hex_upper_def)
qed

lemma control_text:
  assumes "c < 0x20"
  shows "four_hex (unat c) [ch CHR ''0'', ch CHR ''0'', hex_upper (c div 16), hex_upper (c mod 16)]" "utf8 (unat c) = [c]"
proof -
  have n: "unat c < 32" using assms by (simp add: word_less_nat_alt)
  have d: "c div 16 = of_nat (unat c div 16)" "c mod 16 = of_nat (unat c mod 16)"
    by (simp_all add: word_arith_nat_div word_arith_nat_mod)
  have "hex_char (hex_upper (c div 16)) (unat c div 16)" "hex_char (hex_upper (c mod 16)) (unat c mod 16)"
    unfolding d using n by (intro hex_upper_char; simp)+
  moreover have "hex_char (ch CHR ''0'') 0" by (simp add: hex_char_def)
  ultimately show "four_hex (unat c) [ch CHR ''0'', ch CHR ''0'', hex_upper (c div 16), hex_upper (c mod 16)]"
    unfolding four_hex_def by (intro exI [of _ "ch CHR ''0''"] exI [of _ "hex_upper (c div 16)"] exI [of _ "hex_upper (c mod 16)"]
        exI [of _ 0] exI [of _ "unat c div 16"] exI [of _ "unat c mod 16"]) simp
  show "utf8 (unat c) = [c]" using n by (simp add: utf8_def)
qed

lemma quote_char_text:
  assumes "string_chars t s"
  shows "string_chars (quote_char c @ t) (c # s)"
proof (cases "isControlCharacter c \<or> c = 0")
  case True
  then have c: "c < 0x20" by (auto simp: isControlCharacter_def word_less_nat_alt word_le_nat_alt)
  have "string_chars ([ch CHR 0x5C, ch CHR ''u'', ch CHR ''0'', ch CHR ''0'', hex_upper (c div 16), hex_upper (c mod 16)] @ t) (c # s)"
    using chars_unicode [OF assms control_text(1) [OF c]] control_text(2) [OF c] c by (simp add: word_less_nat_alt)
  then show ?thesis using chars_escape [OF assms] True by (auto simp: quote_char_def)
next
  case False
  then have "c \<notin> {8, 12, 10, 13, 9}" by (auto simp: isControlCharacter_def)
  then show ?thesis using chars_escape [OF assms] chars_plain [OF assms, of c] False by (auto simp: quote_char_def)
qed

lemma quoted_text: "\<exists>t. valueToQuotedStringN s = ch CHR 0x22 # t @ [ch CHR 0x22] \<and> string_chars t s"
proof (cases "list_ex (\<lambda>c. c \<in> {ch CHR 0x22, ch CHR 0x5C, 8, 12, 10, 13, 9}) s \<or> containsControlCharacter0 s")
  case True
  have "string_chars (concat (map quote_char s)) s"
    by (induction s) (simp_all add: chars_end quote_char_text)
  then show ?thesis using True by (auto simp: valueToQuotedStringN_def)
next
  case False
  then have "0 \<notin> set s" "ch CHR 0x22 \<notin> set s" "ch CHR 0x5C \<notin> set s"
    by (auto simp: containsControlCharacter0_def list_ex_iff)
  then have s: "takeWhile (\<lambda>c. c \<noteq> 0) s = s" "string_chars s s" by (auto simp: takeWhile_eq_all_conv string_chars_plain)
  have "valueToQuotedStringN s = ch CHR 0x22 # s @ [ch CHR 0x22]"
    unfolding valueToQuotedStringN_def s(1) using False by simp
  then show ?thesis using s(2) by blast
qed

section \<open>Reading what was written\<close>

text \<open>How deep values are nested, and what becomes of a value that is written and read.\<close>

fun json_depth :: "json \<Rightarrow> nat" where
  "json_depth (ArrayValue vs) = Suc (foldr max (map json_depth vs) 0)"
| "json_depth (ObjectValue ms) = Suc (foldr max (map (\<lambda>(k, v). json_depth v) ms) 0)"
| "json_depth _ = 1"

fun reread :: "(real \<Rightarrow> json) \<Rightarrow> json \<Rightarrow> json" where
  "reread nrm (IntValue i) = reread_int i"
| "reread nrm (UIntValue u) = reread_int u"
| "reread nrm (RealValue x) = nrm x"
| "reread nrm (ArrayValue vs) = ArrayValue (map (reread nrm) vs)"
| "reread nrm (ObjectValue ms) = ObjectValue (by_name (map (\<lambda>(k, v). (k, reread nrm v)) ms))"
| "reread nrm v = v"

text \<open>The text made of a double is a number, and \<open>nrm x\<close> what reading that number gives.\<close>

definition double_laws :: "(u8 list \<Rightarrow> real option) \<Rightarrow> (real \<Rightarrow> u8 list) \<Rightarrow> (real \<Rightarrow> json) \<Rightarrow> bool" where
  "double_laws rd fmt nrm \<longleftrightarrow> (\<forall>x. number_value rd (valueToString_double fmt x) (nrm x))"

lemma foldr_max_ge: "x \<in> set xs \<Longrightarrow> (x::nat) \<le> foldr max xs 0"
  by (induction xs) auto

lemma insort_key_map: "(\<And>x. g (h x) = f x) \<Longrightarrow> insort_key g (h x) (map h xs) = map h (insort_key f x xs)"
  by (induction xs) auto

lemma sort_key_map: "(\<And>x. g (h x) = f x) \<Longrightarrow> sort_key g (map h xs) = map h (sort_key f xs)"
  by (induction xs) (simp_all add: insort_key_map)

lemma by_name_map: "by_name (map (\<lambda>(k, v). (k, f v)) ms) = map (\<lambda>(k, v). (k, f v)) (by_name ms)"
  unfolding by_name_def by (rule sort_key_map) (auto split: prod.splits)

lemma by_name_set: "set (by_name ms) = set ms" "distinct (map fst (by_name ms)) = distinct (map fst ms)" "by_name ms = [] \<longleftrightarrow> ms = []"
proof -
  show "set (by_name ms) = set ms" by (simp add: by_name_def)
  have "mset (map fst (by_name ms)) = mset (map fst ms)" unfolding by_name_def by (simp only: mset_map mset_sort)
  then show "distinct (map fst (by_name ms)) = distinct (map fst ms)" by (metis mset_eq_imp_distinct_iff)
  show "by_name ms = [] \<longleftrightarrow> ms = []" by (metis by_name_def length_0_conv length_sort)
qed

lemma put_member_new: "k \<notin> set (map fst ms) \<Longrightarrow> put_member k v ms = ms @ [(k, v)]"
  by (induction k v ms rule: put_member.induct) auto

lemma fold_put_distinct: "distinct (map fst (acc @ ms)) \<Longrightarrow> fold (\<lambda>(k, v). put_member k v) ms acc = acc @ ms"
proof (induction ms arbitrary: acc)
  case (Cons m ms)
  obtain k v where m: "m = (k, v)" by fastforce
  have "put_member k v acc = acc @ [(k, v)]" using Cons(2) m by (intro put_member_new) auto
  then show ?case using Cons(1) [of "acc @ [(k, v)]"] Cons(2) m by simp
qed simp

lemma elements_comma:
  "vs \<noteq> [] \<Longrightarrow> (\<And>v. v \<in> set vs \<Longrightarrow> json_text rd d (f v) (g v)) \<Longrightarrow> elements_text rd d (map f vs) (comma_list (map g vs))"
proof (induction vs rule: induct_list012)
  case (2 v)
  then show ?case using element [of "[]" rd d "f v" "g v" "[]"] by (simp add: ws_def)
next
  case (3 v v' vs)
  then show ?case
    using elements [of "[]" rd d "f v" "g v" "[]" "map f (v' # vs)" "comma_list (map g (v' # vs))"] by (simp add: ws_def)
qed simp

lemma members_comma:
  assumes "ms \<noteq> []" "ws w" "\<And>k v. (k, v) \<in> set ms \<Longrightarrow> json_text rd d (f v) (g v)"
  shows "members_text rd d (map (\<lambda>(k, v). (k, f v)) ms)
    (comma_list (map (\<lambda>(k, v). valueToQuotedStringN k @ ch CHR '':'' # w @ g v) ms))"
  using assms(1,3)
proof (induction ms rule: induct_list012)
  case (2 m)
  obtain k v where m: "m = (k, v)" by fastforce
  obtain t where t: "valueToQuotedStringN k = ch CHR 0x22 # t @ [ch CHR 0x22]" "string_chars t k" using quoted_text by blast
  show ?case
    using member [of "[]" t k "[]" w rd d "f v" "g v" "[]"] t assms(2) 2(2) m by (simp add: ws_def)
next
  case (3 m m' ms)
  obtain k v where m: "m = (k, v)" by fastforce
  obtain t where t: "valueToQuotedStringN k = ch CHR 0x22 # t @ [ch CHR 0x22]" "string_chars t k" using quoted_text by blast
  have v: "json_text rd d (f v) (g v)" using 3(4) [of k v] m by simp
  have "members_text rd d (map (\<lambda>(k, v). (k, f v)) (m' # ms))
      (comma_list (map (\<lambda>(k, v). valueToQuotedStringN k @ ch CHR '':'' # w @ g v) (m' # ms)))"
    using 3(2,4) by auto
  from members [OF _ t(2) _ assms(2) v _ this, of "[]" "[]" "[]"] show ?case by (simp add: ws_def m t(1))
qed simp

lemma written_text:
  assumes "double_laws rd fmt nrm" "\<not> fw_dropNullPlaceholders w"
  shows "json_depth v \<le> d \<Longrightarrow> json_typed v \<Longrightarrow> json_text rd d (reread nrm v) (writeValue w fmt v)"
proof (induction v arbitrary: d)
  case (ArrayValue vs)
  then obtain d' where d: "d = Suc d'" by (cases d) auto
  have "json_depth v \<le> d'" if "v \<in> set vs" for v
    using foldr_max_ge [of "json_depth v" "map json_depth vs"] that ArrayValue(2) d by simp
  then have v: "json_text rd d' (reread nrm v) (writeValue w fmt v)" if "v \<in> set vs" for v
    using ArrayValue(1,3) that by (simp add: list_all_iff)
  show ?case
  proof (cases "vs = []")
    case True
    then show ?thesis using text_empty_array [of "[]" rd d'] d by (simp add: ws_def)
  next
    case False
    from text_array [OF elements_comma [OF False v]] show ?thesis unfolding d by simp
  qed
next
  case (ObjectValue ms)
  then obtain d' where d: "d = Suc d'" by (cases d) auto
  have dist: "distinct (map fst ms)" using ObjectValue(3) by simp
  have "json_depth v \<le> d'" if "(k, v) \<in> set ms" for k v
    using foldr_max_ge [of "json_depth v" "map (\<lambda>(k, v). json_depth v) ms"] that ObjectValue(2) d by force
  then have v: "json_text rd d' (reread nrm v) (writeValue w fmt v)" if "(k, v) \<in> set (by_name ms)" for k v
    using ObjectValue(1,3) that by (auto simp: list_all_iff by_name_set)
  let ?ms = "map (\<lambda>(k, v). (k, reread nrm v)) (by_name ms)"
  let ?w = "if yamlCompatiblityEnabled w then [32] else [] :: u8 list"
  have w: "ws ?w" by (simp add: ws_def json_space_def)
  have keys: "fold (\<lambda>(k, v). put_member k v) ?ms [] = ?ms"
    using fold_put_distinct [of "[]" ?ms] dist by_name_set(2) [of ms] by (simp add: comp_def case_prod_unfold)
  have sep: "(if yamlCompatiblityEnabled w then str '': '' else str '':'') = ch CHR '':'' # ?w" by (simp add: str_def)
  have obj: "writeValue w fmt (ObjectValue ms) =
      ch CHR ''{'' # comma_list (map (\<lambda>(k, v). valueToQuotedStringN k @ ch CHR '':'' # ?w @ writeValue w fmt v) (by_name ms)) @ [ch CHR ''}'']"
    unfolding writeValue.simps by_name_map sep by (simp add: comp_def case_prod_unfold)
  show ?case
  proof (cases "ms = []")
    case True
    then show ?thesis using text_empty_object [of "[]" rd d'] d by (simp add: ws_def by_name_def)
  next
    case False
    then have "by_name ms \<noteq> []" by (simp add: by_name_set)
    have "members_text rd d' (map (\<lambda>(k, v). (k, reread nrm v)) (by_name ms))
        (comma_list (map (\<lambda>(k, v). valueToQuotedStringN k @ ch CHR '':'' # ?w @ writeValue w fmt v) (by_name ms)))"
      by (rule members_comma [where f = "reread nrm" and g = "writeValue w fmt", OF \<open>by_name ms \<noteq> []\<close> w v])
    from text_object [OF this] show ?thesis unfolding d obj reread.simps by_name_map keys by simp
  qed
next
  case NullValue
  then show ?case using assms(2) text_null [of rd "d - 1"] by simp
next
  case (IntValue i)
  then show ?case using text_number [OF valueToString_int_value [of i rd], of "d - 1"] by simp
next
  case (UIntValue u)
  then show ?case using text_number [OF valueToString_uint_value [of u rd], of "d - 1"] by simp
next
  case (RealValue x)
  then show ?case using text_number [of rd "valueToString_double fmt x" "nrm x" "d - 1"] assms(1) by (simp add: double_laws_def)
next
  case (StringValue s)
  obtain t where t: "valueToQuotedStringN s = ch CHR 0x22 # t @ [ch CHR 0x22]" "string_chars t s" using quoted_text by blast
  from text_string [OF t(2), of rd "d - 1"] show ?case using StringValue(1) by (simp add: t(1))
next
  case (BooleanValue b)
  then show ?case using text_true [of rd "d - 1"] text_false [of rd "d - 1"] by (cases b) simp_all
qed

text \<open>
  A \<open>std::map\<close> has its members in order.  Integers come back as they were if they have the type the reader
  gives them, signed up to \<open>maxInt\<close> and unsigned above.
\<close>

fun sort_members :: "json \<Rightarrow> json" where
  "sort_members (ArrayValue vs) = ArrayValue (map sort_members vs)"
| "sort_members (ObjectValue ms) = ObjectValue (by_name (map (\<lambda>(k, v). (k, sort_members v)) ms))"
| "sort_members v = v"

fun reader_numbers :: "json \<Rightarrow> bool" where
  "reader_numbers (IntValue i) \<longleftrightarrow> i \<le> maxInt"
| "reader_numbers (UIntValue u) \<longleftrightarrow> maxInt < u"
| "reader_numbers (RealValue x) \<longleftrightarrow> False"
| "reader_numbers (ArrayValue vs) \<longleftrightarrow> list_all reader_numbers vs"
| "reader_numbers (ObjectValue ms) \<longleftrightarrow> list_all (\<lambda>m. reader_numbers (snd m)) ms"
| "reader_numbers _ \<longleftrightarrow> True"

lemma reread_same: "reader_numbers v \<Longrightarrow> reread nrm v = sort_members v"
proof (induction v)
  case (ObjectValue ms)
  then have "map (\<lambda>(k, v). (k, reread nrm v)) ms = map (\<lambda>(k, v). (k, sort_members v)) ms"
    by (force simp: list_all_iff)
  then show ?case by (simp only: reread.simps sort_members.simps)
qed (auto simp: list_all_iff reread_int_def)

lemma number_end_newline: "number_end (if b then [] else [10])"
  by (simp add: number_end_def is_digit_def)


lemma example_double: "double_laws (\<lambda>_. Some (3 / 2)) (\<lambda>_. str ''1.5'') (\<lambda>_. RealValue (3 / 2))"
proof -
  have "number_text False [ch CHR ''1''] True (str ''1.5'')"
    using number_text.intros [of "[ch CHR ''1'']" "ch CHR ''.'' # [ch CHR ''5'']" "[]" False]
    by (simp add: digits_def is_digit_def str_def)
  then have "number_value (\<lambda>_. Some (3 / 2)) (str ''1.5'') (RealValue (3 / 2))" by (rule number_value.intros(4)) simp_all
  then show ?thesis by (simp add: double_laws_def valueToString_double_def fixNumericLocale_def str_def)
qed


end
