(* ===== verification/Std_Map.thy ===== *)
theory Std_Map
  imports Main "HOL-Library.List_Lexorder"
begin

text \<open>
  \<open>std::map\<close>: the pairs in the order of their keys.  The locale states what the operations promise to code
  that looks keys up, and the interpretation shows it for sorted lists of pairs.
\<close>

definition map_sorted :: "('k::linorder \<times> 'v) list \<Rightarrow> bool" where
  "map_sorted m \<longleftrightarrow> sorted_wrt (<) (map fst m)"

text \<open>\<open>find\<close>; \<open>lower_bound\<close>, then \<open>insert\<close> or an assignment to what is there; \<open>erase\<close>.\<close>

definition map_find :: "'k::linorder \<Rightarrow> ('k \<times> 'v) list \<Rightarrow> 'v option" where
  "map_find k m = map_of m k"

fun map_put :: "'k::linorder \<Rightarrow> 'v \<Rightarrow> ('k \<times> 'v) list \<Rightarrow> ('k \<times> 'v) list" where
  "map_put k v [] = [(k, v)]"
| "map_put k v ((k', v') # m) =
     (if k' < k then (k', v') # map_put k v m else if k' = k then (k, v) # m else (k, v) # (k', v') # m)"

definition map_erase :: "'k::linorder \<Rightarrow> ('k \<times> 'v) list \<Rightarrow> ('k \<times> 'v) list" where
  "map_erase k m = filter (\<lambda>(k', v). k' \<noteq> k) m"

locale key_map =
  fixes empty :: 'm and find :: "'k \<Rightarrow> 'm \<Rightarrow> 'v option" and put :: "'k \<Rightarrow> 'v \<Rightarrow> 'm \<Rightarrow> 'm"
    and erase :: "'k \<Rightarrow> 'm \<Rightarrow> 'm" and inv :: "'m \<Rightarrow> bool"
  assumes find_empty: "find k empty = None"
    and find_put: "inv m \<Longrightarrow> find k (put k' v m) = (if k = k' then Some v else find k m)"
    and find_erase: "inv m \<Longrightarrow> find k (erase k' m) = (if k = k' then None else find k m)"
    and inv_empty: "inv empty"
    and inv_put: "inv m \<Longrightarrow> inv (put k v m)"
    and inv_erase: "inv m \<Longrightarrow> inv (erase k m)"
begin

text \<open>Building a map from pairs: a later pair replaces an earlier one.\<close>

lemma inv_puts: "inv m \<Longrightarrow> inv (fold (\<lambda>(k, v). put k v) kvs m)"
  by (induction kvs arbitrary: m) (auto simp: inv_put)

lemma find_puts: "inv m \<Longrightarrow> find k (fold (\<lambda>(k, v). put k v) kvs m) = (case map_of (rev kvs) k of None \<Rightarrow> find k m | Some v \<Rightarrow> Some v)"
  by (induction kvs arbitrary: m) (auto simp: inv_put find_put map_add_Some_iff map_add_def split: option.splits)

lemma find_erases: "inv m \<Longrightarrow> find k (fold erase ks m) = (if k \<in> set ks then None else find k m)"
  by (induction ks arbitrary: m) (auto simp: inv_erase find_erase)

lemma inv_erases: "inv m \<Longrightarrow> inv (fold erase ks m)"
  by (induction ks arbitrary: m) (auto simp: inv_erase)

end

lemma map_sorted_simps [simp]:
  "map_sorted []" "map_sorted ((k, v) # m) \<longleftrightarrow> (\<forall>k'\<in>fst ` set m. k < k') \<and> map_sorted m"
  by (auto simp: map_sorted_def)

lemma map_sorted_distinct: "map_sorted m \<Longrightarrow> distinct (map fst m)"
  by (simp add: map_sorted_def strict_sorted_iff)

lemma map_put_keys: "fst ` set (map_put k v m) = insert k (fst ` set m)"
  by (induction k v m rule: map_put.induct) (auto simp: image_iff)

lemma map_put_sorted: "map_sorted m \<Longrightarrow> map_sorted (map_put k v m)"
proof (induction k v m rule: map_put.induct)
  case (2 k v k' v' m)
  then show ?case using map_put_keys [of k v m] by (auto simp: not_less intro: order.strict_trans)
qed simp

lemma map_find_put: "map_sorted m \<Longrightarrow> map_find k (map_put k' v m) = (if k = k' then Some v else map_find k m)"
  unfolding map_find_def by (induction k' v m rule: map_put.induct) (auto simp: map_of_eq_None_iff)

lemma map_find_erase: "map_find k (map_erase k' m) = (if k = k' then None else map_find k m)"
  by (induction m) (auto simp: map_find_def map_erase_def)

lemma map_erase_sorted: "map_sorted m \<Longrightarrow> map_sorted (map_erase k m)"
  by (induction m) (auto simp: map_erase_def)

interpretation std: key_map "[]" map_find map_put map_erase map_sorted
  by unfold_locales (simp_all add: map_find_def [of _ "[]"] map_find_put map_find_erase map_put_sorted map_erase_sorted)

text \<open>Sorted maps with the same lookups are equal.\<close>

lemma map_sorted_eqI:
  assumes "map_sorted m" "map_sorted m'" "\<And>k. map_find k m = map_find k m'"
  shows "m = m'"
proof -
  have d: "distinct (map fst m)" "distinct (map fst m')" using assms(1,2) map_sorted_distinct by auto
  have "map_of m = map_of m'" using assms(3) by (auto simp: map_find_def)
  then have s: "set m = set m'" using d by (simp add: map_of_inject_set)
  show ?thesis
    by (rule map_sorted_distinct_set_unique [where f = fst])
      (use assms(1,2) d s in \<open>auto simp: map_sorted_def strict_sorted_iff distinct_map\<close>)
qed

lemma map_put_last: "map_sorted m \<Longrightarrow> (\<And>k'. k' \<in> fst ` set m \<Longrightarrow> k' < k) \<Longrightarrow> map_put k v m = m @ [(k, v)]"
  by (induction m) auto

lemma map_put_again [simp]: "map_put k v (map_put k w m) = map_put k v m"
  by (induction k w m rule: map_put.induct) auto

end
