(* ===== verification/Value_Class.thy ===== *)
theory Value_Class
  imports Json_Writer Std_Map
begin

text \<open>
  The class \<open>Value\<close> of \<^verbatim>\<open>src/stputil/json/jsoncpp.cc\<close> as it stores arrays and objects: both are a \<open>std::map\<close>,
  an array from 32-bit indices, so that it can have holes and its size is its last index plus one.  The type
  \<open>json\<close> of the other theories is a value as the reader makes it; \<^verbatim>\<open>Value_Proof\<close> shows what the two have to do
  with each other.

  A failed assertion of the class throws: the result is \<open>None\<close>.  A reference the code returns is the key it
  stands for; an operation that returns one gives what it refers to and the value, which may have a new member.
\<close>

section \<open>Values\<close>

datatype value_type = nullValue | intValue | uintValue | realValue | stringValue | booleanValue | arrayValue | objectValue

datatype jvalue =
    VNull
  | VInt int
  | VUInt int
  | VReal real
  | VString "u8 list"
  | VBool bool
  | VArray "(u32 \<times> jvalue) list"
  | VObject "(u8 list \<times> jvalue) list"

definition new_Value :: "value_type \<Rightarrow> jvalue" where
  "new_Value t =
     (case t of
        nullValue \<Rightarrow> VNull | intValue \<Rightarrow> VInt 0 | uintValue \<Rightarrow> VUInt 0 | realValue \<Rightarrow> VReal 0
      | stringValue \<Rightarrow> VString [] | arrayValue \<Rightarrow> VArray [] | objectValue \<Rightarrow> VObject [] | booleanValue \<Rightarrow> VBool False)"

text \<open>\<open>type_\<close> as the number of its enumerator.\<close>

fun type_number :: "jvalue \<Rightarrow> nat" where
  "type_number VNull = 0"
| "type_number (VInt _) = 1"
| "type_number (VUInt _) = 2"
| "type_number (VReal _) = 3"
| "type_number (VString _) = 4"
| "type_number (VBool _) = 5"
| "type_number (VArray _) = 6"
| "type_number (VObject _) = 7"

text \<open>Maps of the same size are compared pair by pair, in the order of their keys.  The code takes the difference of the
  sizes as an \<open>int\<close>, which is exact for maps of fewer than \<open>2^31\<close> pairs.\<close>

function (sequential) value_less :: "jvalue \<Rightarrow> jvalue \<Rightarrow> bool"
  and indices_less :: "(u32 \<times> jvalue) list \<Rightarrow> (u32 \<times> jvalue) list \<Rightarrow> bool"
  and names_less :: "(u8 list \<times> jvalue) list \<Rightarrow> (u8 list \<times> jvalue) list \<Rightarrow> bool" where
  "value_less (VInt i) (VInt j) = (i < j)"
| "value_less (VUInt i) (VUInt j) = (i < j)"
| "value_less (VReal x) (VReal y) = (x < y)"
| "value_less (VBool a) (VBool b) = (a < b)"
| "value_less (VString s) (VString t) = CZString_less s t"
| "value_less (VArray m) (VArray m') = (if length m \<noteq> length m' then length m < length m' else indices_less m m')"
| "value_less (VObject m) (VObject m') = (if length m \<noteq> length m' then length m < length m' else names_less m m')"
| "value_less v w = (type_number v < type_number w)"
| "indices_less ((i, v) # m) ((j, w) # m') =
     (if i < j \<or> \<not> j < i \<and> value_less v w then True
      else if j < i \<or> \<not> i < j \<and> value_less w v then False else indices_less m m')"
| "indices_less m m' = (m = [] \<and> m' \<noteq> [])"
| "names_less ((s, v) # m) ((t, w) # m') =
     (if CZString_less s t \<or> \<not> CZString_less t s \<and> value_less v w then True
      else if CZString_less t s \<or> \<not> CZString_less s t \<and> value_less w v then False else names_less m m')"
| "names_less m m' = (m = [] \<and> m' \<noteq> [])"
  by pat_completeness auto
termination
  by (relation "measure (\<lambda>x. case x of Inl (v, w) \<Rightarrow> 2 * (size v + size w) + 1
      | Inr (Inl (m, m')) \<Rightarrow> 2 * (size (VArray m) + size (VArray m'))
      | Inr (Inr (m, m')) \<Rightarrow> 2 * (size (VObject m) + size (VObject m')))") auto

fun value_equal :: "jvalue \<Rightarrow> jvalue \<Rightarrow> bool"
  and indices_equal :: "(u32 \<times> jvalue) list \<Rightarrow> (u32 \<times> jvalue) list \<Rightarrow> bool"
  and names_equal :: "(u8 list \<times> jvalue) list \<Rightarrow> (u8 list \<times> jvalue) list \<Rightarrow> bool" where
  "value_equal (VInt i) (VInt j) = (i = j)"
| "value_equal (VUInt i) (VUInt j) = (i = j)"
| "value_equal (VReal x) (VReal y) = (x = y)"
| "value_equal (VBool a) (VBool b) = (a = b)"
| "value_equal (VString s) (VString t) = (length s = length t \<and> memcmp_order s t = 0)"
| "value_equal (VArray m) (VArray m') = (length m = length m' \<and> indices_equal m m')"
| "value_equal (VObject m) (VObject m') = (length m = length m' \<and> names_equal m m')"
| "value_equal v w = (type_number v = type_number w)"
| "indices_equal ((i, v) # m) ((j, w) # m') = (i = j \<and> value_equal v w \<and> indices_equal m m')"
| "indices_equal m m' = (m = [] \<and> m' = [])"
| "names_equal ((s, v) # m) ((t, w) # m') = (length s = length t \<and> memcmp_order s t = 0 \<and> value_equal v w \<and> names_equal m m')"
| "names_equal m m' = (m = [] \<and> m' = [])"

definition compare_values :: "jvalue \<Rightarrow> jvalue \<Rightarrow> int" where
  "compare_values v w = (if value_less v w then -1 else if value_less w v then 1 else 0)"

section \<open>Arrays\<close>

definition Value_size :: "jvalue \<Rightarrow> u32" where
  "Value_size v =
     (case v of
        VArray m \<Rightarrow> if m \<noteq> [] then fst (last m) + 1 else 0
      | VObject m \<Rightarrow> of_nat (length m)
      | _ \<Rightarrow> 0)"

definition Value_empty :: "jvalue \<Rightarrow> bool" where
  "Value_empty v = (case v of VNull \<Rightarrow> Value_size v = 0 | VArray _ \<Rightarrow> Value_size v = 0 | VObject _ \<Rightarrow> Value_size v = 0 | _ \<Rightarrow> False)"

definition Value_clear :: "jvalue \<Rightarrow> jvalue option" where
  "Value_clear v = (case v of VNull \<Rightarrow> Some VNull | VArray _ \<Rightarrow> Some (VArray []) | VObject _ \<Rightarrow> Some (VObject []) | _ \<Rightarrow> None)"

text \<open>The array behind a null or array value, and \<open>operator[]\<close>, which inserts a null where there is a hole.\<close>

definition array_items :: "jvalue \<Rightarrow> (u32 \<times> jvalue) list option" where
  "array_items v = (case v of VNull \<Rightarrow> Some [] | VArray m \<Rightarrow> Some m | _ \<Rightarrow> None)"

definition touch :: "'k::linorder \<Rightarrow> ('k \<times> jvalue) list \<Rightarrow> jvalue \<times> ('k \<times> jvalue) list" where
  "touch k m = (case map_find k m of Some x \<Rightarrow> (x, m) | None \<Rightarrow> (VNull, map_put k VNull m))"

definition index_ref :: "u32 \<Rightarrow> jvalue \<Rightarrow> (jvalue \<times> jvalue) option" where
  "index_ref i v = map_option (\<lambda>m. let (x, m') = touch i m in (x, VArray m')) (array_items v)"

definition index_ref_int :: "int \<Rightarrow> jvalue \<Rightarrow> (jvalue \<times> jvalue) option" where
  "index_ref_int i v = (if i \<ge> 0 then index_ref (word_of_int i) v else None)"

text \<open>An assignment through the reference.\<close>

definition assign_index :: "u32 \<Rightarrow> jvalue \<Rightarrow> jvalue \<Rightarrow> jvalue option" where
  "assign_index i x v = (case index_ref i v of Some (_, VArray m) \<Rightarrow> Some (VArray (map_put i x m)) | _ \<Rightarrow> None)"

definition index_at :: "u32 \<Rightarrow> jvalue \<Rightarrow> jvalue option" where
  "index_at i v = map_option (\<lambda>m. case map_find i m of None \<Rightarrow> VNull | Some x \<Rightarrow> x) (array_items v)"

definition index_at_int :: "int \<Rightarrow> jvalue \<Rightarrow> jvalue option" where
  "index_at_int i v = (if i \<ge> 0 then index_at (word_of_int i) v else None)"

definition get_index :: "u32 \<Rightarrow> jvalue \<Rightarrow> jvalue \<Rightarrow> jvalue option" where
  "get_index i dflt v = map_option (\<lambda>m. case map_find i m of None \<Rightarrow> dflt | Some x \<Rightarrow> x) (array_items v)"

definition isValidIndex :: "u32 \<Rightarrow> jvalue \<Rightarrow> bool" where "isValidIndex i v \<longleftrightarrow> i < Value_size v"

definition append_value :: "jvalue \<Rightarrow> jvalue \<Rightarrow> jvalue option" where
  "append_value x v = assign_index (Value_size v) x v"

lemma next_index: "i < (j :: u32) \<Longrightarrow> unat (i + 1) = Suc (unat i)"
proof -
  assume "i < j"
  then have "unat i + 1 < 2 ^ 32" using unsigned_less [of j, where ?'a = nat] by (simp add: word_less_nat_alt)
  then show ?thesis by (simp add: unat_word_ariths)
qed

text \<open>The indices the loop of \<open>resize\<close> erases.\<close>

function erase_from :: "u32 \<Rightarrow> u32 \<Rightarrow> (u32 \<times> jvalue) list \<Rightarrow> (u32 \<times> jvalue) list" where
  "erase_from i old m = (if i < old then erase_from (i + 1) old (map_erase i m) else m)"
  by pat_completeness auto
termination
  by (relation "measure (\<lambda>(i, old, m). unat old - unat i)") (auto simp: next_index word_less_nat_alt)

declare erase_from.simps [simp del]

definition resize :: "u32 \<Rightarrow> jvalue \<Rightarrow> jvalue option" where
  "resize new v =
     (case array_items v of
        None \<Rightarrow> None
      | Some m \<Rightarrow>
          let v = VArray m; old = Value_size v
          in if new = 0 then Value_clear v
             else if new > old then map_option snd (index_ref (new - 1) v)
             else
               let v = VArray (erase_from new old m)
               in if Value_size v = new then Some v else None)"

text \<open>The elements behind the removed one move one to the left.\<close>

function shift_left :: "u32 \<Rightarrow> u32 \<Rightarrow> (u32 \<times> jvalue) list \<Rightarrow> (u32 \<times> jvalue) list" where
  "shift_left i final m =
     (if i < final then let (x, m) = touch (i + 1) m in shift_left (i + 1) final (map_put i x m) else m)"
  by pat_completeness auto
termination
  by (relation "measure (\<lambda>(i, final, m). unat final - unat i)") (auto simp: next_index word_less_nat_alt)

declare shift_left.simps [simp del]

definition removeIndex :: "u32 \<Rightarrow> jvalue \<Rightarrow> bool \<times> jvalue option \<times> jvalue" where
  "removeIndex i v =
     (case v of
        VArray m \<Rightarrow>
          (case map_find i m of
             None \<Rightarrow> (False, None, v)
           | Some x \<Rightarrow>
               let old = Value_size v in (True, Some x, VArray (map_erase (old - 1) (shift_left i (old - 1) m))))
      | _ \<Rightarrow> (False, None, v))"

section \<open>Objects\<close>

definition object_members :: "jvalue \<Rightarrow> (u8 list \<times> jvalue) list option" where
  "object_members v = (case v of VNull \<Rightarrow> Some [] | VObject m \<Rightarrow> Some m | _ \<Rightarrow> None)"

text \<open>A \<open>const char*\<close> ends at its first NUL.\<close>

definition c_key :: "u8 list \<Rightarrow> u8 list" where "c_key key = takeWhile (\<lambda>c. c \<noteq> 0) key"

definition resolveReference :: "u8 list \<Rightarrow> jvalue \<Rightarrow> (jvalue \<times> jvalue) option" where
  "resolveReference key v = map_option (\<lambda>m. let (x, m') = touch key m in (x, VObject m')) (object_members v)"

definition resolveReference_c :: "u8 list \<Rightarrow> jvalue \<Rightarrow> (jvalue \<times> jvalue) option" where
  "resolveReference_c key v =
     map_option (\<lambda>m. let (x, m') = touch (c_key key) m in (x, VObject m')) (object_members v)"

definition assign_member :: "u8 list \<Rightarrow> jvalue \<Rightarrow> jvalue \<Rightarrow> jvalue option" where
  "assign_member key x v = (case resolveReference key v of Some (_, VObject m) \<Rightarrow> Some (VObject (map_put key x m)) | _ \<Rightarrow> None)"

text \<open>\<open>find\<close> gives a null pointer, here the inner \<open>None\<close>, when there is no such member.\<close>

definition Value_find :: "u8 list \<Rightarrow> jvalue \<Rightarrow> jvalue option option" where
  "Value_find key v = map_option (map_find key) (object_members v)"

definition member_at :: "u8 list \<Rightarrow> jvalue \<Rightarrow> jvalue option" where
  "member_at key v = map_option (\<lambda>r. case r of None \<Rightarrow> VNull | Some x \<Rightarrow> x) (Value_find key v)"

definition member_at_c :: "u8 list \<Rightarrow> jvalue \<Rightarrow> jvalue option" where
  "member_at_c key v = member_at (c_key key) v"

definition Value_get :: "u8 list \<Rightarrow> jvalue \<Rightarrow> jvalue \<Rightarrow> jvalue option" where
  "Value_get key dflt v = map_option (\<lambda>r. case r of None \<Rightarrow> dflt | Some x \<Rightarrow> x) (Value_find key v)"

definition Value_get_c :: "u8 list \<Rightarrow> jvalue \<Rightarrow> jvalue \<Rightarrow> jvalue option" where
  "Value_get_c key dflt v = Value_get (c_key key) dflt v"

definition isMember :: "u8 list \<Rightarrow> jvalue \<Rightarrow> bool option" where
  "isMember key v = map_option (\<lambda>r. r \<noteq> None) (Value_find key v)"

text \<open>The overloads of \<open>removeMember\<close> with a result parameter, and those that return the removed value.\<close>

definition removeMember :: "u8 list \<Rightarrow> jvalue \<Rightarrow> bool \<times> jvalue option \<times> jvalue" where
  "removeMember key v =
     (case v of
        VObject m \<Rightarrow>
          (case map_find key m of
             None \<Rightarrow> (False, None, v)
           | Some x \<Rightarrow> (True, Some x, VObject (map_erase key m)))
      | _ \<Rightarrow> (False, None, v))"

definition removeMember_c :: "u8 list \<Rightarrow> jvalue \<Rightarrow> (jvalue \<times> jvalue) option" where
  "removeMember_c key v =
     (case v of
        VNull \<Rightarrow> Some (VNull, v)
      | VObject _ \<Rightarrow>
          (case removeMember (c_key key) v of (_, removed, v') \<Rightarrow> Some (case removed of None \<Rightarrow> VNull | Some x \<Rightarrow> x, v'))
      | _ \<Rightarrow> None)"

definition removeMember_string :: "u8 list \<Rightarrow> jvalue \<Rightarrow> (jvalue \<times> jvalue) option" where
  "removeMember_string key v = removeMember_c key v"

definition getMemberNames :: "jvalue \<Rightarrow> u8 list list option" where
  "getMemberNames v = map_option (map fst) (object_members v)"

section \<open>Conversions\<close>

text \<open>The conversions that \<^verbatim>\<open>Json_Value\<close> leaves out; a scalar is the same in both types.\<close>

definition maxUInt :: int where "maxUInt = 2 ^ 32 - 1"
definition minInt64 :: int where "minInt64 = - (2 ^ 63)"
definition maxInt64 :: int where "maxInt64 = 2 ^ 63 - 1"

definition isUInt :: "json \<Rightarrow> bool" where
  "isUInt v =
     (case v of
        IntValue i \<Rightarrow> i \<ge> 0 \<and> i \<le> maxUInt
      | UIntValue u \<Rightarrow> u \<le> maxUInt
      | RealValue d \<Rightarrow> d \<ge> 0 \<and> d \<le> of_int maxUInt \<and> IsIntegral d
      | _ \<Rightarrow> False)"

text \<open>\<open>maxInt64\<close> rounds to \<open>2^63\<close> as a double.\<close>

definition isInt64 :: "json \<Rightarrow> bool" where
  "isInt64 v =
     (case v of
        IntValue i \<Rightarrow> True
      | UIntValue u \<Rightarrow> u \<le> maxInt64
      | RealValue d \<Rightarrow> d \<ge> of_int minInt64 \<and> d < 2 ^ 63 \<and> IsIntegral d
      | _ \<Rightarrow> False)"

definition isIntegral :: "json \<Rightarrow> bool" where "isIntegral v \<longleftrightarrow> isInt64 v \<or> isUInt64 v"

definition isDouble :: "json \<Rightarrow> bool" where
  "isDouble v \<longleftrightarrow> (case v of RealValue _ \<Rightarrow> True | _ \<Rightarrow> False) \<or> isIntegral v"

definition isNumeric :: "json \<Rightarrow> bool" where "isNumeric v \<longleftrightarrow> isIntegral v \<or> isDouble v"

definition asUInt :: "json \<Rightarrow> int option" where
  "asUInt v =
     (case v of
        IntValue i \<Rightarrow> if isUInt v then Some i else None
      | UIntValue u \<Rightarrow> if isUInt v then Some u else None
      | RealValue d \<Rightarrow> if InRange d 0 maxUInt then Some (trunc_real d) else None
      | NullValue \<Rightarrow> Some 0
      | BooleanValue b \<Rightarrow> Some (if b then 1 else 0)
      | _ \<Rightarrow> None)"

text \<open>As in \<open>asUInt64\<close>, the double just behind the range passes the test, and \<open>ovf\<close> is what its conversion gives.\<close>

definition asInt64 :: "int \<Rightarrow> json \<Rightarrow> int option" where
  "asInt64 ovf v =
     (case v of
        IntValue i \<Rightarrow> Some i
      | UIntValue u \<Rightarrow> if isInt64 v then Some u else None
      | RealValue d \<Rightarrow> if d \<ge> of_int minInt64 \<and> d \<le> 2 ^ 63 then Some (if d = 2 ^ 63 then ovf else trunc_real d) else None
      | NullValue \<Rightarrow> Some 0
      | BooleanValue b \<Rightarrow> Some (if b then 1 else 0)
      | _ \<Rightarrow> None)"

definition asLargestInt :: "int \<Rightarrow> json \<Rightarrow> int option" where "asLargestInt ovf v = asInt64 ovf v"

definition asLargestUInt :: "int \<Rightarrow> json \<Rightarrow> int option" where "asLargestUInt ovf v = asUInt64 ovf v"

definition asString :: "(real \<Rightarrow> u8 list) \<Rightarrow> json \<Rightarrow> u8 list option" where
  "asString fmt v =
     (case v of
        NullValue \<Rightarrow> Some []
      | StringValue s \<Rightarrow> Some s
      | BooleanValue b \<Rightarrow> Some (if b then str ''true'' else str ''false'')
      | IntValue i \<Rightarrow> Some (valueToString_int i)
      | UIntValue u \<Rightarrow> Some (valueToString_uint u)
      | RealValue d \<Rightarrow> Some (valueToString_double fmt d)
      | _ \<Rightarrow> None)"

definition isConvertibleTo :: "(int \<Rightarrow> real) \<Rightarrow> json \<Rightarrow> value_type \<Rightarrow> bool" where
  "isConvertibleTo dbl v t =
     (let is_null = (v = NullValue); is_bool = (case v of BooleanValue _ \<Rightarrow> True | _ \<Rightarrow> False)
      in case t of
           nullValue \<Rightarrow> isNumeric v \<and> asDouble dbl v = Some 0 \<or> v = BooleanValue False \<or> v = StringValue []
             \<or> v = ArrayValue [] \<or> v = ObjectValue [] \<or> is_null
         | intValue \<Rightarrow> isInt v \<or> (case v of RealValue d \<Rightarrow> InRange d minInt maxInt | _ \<Rightarrow> False) \<or> is_bool \<or> is_null
         | uintValue \<Rightarrow> isUInt v \<or> (case v of RealValue d \<Rightarrow> InRange d 0 maxUInt | _ \<Rightarrow> False) \<or> is_bool \<or> is_null
         | realValue \<Rightarrow> isNumeric v \<or> is_bool \<or> is_null
         | booleanValue \<Rightarrow> isNumeric v \<or> is_bool \<or> is_null
         | stringValue \<Rightarrow> isNumeric v \<or> is_bool \<or> (case v of StringValue _ \<Rightarrow> True | _ \<Rightarrow> False) \<or> is_null
         | arrayValue \<Rightarrow> (case v of ArrayValue _ \<Rightarrow> True | _ \<Rightarrow> False) \<or> is_null
         | objectValue \<Rightarrow> (case v of ObjectValue _ \<Rightarrow> True | _ \<Rightarrow> False) \<or> is_null)"

end
