(* ===== verification/Value_Order.thy ===== *)
theory Value_Order
  imports Value_Class
begin

text \<open>The comparisons of \<open>Value\<close> are a linear order, with the equality of \<open>operator==\<close>.\<close>

lemma memcmp_equal: "length s = length t \<Longrightarrow> memcmp_order s t = 0 \<longleftrightarrow> s = t"
  by (induction s t rule: memcmp_order.induct) auto

lemma type_number_null: "type_number v = 0 \<longleftrightarrow> v = VNull" "0 = type_number v \<longleftrightarrow> v = VNull" "Suc 0 = type_number v \<longleftrightarrow> (\<exists>i. v = VInt i)"
  by (cases v; auto)+

lemma value_equal_iff:
  "value_equal v w \<longleftrightarrow> v = w" "indices_equal m m' \<longleftrightarrow> m = m'" "names_equal n n' \<longleftrightarrow> n = n'"
proof (induction v w and m m' and n n' rule: value_equal_indices_equal_names_equal.induct)
  case "5"
  then show ?case using memcmp_equal by auto
qed (auto simp: memcmp_equal type_number_null)

lemma trichotomy:
  "v = w \<and> \<not> value_less v w \<and> \<not> value_less w v \<or> v \<noteq> w \<and> value_less v w \<noteq> value_less w v"
  "m = m' \<and> \<not> indices_less m m' \<and> \<not> indices_less m' m \<or> m \<noteq> m' \<and> indices_less m m' \<noteq> indices_less m' m"
  "n = n' \<and> \<not> names_less n n' \<and> \<not> names_less n' n \<or> n \<noteq> n' \<and> names_less n n' \<noteq> names_less n' n"
proof (induction v w and m m' and n n' rule: value_less_indices_less_names_less.induct)
qed (auto simp: CZString_less_lexicographic type_number_null not_less_iff_gr_or_eq split: if_splits)

lemma less_Cons:
  "indices_less ((i, v) # m) ((j, w) # m') \<longleftrightarrow> i < j \<or> i = j \<and> (value_less v w \<or> v = w \<and> indices_less m m')"
  "names_less ((s, v) # n) ((t, w) # n') \<longleftrightarrow> s < t \<or> s = t \<and> (value_less v w \<or> v = w \<and> names_less n n')"
  using trichotomy(1) [of v w] by (auto simp: CZString_less_lexicographic)

lemma less_Nil: "indices_less [] m' \<longleftrightarrow> m' \<noteq> []" "\<not> indices_less m []" "names_less [] n' \<longleftrightarrow> n' \<noteq> []" "\<not> names_less n []"
  by (cases m'; cases m; cases n'; cases n; simp)+

definition transitive_at :: "jvalue \<Rightarrow> bool" where
  "transitive_at u \<longleftrightarrow> (\<forall>v w. value_less u v \<longrightarrow> value_less v w \<longrightarrow> value_less u w)"

lemma indices_trans:
  "\<forall>p\<in>set m. transitive_at (snd p) \<Longrightarrow> indices_less m m' \<Longrightarrow> indices_less m' m'' \<Longrightarrow> indices_less m m''"
proof (induction m arbitrary: m' m'')
  case (Cons p m)
  obtain i u j v m1 k w m2 where e: "p = (i, u)" "m' = (j, v) # m1" "m'' = (k, w) # m2"
    using Cons(3,4) by (metis less_Nil(2) list.exhaust surj_pair)
  have "value_less u v \<Longrightarrow> value_less v w \<Longrightarrow> value_less u w" "indices_less m m1 \<Longrightarrow> indices_less m1 m2 \<Longrightarrow> indices_less m m2"
    using Cons(1) [of m1 m2] Cons(2) by (auto simp: e transitive_at_def)
  then show ?case using Cons(3,4) unfolding e less_Cons by auto
qed (auto simp: less_Nil)

lemma names_trans:
  "\<forall>p\<in>set m. transitive_at (snd p) \<Longrightarrow> names_less m m' \<Longrightarrow> names_less m' m'' \<Longrightarrow> names_less m m''"
proof (induction m arbitrary: m' m'')
  case (Cons p m)
  obtain i u j v m1 k w m2 where e: "p = (i, u)" "m' = (j, v) # m1" "m'' = (k, w) # m2"
    using Cons(3,4) by (metis less_Nil(4) list.exhaust surj_pair)
  have "value_less u v \<Longrightarrow> value_less v w \<Longrightarrow> value_less u w" "names_less m m1 \<Longrightarrow> names_less m1 m2 \<Longrightarrow> names_less m m2"
    using Cons(1) [of m1 m2] Cons(2) by (auto simp: e transitive_at_def)
  then show ?case using Cons(3,4) unfolding e less_Cons by auto
qed (auto simp: less_Nil)

lemma transitiveI: "(\<And>v w. value_less u v \<Longrightarrow> value_less v w \<Longrightarrow> value_less u w) \<Longrightarrow> transitive_at u"
  by (auto simp: transitive_at_def)

lemma less_types: "value_less v w \<Longrightarrow> type_number v \<le> type_number w" "type_number v < type_number w \<Longrightarrow> value_less v w"
  by (cases v; cases w; simp)+

lemma value_transitive: "transitive_at u"
proof (induction u)
  case (VArray m)
  then have l: "indices_less m m' \<Longrightarrow> indices_less m' m'' \<Longrightarrow> indices_less m m''" for m' m''
    using indices_trans by (metis snds.intros)
  show ?case
  proof (rule transitiveI)
    fix v w assume "value_less (VArray m) v" "value_less v w"
    then show "value_less (VArray m) w" using l by (cases v; cases w) (auto split: if_splits)
  qed
next
  case (VObject m)
  then have l: "names_less m m' \<Longrightarrow> names_less m' m'' \<Longrightarrow> names_less m m''" for m' m''
    using names_trans by (metis snds.intros)
  show ?case
  proof (rule transitiveI)
    fix v w assume "value_less (VObject m) v" "value_less v w"
    then show "value_less (VObject m) w" using l by (cases v; cases w) (auto split: if_splits)
  qed
next
  case (VString s)
  show ?case
  proof (rule transitiveI)
    fix v w assume "value_less (VString s) v" "value_less v w"
    then show "value_less (VString s) w" by (cases v; cases w) (auto simp: CZString_less_lexicographic)
  qed
qed (rule transitiveI; rename_tac v w; case_tac v; case_tac w; auto)+

instantiation jvalue :: linorder
begin

definition less_jvalue :: "jvalue \<Rightarrow> jvalue \<Rightarrow> bool" where "less_jvalue = value_less"

definition less_eq_jvalue :: "jvalue \<Rightarrow> jvalue \<Rightarrow> bool" where "less_eq_jvalue v w \<longleftrightarrow> \<not> value_less w v"

instance
proof
  fix u v w :: jvalue
  show "u < v \<longleftrightarrow> u \<le> v \<and> \<not> v \<le> u" "u \<le> u" "u \<le> v \<Longrightarrow> v \<le> u \<Longrightarrow> u = v" "u \<le> v \<or> v \<le> u"
    using trichotomy(1) [of u v] trichotomy(1) [of u u] by (auto simp: less_jvalue_def less_eq_jvalue_def)
  show "u \<le> v \<Longrightarrow> v \<le> w \<Longrightarrow> u \<le> w"
    using value_transitive trichotomy(1) [of u v] trichotomy(1) [of v w] unfolding less_eq_jvalue_def transitive_at_def by metis
qed

end



end
