(* ===== verification/Value_Proof.thy ===== *)
theory Value_Proof
  imports Value_Order
begin

text \<open>
  The values of the reader as values of the class: what the reader does with its lists is what \<open>operator[]\<close>
  does with the maps.  Then arrays without holes as lists, and which conversions a value has.
\<close>

section \<open>The reader's values\<close>

definition dense :: "jvalue list \<Rightarrow> (u32 \<times> jvalue) list" where
  "dense vs = map (\<lambda>i. (of_nat i, vs ! i)) [0..<length vs]"

definition members_of :: "(u8 list \<times> jvalue) list \<Rightarrow> (u8 list \<times> jvalue) list" where
  "members_of ms = fold (\<lambda>(k, v). map_put k v) ms []"

fun class_value :: "json \<Rightarrow> jvalue" where
  "class_value NullValue = VNull"
| "class_value (IntValue i) = VInt i"
| "class_value (UIntValue u) = VUInt u"
| "class_value (RealValue x) = VReal x"
| "class_value (StringValue s) = VString s"
| "class_value (BooleanValue b) = VBool b"
| "class_value (ArrayValue vs) = VArray (dense (map class_value vs))"
| "class_value (ObjectValue ms) = VObject (members_of (map (\<lambda>(k, v). (k, class_value v)) ms))"

lemma dense_snoc: "dense (vs @ [v]) = dense vs @ [(of_nat (length vs), v)]"
  by (simp add: dense_def nth_append)

lemma length_dense [simp]: "length (dense vs) = length vs"
  by (simp add: dense_def)

lemma dense_empty [simp]: "dense vs = [] \<longleftrightarrow> vs = []" "dense [] = []"
  by (simp_all add: dense_def)

lemma dense_keys: "fst ` set (dense vs) = of_nat ` {..<length vs}"
  by (auto simp: dense_def image_image atLeast0LessThan)

lemma of_nat_less32: "i < j \<Longrightarrow> j < 2 ^ 32 \<Longrightarrow> (of_nat i :: u32) < of_nat j"
  by (simp add: word_less_nat_alt unat_of_nat)

lemma index_nat: "n < 2 ^ 32 \<Longrightarrow> unat (of_nat n :: u32) = n"
  by (simp add: unat_of_nat)

lemma dense_key_less: "length vs \<le> 2 ^ 32 \<Longrightarrow> (k, v) \<in> set (dense vs) \<Longrightarrow> unat k < length vs"
  by (auto simp: dense_def unat_of_nat)

lemma dense_sorted: "length vs \<le> 2 ^ 32 \<Longrightarrow> map_sorted (dense vs)"
  unfolding map_sorted_def dense_def by (auto simp: sorted_wrt_iff_nth_less intro: of_nat_less32)

lemma dense_find:
  assumes "length vs \<le> 2 ^ 32"
  shows "map_find k (dense vs) = (if unat k < length vs then Some (vs ! unat k) else None)"
proof -
  have d: "distinct (map fst (dense vs))" by (rule map_sorted_distinct [OF dense_sorted [OF assms]])
  have "(k, vs ! unat k) \<in> set (dense vs)" if "unat k < length vs"
    unfolding dense_def using that by (force simp: image_iff intro: bexI [of _ "unat k"])
  moreover have "k \<notin> fst ` set (dense vs)" if "\<not> unat k < length vs"
    using that assms by (auto simp: dense_keys unat_of_nat)
  ultimately show ?thesis using d by (auto simp: map_find_def map_of_eq_None_iff)
qed

lemma dense_size: "length vs < 2 ^ 32 \<Longrightarrow> Value_size (VArray (dense vs)) = of_nat (length vs)"
  by (cases vs rule: rev_cases) (simp_all add: Value_size_def dense_snoc add.commute)

lemma dense_put_last: "length vs < 2 ^ 32 \<Longrightarrow> map_put (of_nat (length vs)) v (dense vs) = dense (vs @ [v])"
  unfolding dense_snoc by (rule map_put_last) (auto simp: dense_sorted dense_keys intro: of_nat_less32)

lemma touch_put: "map_sorted m \<Longrightarrow> map_put k x (snd (touch k m)) = map_put k x m"
  by (simp add: touch_def split: option.split)

lemma members_sorted: "map_sorted (members_of ms)"
  unfolding members_of_def by (rule std.inv_puts) simp

lemma members_find: "map_find k (members_of ms) = map_of (rev ms) k"
  unfolding members_of_def std.find_puts [OF map_sorted_simps(1)] by (simp add: map_find_def split: option.split)

lemma map_of_rev_distinct: "distinct (map fst ms) \<Longrightarrow> map_of (rev ms) = map_of ms"
  by (rule map_of_inject_set [THEN iffD2]) (simp_all flip: rev_map)

lemma map_of_put: "distinct (map fst ms) \<Longrightarrow> map_of (put_member k v ms) = (map_of ms)(k \<mapsto> v)"
  by (induction k v ms rule: put_member.induct) (auto simp: fun_eq_iff)

lemma map_of_class: "map_of (map (\<lambda>(k, v). (k, class_value v)) ms) k = map_option class_value (map_of ms k)"
  by (induction ms) auto

lemma put_member_distinct: "distinct (map fst ms) \<Longrightarrow> distinct (map fst (put_member k v ms))"
  using put_member_keys by (induction k v ms rule: put_member.induct) (auto simp: put_member_keys)

lemma class_members_find:
  assumes "distinct (map fst ms)"
  shows "map_find k (members_of (map (\<lambda>(k, v). (k, class_value v)) ms)) = map_option class_value (map_of ms k)"
proof -
  have "distinct (map fst (map (\<lambda>(k, v). (k, class_value v)) ms))" using assms by (simp add: comp_def case_prod_unfold)
  then show ?thesis by (simp add: members_find map_of_rev_distinct map_of_class)
qed

lemma class_put_member:
  assumes "distinct (map fst ms)"
  shows "members_of (map (\<lambda>(k, v). (k, class_value v)) (put_member k v ms)) =
    map_put k (class_value v) (members_of (map (\<lambda>(k, v). (k, class_value v)) ms))"
  by (rule map_sorted_eqI)
    (simp_all add: members_sorted map_put_sorted map_find_put class_members_find assms put_member_distinct map_of_put)

lemma class_names:
  assumes "distinct (map fst ms)"
  shows "map fst (members_of (map (\<lambda>(k, v). (k, class_value v)) ms)) = map fst (by_name ms)"
proof (rule sorted_distinct_set_unique)
  let ?m = "members_of (map (\<lambda>(k, v). (k, class_value v)) ms)"
  show "sorted (map fst ?m)" "distinct (map fst ?m)"
    using members_sorted by (simp_all add: map_sorted_def strict_sorted_iff)
  show "sorted (map fst (by_name ms))" "distinct (map fst (by_name ms))"
    using assms by_name_set(2) by (auto simp: by_name_def)
  have "k \<in> fst ` set ?m \<longleftrightarrow> k \<in> fst ` set ms" for k
    using class_members_find [OF assms, of k] map_of_eq_None_iff [of ?m k] map_of_eq_None_iff [of ms k] by (auto simp: map_find_def)
  then show "set (map fst ?m) = set (map fst (by_name ms))" using by_name_set(1) [of ms] by auto
qed

text \<open>
  C20. A value the reader has made is a value of the class, and what it did to make it is what the class
  does: the next element of an array is stored at the index behind the last, a member replaces the one of its
  name or is added; a member is found in the one if it is in the other, \<open>operator[]\<close> reads the elements, and
  the names come in the order in which the writer visits them.
\<close>

theorem reader_values_stored:
  assumes "length vs + 1 < 2 ^ 32" "distinct (map fst ms)"
  shows "append_value (class_value v) (class_value (ArrayValue vs)) = Some (class_value (ArrayValue (vs @ [v]))) \<and>
    index_at (of_nat i) (class_value (ArrayValue vs)) = Some (if i mod 2 ^ 32 < length vs then class_value (vs ! (i mod 2 ^ 32)) else VNull) \<and>
    Value_size (class_value (ArrayValue vs)) = of_nat (length vs) \<and>
    assign_member k (class_value v) (class_value (ObjectValue ms)) = Some (class_value (ObjectValue (put_member k v ms))) \<and>
    Value_find k (class_value (ObjectValue ms)) = map_option (map_option class_value) (find_member (ObjectValue ms) k) \<and>
    getMemberNames (class_value (ObjectValue ms)) = Some (map fst (by_name ms))"
proof (intro conjI)
  let ?vs = "map class_value vs"
  have n: "length ?vs < 2 ^ 32" "length ?vs \<le> 2 ^ 32" using assms(1) by simp_all
  have s: "Value_size (VArray (dense ?vs)) = of_nat (length ?vs)" by (rule dense_size [OF n(1)])
  show "append_value (class_value v) (class_value (ArrayValue vs)) = Some (class_value (ArrayValue (vs @ [v])))"
    using touch_put [OF dense_sorted [OF n(2)], of "of_nat (length ?vs)" "class_value v"] dense_put_last [OF n(1), of "class_value v"]
    by (simp add: append_value_def assign_index_def index_ref_def array_items_def s split_def Let_def)
  show "index_at (of_nat i) (class_value (ArrayValue vs)) = Some (if i mod 2 ^ 32 < length vs then class_value (vs ! (i mod 2 ^ 32)) else VNull)"
    by (simp add: index_at_def array_items_def dense_find [OF n(2)] unat_of_nat)
  show "Value_size (class_value (ArrayValue vs)) = of_nat (length vs)" using s by simp
  show "assign_member k (class_value v) (class_value (ObjectValue ms)) = Some (class_value (ObjectValue (put_member k v ms)))"
    using touch_put [OF members_sorted, of k "class_value v" "map (\<lambda>(k, v). (k, class_value v)) ms"]
    by (cases "touch k (members_of (map (\<lambda>(k, v). (k, class_value v)) ms))")
      (simp add: assign_member_def resolveReference_def object_members_def class_put_member [OF assms(2)])
  show "Value_find k (class_value (ObjectValue ms)) = map_option (map_option class_value) (find_member (ObjectValue ms) k)"
    by (simp add: Value_find_def object_members_def class_members_find [OF assms(2)] find_member_def)
  show "getMemberNames (class_value (ObjectValue ms)) = Some (map fst (by_name ms))"
    by (simp add: getMemberNames_def object_members_def class_names [OF assms(2)])
qed

theorem reader_values_stored_witness:
  "append_value (VInt 7) (class_value (ArrayValue [NullValue])) = Some (class_value (ArrayValue [NullValue, IntValue 7])) \<and>
   getMemberNames (class_value (ObjectValue [([98], NullValue), ([97], NullValue)])) = Some [[97], [98]]"
  using reader_values_stored [of "[NullValue]" "[([98], NullValue), ([97], NullValue)]" "IntValue 7"]
  by (simp add: by_name_def)

section \<open>Arrays as lists\<close>

lemma erase_from_filter: "erase_from i old m = filter (\<lambda>(k, v). k < i \<or> old \<le> k) m"
proof (induction i old m rule: erase_from.induct)
  case (1 i old m)
  show ?case
  proof (cases "i < old")
    case True
    have k: "k < i + 1 \<longleftrightarrow> k < i \<or> k = i" for k
      by (simp add: word_less_nat_alt next_index [OF True] less_Suc_eq word_eq_iff_unsigned [where ?'a = nat])
    have "erase_from i old m = filter (\<lambda>(k, v). k < i + 1 \<or> old \<le> k) (map_erase i m)"
      using 1 True by (simp add: erase_from.simps [of i])
    also have "\<dots> = filter (\<lambda>(k, v). k < i \<or> old \<le> k) m"
      unfolding map_erase_def filter_filter using True by (intro filter_cong) (auto simp: k)
    finally show ?thesis .
  next
    case False
    then have "k < i \<or> old \<le> k" for k by (metis le_less_trans not_le)
    then show ?thesis using False by (simp add: erase_from.simps [of i] case_prod_unfold)
  qed
qed

lemma filter_dense: "length vs < 2 ^ 32 \<Longrightarrow> filter (\<lambda>(k, v). unat k < n) (dense vs) = dense (take n vs)"
proof (induction vs rule: rev_induct)
  case (snoc v vs)
  then show ?case by (simp add: dense_snoc index_nat)
qed simp

lemma dense_below:
  assumes "length vs < 2 ^ 32" "n < 2 ^ 32"
  shows "filter (\<lambda>(k, v). k < of_nat n \<or> of_nat (length vs) \<le> k) (dense vs) = dense (take n vs)"
proof -
  have "filter (\<lambda>(k, v). k < of_nat n \<or> of_nat (length vs) \<le> k) (dense vs) = filter (\<lambda>(k, v). unat k < n) (dense vs)"
    using dense_key_less [of vs] assms by (intro filter_cong) (force simp: word_less_nat_alt word_le_nat_alt index_nat)+
  then show ?thesis using filter_dense [OF assms(1)] by simp
qed

lemma resize_shrinks:
  assumes "n \<le> length vs" "length vs < 2 ^ 32"
  shows "resize (of_nat n) (VArray (dense vs)) = Some (VArray (dense (take n vs)))"
proof (cases "n = 0")
  case True
  then show ?thesis by (simp add: resize_def array_items_def Value_clear_def)
next
  case False
  have n: "n < 2 ^ 32" "(of_nat n :: u32) \<noteq> 0" using assms False by (simp_all add: word_eq_iff_unsigned [where ?'a = nat] unat_of_nat)
  have "\<not> (of_nat (length vs) :: u32) < of_nat n" using assms n by (simp add: word_less_nat_alt unat_of_nat)
  then show ?thesis
    using n dense_below [OF assms(2) n(1)] assms dense_size [of vs] dense_size [of "take n vs"]
    by (simp add: resize_def array_items_def erase_from_filter Let_def min_def)
qed

lemma resize_grows:
  assumes "length vs < n" "n < 2 ^ 32"
  shows "resize (of_nat n) (VArray (dense vs)) = Some (VArray (dense vs @ [(of_nat (n - 1), VNull)]))"
proof -
  define k :: u32 where "k = of_nat (n - 1)"
  have k: "unat k = n - 1" using assms by (simp add: k_def index_nat del: of_nat_diff)
  have n: "(of_nat n :: u32) \<noteq> 0" "(of_nat (length vs) :: u32) < of_nat n" "(of_nat n :: u32) - 1 = k"
    using assms of_nat_less32 [of "length vs" n] by (simp_all add: word_eq_iff_unsigned [where ?'a = nat] unat_of_nat of_nat_diff k_def)
  have "map_find k (dense vs) = None" using assms by (simp add: dense_find k)
  moreover have "map_put k VNull (dense vs) = dense vs @ [(k, VNull)]"
    using assms k by (intro map_put_last) (auto simp: dense_sorted dense_keys word_less_nat_alt unat_of_nat)
  ultimately show ?thesis
    unfolding k_def [symmetric] using n assms dense_size [of vs] by (simp add: resize_def array_items_def index_ref_def touch_def Let_def)
qed

text \<open>The null that \<open>resize\<close> puts at the end is the only one: the array cannot be made smaller within the hole.\<close>

lemma resize_hole:
  assumes "length vs < n" "n < m" "m < 2 ^ 32"
  shows "Option.bind (resize (of_nat m) (VArray (dense vs))) (resize (of_nat n)) = None"
proof -
  define l :: u32 where "l = of_nat (m - 1)"
  have l: "unat l = m - 1" using assms by (simp add: l_def index_nat del: of_nat_diff)
  have "l + 1 = of_nat m" using assms by (simp add: l_def of_nat_diff)
  then have sz: "Value_size (VArray (dense vs @ [(l, VNull)])) = of_nat m" by (simp add: Value_size_def)
  have n: "(of_nat n :: u32) \<noteq> 0" "\<not> (of_nat m :: u32) < of_nat n"
    using assms by (simp_all add: word_eq_iff_unsigned [where ?'a = nat] word_less_nat_alt unat_of_nat)
  have "k < of_nat n" if "(k, w) \<in> set (dense vs)" for k w
    using that assms by (auto simp: dense_def word_less_nat_alt unat_of_nat)
  then have "filter (\<lambda>(k, v). k < of_nat n \<or> of_nat m \<le> k) (dense vs) = dense vs" by (intro filter_True) auto
  moreover have "\<not> (l < of_nat n \<or> of_nat m \<le> l)"
    using assms unfolding word_less_nat_alt word_le_nat_alt l by (simp add: index_nat) linarith
  ultimately have "erase_from (of_nat n) (of_nat m) (dense vs @ [(l, VNull)]) = dense vs" by (simp add: erase_from_filter)
  moreover have "Value_size (VArray (dense vs)) \<noteq> of_nat n"
    using assms dense_size [of vs] by (simp add: word_eq_iff_unsigned [where ?'a = nat] unat_of_nat)
  ultimately show ?thesis
    using resize_grows [of vs m] assms n sz unfolding l_def [symmetric] by (simp add: resize_def array_items_def Let_def)
qed

section \<open>Removing an element\<close>

lemma dense_put: "i < length vs \<Longrightarrow> length vs < 2 ^ 32 \<Longrightarrow> map_put (of_nat i) x (dense vs) = dense (vs[i := x])"
  by (rule map_sorted_eqI)
    (auto simp: map_put_sorted dense_sorted map_find_put dense_find nth_list_update word_eq_iff_unsigned [where ?'a = nat] unat_of_nat)

lemma shift_dense:
  "i < length vs \<Longrightarrow> length vs < 2 ^ 32 \<Longrightarrow>
   shift_left (of_nat i) (of_nat (length vs - 1)) (dense vs) = dense (take i vs @ drop (Suc i) vs @ [last vs])"
proof (induction "length vs - Suc i" arbitrary: i vs)
  case 0
  then have i: "i = length vs - 1" "vs \<noteq> []" by auto
  then have "take i vs @ [last vs] = vs" using append_butlast_last_id [of vs] by (simp add: butlast_conv_take)
  moreover have "\<not> (of_nat i :: u32) < of_nat (length vs - 1)" using i by simp
  ultimately show ?case using 0 by (simp add: shift_left.simps [of "of_nat i"])
next
  case (Suc d)
  define k :: u32 where "k = of_nat (length vs - 1)"
  have k: "unat k = length vs - 1" using Suc(4) by (simp add: k_def index_nat del: of_nat_diff)
  have l: "Suc i < length vs" using Suc(2) by linarith
  have u: "unat (of_nat i :: u32) = i" using l Suc(4) by (intro index_nat) linarith
  have i: "Suc i < length vs" "(of_nat i :: u32) < k" "(of_nat i :: u32) + 1 = of_nat (Suc i)"
    using l unfolding word_less_nat_alt u k by (linarith | simp)+
  have "touch (of_nat (Suc i)) (dense vs) = (vs ! Suc i, dense vs)"
    using i(1) Suc(4) by (simp add: touch_def dense_find index_nat del: of_nat_Suc)
  then have "shift_left (of_nat i) k (dense vs) = shift_left (of_nat (Suc i)) k (dense (vs[i := vs ! Suc i]))"
    using i Suc(3,4) by (simp add: shift_left.simps [of "of_nat i"] dense_put del: of_nat_Suc)
  also have "\<dots> = dense (take (Suc i) (vs[i := vs ! Suc i]) @ drop (Suc (Suc i)) (vs[i := vs ! Suc i]) @ [last (vs[i := vs ! Suc i])])"
    using Suc(1) [of "vs[i := vs ! Suc i]" "Suc i"] Suc(2,4) i(1) by (simp add: k_def)
  also have "last (vs[i := vs ! Suc i]) = last vs" using i(1) by (cases vs rule: rev_cases) (simp_all add: list_update_append)
  also have "take (Suc i) (vs[i := vs ! Suc i]) @ drop (Suc (Suc i)) (vs[i := vs ! Suc i]) @ [last vs] =
      take i vs @ drop (Suc i) vs @ [last vs]"
    using i(1) by (simp add: take_Suc_conv_app_nth Cons_nth_drop_Suc [of "Suc i", symmetric] last_conv_nth)
  finally show ?case by (simp add: k_def)
qed

lemma removeIndex_dense:
  assumes "i < length vs" "length vs < 2 ^ 32"
  shows "removeIndex (of_nat i) (VArray (dense vs)) = (True, Some (vs ! i), VArray (dense (take i vs @ drop (Suc i) vs)))"
proof -
  define k :: u32 where "k = of_nat (length vs - 1)"
  have "Value_size (VArray (dense vs)) - 1 = k"
    using assms dense_size [of vs] by (simp add: k_def of_nat_diff Suc_leI)
  moreover have "map_find (of_nat i) (dense vs) = Some (vs ! i)" using assms by (simp add: dense_find index_nat)
  moreover have "map_erase k (dense ((take i vs @ drop (Suc i) vs) @ [x])) = dense (take i vs @ drop (Suc i) vs)" for x
  proof -
    let ?ws = "take i vs @ drop (Suc i) vs"
    have l: "length ?ws = length vs - 1" using assms by simp
    have "of_nat j \<noteq> k" if "j < length ?ws" for j
      using that l assms by (simp add: k_def word_eq_iff_unsigned [where ?'a = nat] index_nat del: of_nat_diff)
    then have "\<forall>p\<in>set (dense ?ws). (\<lambda>(k', v). k' \<noteq> k) p" by (auto simp: dense_def)
    then show ?thesis unfolding dense_snoc map_erase_def l k_def [symmetric] by (simp add: filter_True)
  qed
  ultimately show ?thesis
    using shift_dense [OF assms] by (simp add: removeIndex_def k_def Let_def)
qed

text \<open>
  C21. An array without holes behaves as a list: \<open>resize\<close> to a smaller size takes a prefix, \<open>removeIndex\<close> gives
  the element and takes it out.  \<open>resize\<close> to a larger size stores only one null, at the last index; made
  smaller again to a size within the hole, the array fails the assertion at the end of \<open>resize\<close>, which throws.
\<close>

theorem arrays_resize:
  assumes "length vs < 2 ^ 32"
  shows "(n \<le> length vs \<longrightarrow> resize (of_nat n) (VArray (dense vs)) = Some (VArray (dense (take n vs)))) \<and>
    (i < length vs \<longrightarrow> removeIndex (of_nat i) (VArray (dense vs)) = (True, Some (vs ! i), VArray (dense (take i vs @ drop (Suc i) vs)))) \<and>
    (length vs < m \<and> m < 2 ^ 32 \<longrightarrow>
       resize (of_nat m) (VArray (dense vs)) = Some (VArray (dense vs @ [(of_nat (m - 1), VNull)])) \<and>
       (length vs < n \<and> n < m \<longrightarrow> resize (of_nat n) (VArray (dense vs @ [(of_nat (m - 1), VNull)])) = None))"
proof (intro conjI impI)
  assume "length vs < m \<and> m < 2 ^ 32"
  then have g: "resize (of_nat m) (VArray (dense vs)) = Some (VArray (dense vs @ [(of_nat (m - 1), VNull)]))"
    by (intro resize_grows) auto
  then show "resize (of_nat m) (VArray (dense vs)) = Some (VArray (dense vs @ [(of_nat (m - 1), VNull)]))" .
  show "resize (of_nat n) (VArray (dense vs @ [(of_nat (m - 1), VNull)])) = None" if "length vs < n \<and> n < m"
    using resize_hole [of vs n m] g that \<open>length vs < m \<and> m < 2 ^ 32\<close> by (simp del: of_nat_diff)
qed (use assms in \<open>simp_all add: resize_shrinks removeIndex_dense\<close>)

theorem arrays_resize_witness:
  "resize 5 (VArray [(0, VInt 7)]) = Some (VArray [(0, VInt 7), (4, VNull)]) \<and> resize 3 (VArray [(0, VInt 7), (4, VNull)]) = None \<and>
   removeIndex 0 (VArray [(0, VInt 7), (1, VInt 8)]) = (True, Some (VInt 7), VArray [(0, VInt 8)])"
  using arrays_resize [of "[VInt 7]" 3 0 5] arrays_resize [of "[VInt 7, VInt 8]" 3 0 5] by (simp add: dense_def upt_rec)

section \<open>Conversions\<close>

text \<open>
  \<open>isConvertibleTo\<close> tells which conversions throw: for integers, unsigned integers, doubles, booleans and
  strings it holds of exactly the values for which \<open>asInt\<close>, \<open>asUInt\<close>, \<open>asDouble\<close>, \<open>asBool\<close> and \<open>asString\<close> return.
\<close>

theorem convertible_values_convert:
  "(isConvertibleTo dbl v intValue \<longleftrightarrow> asInt v \<noteq> None) \<and> (isConvertibleTo dbl v uintValue \<longleftrightarrow> asUInt v \<noteq> None) \<and>
   (isConvertibleTo dbl v realValue \<longleftrightarrow> asDouble dbl v \<noteq> None) \<and> (isConvertibleTo dbl v booleanValue \<longleftrightarrow> asBool v \<noteq> None) \<and>
   (isConvertibleTo dbl v stringValue \<longleftrightarrow> asString fmt v \<noteq> None)"
  by (cases v) (auto simp: isConvertibleTo_def asInt_def asUInt_def asDouble_def asBool_def asString_def isNumeric_def isDouble_def
      isIntegral_def isInt64_def isUInt64_def isInt_def isUInt_def InRange_def Let_def)

end
