(* ===== verification/Json_Path.thy ===== *)
theory Json_Path
  imports Value_Proof
begin

text \<open>
  The class \<open>Path\<close> of \<^verbatim>\<open>src/stputil/json/jsoncpp.cc\<close>: a path is parsed into indices and names, which lead from
  a value to one inside it.  An \<open>ArrayIndex\<close> wraps around at 32 bits.
\<close>

section \<open>Parsing a path\<close>

datatype path_argument = kindNone | kindIndex u32 | kindKey "u8 list"

definition key_argument :: "u8 list \<Rightarrow> path_argument" where
  "key_argument key = kindKey (takeWhile (\<lambda>c. c \<noteq> 0) key)"

text \<open>The iterator into the arguments is never advanced: every \<open>%\<close> means the first of them.\<close>

definition addPathInArg :: "path_argument list \<Rightarrow> bool \<Rightarrow> path_argument list \<Rightarrow> path_argument list" where
  "addPathInArg ins index args =
     (case ins of
        [] \<Rightarrow> args
      | a # _ \<Rightarrow>
          (case a of
             kindNone \<Rightarrow> args
           | kindIndex _ \<Rightarrow> if index then args @ [a] else args
           | kindKey _ \<Rightarrow> if index then args else args @ [a]))"

fun path_index :: "u8 list \<Rightarrow> u32 \<Rightarrow> u32 \<times> u8 list" where
  "path_index (c # cs) i = (if ch CHR ''0'' \<le> c \<and> c \<le> ch CHR ''9'' then path_index cs (i * 10 + ucast (c - ch CHR ''0'')) else (i, c # cs))"
| "path_index [] i = (i, [])"

text \<open>\<open>strchr\<close> also finds the NUL at the end of its string, so that a name ends before a NUL.\<close>

definition name_char :: "u8 \<Rightarrow> bool" where "name_char c \<longleftrightarrow> c \<notin> {ch CHR ''['', ch CHR ''.'', 0}"

partial_function (option) makePath_from :: "path_argument list \<Rightarrow> u8 list \<Rightarrow> path_argument list \<Rightarrow> path_argument list option" where
  "makePath_from ins current args =
     (if current = [] then Some args
      else if hd current = ch CHR ''['' then
        (let current = tl current;
             (args, current) =
               (if current \<noteq> [] \<and> hd current = ch CHR 0x25 then (addPathInArg ins True args, current)
                else case path_index current 0 of (i, current) \<Rightarrow> (args @ [kindIndex i], current))
         in makePath_from ins (tl current) args)
      else if hd current = ch CHR 0x25 then makePath_from ins (tl current) (addPathInArg ins False args)
      else if hd current = ch CHR ''.'' then makePath_from ins (tl current) args
      else makePath_from ins (dropWhile name_char current) (args @ [key_argument (takeWhile name_char current)]))"

definition makePath :: "u8 list \<Rightarrow> path_argument list \<Rightarrow> path_argument list option" where
  "makePath p ins = makePath_from ins p []"

definition new_Path :: "u8 list \<Rightarrow> path_argument \<Rightarrow> path_argument \<Rightarrow> path_argument \<Rightarrow> path_argument \<Rightarrow> path_argument \<Rightarrow> path_argument list option" where
  "new_Path p a1 a2 a3 a4 a5 = makePath p [a1, a2, a3, a4, a5]"

section \<open>Following a path\<close>

text \<open>\<open>resolve\<close> without a default value checks nothing; \<open>operator[]\<close> throws on a value of another type.\<close>

fun path_resolve :: "path_argument list \<Rightarrow> jvalue \<Rightarrow> jvalue option" where
  "path_resolve [] node = Some node"
| "path_resolve (kindIndex i # args) node = Option.bind (index_at i node) (path_resolve args)"
| "path_resolve (kindKey key # args) node = Option.bind (member_at key node) (path_resolve args)"
| "path_resolve (kindNone # args) node = path_resolve args node"

text \<open>With a default value; the null that \<open>operator[]\<close> returns for a missing member is recognised by its address.\<close>

fun path_resolve_default :: "path_argument list \<Rightarrow> jvalue \<Rightarrow> jvalue \<Rightarrow> jvalue option" where
  "path_resolve_default [] dflt node = Some node"
| "path_resolve_default (kindIndex i # args) dflt node =
     (case node of
        VArray _ \<Rightarrow> if isValidIndex i node then Option.bind (index_at i node) (path_resolve_default args dflt) else Some dflt
      | _ \<Rightarrow> Some dflt)"
| "path_resolve_default (kindKey key # args) dflt node =
     (case node of
        VObject m \<Rightarrow> (case map_find key m of None \<Rightarrow> Some dflt | Some x \<Rightarrow> path_resolve_default args dflt x)
      | _ \<Rightarrow> Some dflt)"
| "path_resolve_default (kindNone # args) dflt node = path_resolve_default args dflt node"

text \<open>\<open>make\<close> creates what is missing and returns a reference; \<open>f\<close> is what is done to the value it refers to.\<close>

fun path_make :: "path_argument list \<Rightarrow> (jvalue \<Rightarrow> jvalue) \<Rightarrow> jvalue \<Rightarrow> jvalue option" where
  "path_make [] f node = Some (f node)"
| "path_make (kindIndex i # args) f node =
     Option.bind (index_ref i node) (\<lambda>(child, node). Option.bind (path_make args f child) (\<lambda>child. assign_index i child node))"
| "path_make (kindKey key # args) f node =
     Option.bind (resolveReference key node) (\<lambda>(child, node). Option.bind (path_make args f child) (\<lambda>child. assign_member key child node))"
| "path_make (kindNone # args) f node = path_make args f node"

section \<open>Paths and their texts\<close>

fun path_text :: "path_argument \<Rightarrow> u8 list" where
  "path_text (kindIndex i) = ch CHR ''['' # decimal (unat i) @ [ch CHR '']'']"
| "path_text (kindKey key) = ch CHR ''.'' # key"
| "path_text kindNone = []"

fun path_part :: "path_argument \<Rightarrow> bool" where
  "path_part (kindIndex i) \<longleftrightarrow> True"
| "path_part (kindKey key) \<longleftrightarrow> key \<noteq> [] \<and> hd key \<noteq> ch CHR 0x25 \<and> list_all name_char key"
| "path_part kindNone \<longleftrightarrow> False"

lemma path_index_digits:
  "list_all (\<lambda>c. 48 \<le> c \<and> c \<le> 57) ds \<Longrightarrow> path_index (ds @ ch CHR '']'' # r) (of_nat m) =
     (of_nat (foldl (\<lambda>n c. 10 * n + unat (c - 48)) m ds), ch CHR '']'' # r)"
proof (induction ds arbitrary: m)
  case (Cons c ds)
  have "48 \<le> c" "c \<le> 57" "list_all (\<lambda>c. 48 \<le> c \<and> c \<le> 57) ds" using Cons(2) by simp_all
  then show ?case using Cons(1) [of "10 * m + unat (c - 48)"] by (simp add: mult.commute [of _ 10])
qed simp

lemma path_index_decimal: "path_index (decimal n @ ch CHR '']'' # r) 0 = (of_nat n, ch CHR '']'' # r)"
  using path_index_digits [OF decimal_digits, of n r 0] undecimal_decimal [of n] by (simp add: undecimal_def)

lemma decimal_no_percent: "hd (decimal n @ r) \<noteq> ch CHR 0x25"
  using decimal_digits [of n] decimal_not_Nil [of n] by (cases "decimal n") auto

lemma parse_part:
  assumes "path_part a" "r = [] \<or> \<not> name_char (hd r)"
  shows "makePath_from ins (path_text a @ r) args = makePath_from ins r (args @ [a])"
proof (cases a)
  case (kindIndex i)
  have n: "decimal (unat i) @ ch CHR '']'' # r \<noteq> []" by simp
  show ?thesis
    using makePath_from.simps [of ins "ch CHR ''['' # decimal (unat i) @ ch CHR '']'' # r" args]
      decimal_no_percent [of "unat i" "ch CHR '']'' # r"] path_index_decimal [of "unat i" r] by (simp add: kindIndex)
next
  case (kindKey key)
  have k: "key \<noteq> []" "hd key \<noteq> ch CHR 0x25" "list_all name_char key" using assms(1) kindKey by simp_all
  have h: "name_char (hd key)" using k by (cases key) auto
  have t: "takeWhile name_char (key @ r) = key" "dropWhile name_char (key @ r) = r"
    using k(3) assms(2) by (cases r; auto simp: list_all_iff takeWhile_append dropWhile_append)+
  have "key_argument key = kindKey key"
    using k(3) by (auto simp: key_argument_def list_all_iff name_char_def takeWhile_eq_all_conv)
  then show ?thesis
    using k h t makePath_from.simps [of ins "key @ r" args] makePath_from.simps [of ins "ch CHR ''.'' # key @ r" args]
    by (simp add: kindKey name_char_def)
qed (use assms in simp)

lemma parse_parts:
  assumes "r = [] \<or> \<not> name_char (hd r)"
  shows "list_all path_part as \<Longrightarrow> makePath_from ins (concat (map path_text as) @ r) args = makePath_from ins r (args @ as)"
proof (induction as arbitrary: args)
  case (Cons a as)
  have "concat (map path_text as) @ r = [] \<or> \<not> name_char (hd (concat (map path_text as) @ r))"
    using Cons(2) assms by (cases as; cases "hd as") (auto simp: name_char_def)
  then show ?case using parse_part [of a "concat (map path_text as) @ r"] Cons by simp
qed simp

lemma path_index_shorter: "length (snd (path_index cs i)) \<le> length cs"
  by (induction cs i rule: path_index.induct) auto

lemma path_index_set: "set (snd (path_index cs i)) \<subseteq> set cs"
  by (induction cs i rule: path_index.induct) auto

lemma makePath_ends: "0 \<notin> set cs \<Longrightarrow> makePath_from ins cs args \<noteq> None"
proof (induction "length cs" arbitrary: cs args rule: less_induct)
  case less
  note step = makePath_from.simps [of ins cs args]
  show ?case
  proof (cases cs)
    case Nil
    then show ?thesis using step by simp
  next
    case (Cons c r)
    have rest: "makePath_from ins s args' \<noteq> None" if "length s \<le> length r" "set s \<subseteq> set r" for s args'
      using less that Cons by (intro less(1)) auto
    have tail: "set (tl s) \<subseteq> set r" "length (tl s) \<le> length r" if "set s \<subseteq> set r" "length s \<le> length r" for s
      using that by (cases s; auto)+
    show ?thesis
    proof (cases "c \<in> {ch CHR ''['', ch CHR 0x25, ch CHR ''.''}")
      case True
      obtain i s where p: "path_index r 0 = (i, s)" by fastforce
      then have s: "length s \<le> length r" "set s \<subseteq> set r" using path_index_shorter [of r 0] path_index_set [of r 0] by auto
      show ?thesis
        using True step rest [of r] rest [OF tail(2,1) [OF s(2,1)]] rest [OF tail(2,1), of r] p by (auto simp: Cons)
    next
      case False
      then have "name_char c" using less(2) Cons by (auto simp: name_char_def)
      then have "length (dropWhile name_char cs) \<le> length r" "set (dropWhile name_char cs) \<subseteq> set r"
        using length_dropWhile_le [of name_char r] by (auto simp: Cons dest: set_dropWhileD)
      then show ?thesis using False step rest by (simp add: Cons)
    qed
  qed
qed

text \<open>A NUL where a name should begin is read again and again.\<close>

lemma makePath_nul: "makePath_from ins (0 # r) args = None"
proof -
  have "cs \<noteq> 0 # r" if "makePath_from ins cs args = Some y" for cs args y
  proof (rule makePath_from.raw_induct [where P = "\<lambda>_ cs _ _. cs \<noteq> 0 # r", OF _ that])
    fix f :: "path_argument list \<Rightarrow> u8 list \<Rightarrow> path_argument list \<Rightarrow> path_argument list option" and ins cs args y
    assume IH: "\<And>ins cs args y. f ins cs args = Some y \<Longrightarrow> cs \<noteq> 0 # r"
    assume y: "(if cs = [] then Some args
      else if hd cs = ch CHR ''['' then
        (let current = tl cs;
             (args, current) =
               (if current \<noteq> [] \<and> hd current = ch CHR 0x25 then (addPathInArg ins True args, current)
                else case path_index current 0 of (i, current) \<Rightarrow> (args @ [kindIndex i], current))
         in f ins (tl current) args)
      else if hd cs = ch CHR 0x25 then f ins (tl cs) (addPathInArg ins False args)
      else if hd cs = ch CHR ''.'' then f ins (tl cs) args
      else f ins (dropWhile name_char cs) (args @ [key_argument (takeWhile name_char cs)])) = Some y"
    show "cs \<noteq> 0 # r"
    proof
      assume "cs = 0 # r"
      then have "f ins cs (args @ [key_argument []]) = Some y" using y by (simp add: name_char_def)
      then show False using IH \<open>cs = 0 # r\<close> by blast
    qed
  qed
  then show ?thesis by (metis not_Some_eq)
qed

text \<open>
  C24. Parsing a path: every path without a NUL is parsed to an end, and the text of a list of indices and names
  (not empty, without \<open>[\<close>, \<open>.\<close> and NUL, and not beginning with \<open>%\<close>) to that list; but a NUL where a name should
  begin makes the parser loop without end, and a \<open>%\<close> in brackets, which stands for an index given as
  argument, leaves the closing bracket to be taken for a name.
\<close>

theorem paths_parsed:
  "(0 \<notin> set p \<longrightarrow> makePath p ins \<noteq> None) \<and>
   (list_all path_part as \<longrightarrow> makePath (concat (map path_text as)) ins = Some as) \<and>
   (list_all path_part as \<longrightarrow> makePath (concat (map path_text as) @ 0 # p) ins = None) \<and>
   makePath (str ''.[%]'') [kindIndex i] = Some [kindIndex i, kindKey (str '']'')]"
proof (intro conjI impI)
  show "makePath (str ''.[%]'') [kindIndex i] = Some [kindIndex i, kindKey (str '']'')]"
    by (simp add: makePath_def str_def makePath_from.simps addPathInArg_def name_char_def key_argument_def)
  show "makePath p ins \<noteq> None" if "0 \<notin> set p" using makePath_ends [OF that] by (simp add: makePath_def)
  assume "list_all path_part as"
  then show "makePath (concat (map path_text as)) ins = Some as" "makePath (concat (map path_text as) @ 0 # p) ins = None"
    using parse_parts [of "[]" as ins "[]"] parse_parts [of "0 # p" as ins "[]"]
    by (simp_all add: makePath_def makePath_nul name_char_def makePath_from.simps [of ins "[]"])
qed

theorem paths_parsed_witness:
  "makePath (str ''[12].name'') [] = Some [kindIndex 12, kindKey (str ''name'')] \<and> makePath (str ''.[7'') [] \<noteq> None"
proof -
  have "concat (map path_text [kindIndex 12, kindKey (str ''name'')]) = str ''[12].name''"
    by (simp add: str_def decimal.simps [of 12] decimal.simps [of "Suc 0"])
  moreover have "list_all path_part [kindIndex 12, kindKey (str ''name'')]" by (simp add: str_def name_char_def)
  ultimately show ?thesis
    using paths_parsed [of "str ''.[7''" "[]" "[kindIndex 12, kindKey (str ''name'')]" 0] by (simp add: str_def)
qed

section \<open>What a path leads to\<close>

text \<open>Every map inside a value is in order, as a \<open>std::map\<close> always is.\<close>

fun value_sorted :: "jvalue \<Rightarrow> bool" where
  "value_sorted (VArray m) \<longleftrightarrow> map_sorted m \<and> list_all (\<lambda>p. value_sorted (snd p)) m"
| "value_sorted (VObject m) \<longleftrightarrow> map_sorted m \<and> list_all (\<lambda>p. value_sorted (snd p)) m"
| "value_sorted _ \<longleftrightarrow> True"

lemma touch_sorted:
  assumes "map_sorted m" "list_all (\<lambda>p. value_sorted (snd p)) m" "touch k m = (x, m')"
  shows "map_sorted m'" "value_sorted x" "map_find k m' = Some x"
proof -
  show "map_sorted m'" "map_find k m' = Some x"
    using assms by (auto simp: touch_def map_put_sorted map_find_put split: option.splits)
  show "value_sorted x"
    using assms(2,3) map_of_SomeD [of m k] by (auto simp: touch_def map_find_def list_all_iff split: option.splits)
qed

lemma put_sorted: "map_sorted m \<Longrightarrow> list_all (\<lambda>p. value_sorted (snd p)) m \<Longrightarrow> value_sorted x \<Longrightarrow>
    map_sorted (map_put k x m) \<and> list_all (\<lambda>p. value_sorted (snd p)) (map_put k x m)"
proof
  have "set (map_put k x m) \<subseteq> insert (k, x) (set m)" by (induction k x m rule: map_put.induct) auto
  then show "list_all (\<lambda>p. value_sorted (snd p)) (map_put k x m)"
    if "list_all (\<lambda>p. value_sorted (snd p)) m" "value_sorted x" using that by (auto simp: list_all_iff)
qed (rule map_put_sorted)

lemma parts_sorted:
  "value_sorted node \<Longrightarrow> array_items node = Some m \<Longrightarrow> map_sorted m \<and> list_all (\<lambda>p. value_sorted (snd p)) m"
  "value_sorted node \<Longrightarrow> object_members node = Some n \<Longrightarrow> map_sorted n \<and> list_all (\<lambda>p. value_sorted (snd p)) n"
  by (cases node; auto simp: array_items_def object_members_def)+

text \<open>One step: the child, and its place after an assignment.\<close>

lemma index_step:
  assumes "value_sorted node" "index_ref i node = Some (child, node')"
  shows "value_sorted child" "assign_index i x node' \<noteq> None"
    "assign_index i x node' = Some node'' \<Longrightarrow> index_at i node'' = Some x"
    "assign_index i x node' = Some node'' \<Longrightarrow> value_sorted x \<Longrightarrow> value_sorted node''"
proof -
  obtain m m' where m: "array_items node = Some m" "touch i m = (child, m')" "node' = VArray m'"
    using assms(2) by (cases "array_items node"; cases "touch i (the (array_items node))") (auto simp: index_ref_def)
  note s = parts_sorted(1) [OF assms(1) m(1)]
  note t = touch_sorted [OF conjunct1 [OF s] conjunct2 [OF s] m(2)]
  show "value_sorted child" by (rule t(2))
  have "touch i m' = (child, m')" using t(3) by (simp add: touch_def)
  then have a: "assign_index i x node' = Some (VArray (map_put i x m'))"
    by (simp add: assign_index_def index_ref_def array_items_def m(3))
  then show "assign_index i x node' \<noteq> None" by simp
  show "assign_index i x node' = Some node'' \<Longrightarrow> index_at i node'' = Some x"
    using a t(1) by (auto simp: index_at_def array_items_def map_find_put)
  have "list_all (\<lambda>p. value_sorted (snd p)) m'"
    using m(2) s put_sorted [of m VNull i] by (auto simp: touch_def split: option.splits)
  then show "assign_index i x node' = Some node'' \<Longrightarrow> value_sorted x \<Longrightarrow> value_sorted node''"
    using a t(1) put_sorted [of m' x i] by auto
qed

lemma key_step:
  assumes "value_sorted node" "resolveReference k node = Some (child, node')"
  shows "value_sorted child" "assign_member k x node' \<noteq> None"
    "assign_member k x node' = Some node'' \<Longrightarrow> member_at k node'' = Some x"
    "assign_member k x node' = Some node'' \<Longrightarrow> value_sorted x \<Longrightarrow> value_sorted node''"
proof -
  obtain m m' where m: "object_members node = Some m" "touch k m = (child, m')" "node' = VObject m'"
    using assms(2) by (cases "object_members node"; cases "touch k (the (object_members node))") (auto simp: resolveReference_def)
  note s = parts_sorted(2) [OF assms(1) m(1)]
  note t = touch_sorted [OF conjunct1 [OF s] conjunct2 [OF s] m(2)]
  show "value_sorted child" by (rule t(2))
  have "touch k m' = (child, m')" using t(3) by (simp add: touch_def)
  then have a: "assign_member k x node' = Some (VObject (map_put k x m'))"
    by (simp add: assign_member_def resolveReference_def object_members_def m(3))
  then show "assign_member k x node' \<noteq> None" by simp
  show "assign_member k x node' = Some node'' \<Longrightarrow> member_at k node'' = Some x"
    using a t(1) by (auto simp: member_at_def Value_find_def object_members_def map_find_put)
  have "list_all (\<lambda>p. value_sorted (snd p)) m'"
    using m(2) s put_sorted [of m VNull k] by (auto simp: touch_def split: option.splits)
  then show "assign_member k x node' = Some node'' \<Longrightarrow> value_sorted x \<Longrightarrow> value_sorted node''"
    using a t(1) put_sorted [of m' x k] by auto
qed

lemma path_make_resolve:
  "value_sorted node \<Longrightarrow> value_sorted x \<Longrightarrow> path_make as (\<lambda>_. x) node = Some node' \<Longrightarrow>
   path_resolve as node' = Some x \<and> value_sorted node'"
proof (induction as "\<lambda>_ :: jvalue. x" node arbitrary: node' rule: path_make.induct)
  case (2 i as node)
  then obtain child n1 c where r: "index_ref i node = Some (child, n1)" "path_make as (\<lambda>_. x) child = Some c" "assign_index i c n1 = Some node'"
    by (auto simp: bind_eq_Some_conv)
  then show ?case using 2(1) [OF r(1) refl _ 2(3) r(2)] index_step [OF 2(2) r(1)] by simp
next
  case (3 key as node)
  then obtain child n1 c where r: "resolveReference key node = Some (child, n1)" "path_make as (\<lambda>_. x) child = Some c" "assign_member key c n1 = Some node'"
    by (auto simp: bind_eq_Some_conv)
  then show ?case using 3(1) [OF r(1) refl _ 3(3) r(2)] key_step [OF 3(2) r(1)] by simp
qed simp_all

text \<open>From a null value every path can be made: what it passes through is null until then.\<close>

lemma path_make_null: "path_make as f VNull \<noteq> None"
proof (induction as)
  case (Cons a as)
  show ?case
  proof (cases a)
    case (kindIndex i)
    have r: "index_ref i VNull = Some (VNull, VArray [(i, VNull)])" by (simp add: index_ref_def array_items_def touch_def map_find_def)
    obtain c where "path_make as f VNull = Some c" using Cons by blast
    then show ?thesis using r index_step(2) [OF _ r, of c] by (simp add: kindIndex)
  next
    case (kindKey k)
    have r: "resolveReference k VNull = Some (VNull, VObject [(k, VNull)])" by (simp add: resolveReference_def object_members_def touch_def map_find_def)
    obtain c where "path_make as f VNull = Some c" using Cons by blast
    then show ?thesis using r key_step(2) [OF _ r, of c] by (simp add: kindKey)
  qed (use Cons in simp)
qed simp

text \<open>
  C23. What is assigned through \<open>Path::make\<close> is what \<open>Path::resolve\<close> then finds, whatever the value was before, and
  the maps inside stay in order; on a null value \<open>make\<close> creates every path, and never throws.
\<close>

theorem path_leads_to_value:
  assumes "value_sorted v0" "value_sorted x"
  shows "(path_make as (\<lambda>_. x) v0 = Some v1 \<longrightarrow> path_resolve as v1 = Some x \<and> value_sorted v1) \<and>
    (\<exists>v. path_make as (\<lambda>_. x) VNull = Some v \<and> path_resolve as v = Some x)"
proof -
  obtain v where v: "path_make as (\<lambda>_. x) VNull = Some v" using path_make_null by blast
  then show ?thesis using path_make_resolve [OF assms, of as v1] path_make_resolve [OF _ assms(2) v] by simp
qed

theorem path_leads_to_value_witness:
  "path_resolve [kindIndex 2, kindKey [97]] (VArray [(2, VObject [([97], VInt 7)])]) = Some (VInt 7)"
  using path_leads_to_value [of VNull "VInt 7" "[kindIndex 2, kindKey [97]]" "VArray [(2, VObject [([97], VInt 7)])]"]
  by (simp add: index_ref_def array_items_def touch_def map_find_def resolveReference_def object_members_def
      assign_index_def assign_member_def)

end
