(* ===== verification/Styled_Writer.thy ===== *)
theory Styled_Writer
  imports Value_Class
begin

text \<open>
  Values with their comments, and the class \<open>StyledWriter\<close> of \<^verbatim>\<open>src/stputil/json/jsoncpp.cc\<close>.

  Here the members of an object are the \<open>std::map\<close> itself, in its order, and an array is the list of its elements
  from 0 to its size.  A failed \<open>assert\<close> is \<open>Abort\<close>, an index outside a vector \<open>Fault\<close>.
\<close>

section \<open>Values with comments\<close>

datatype comment_placement = commentBefore | commentAfterOnSameLine | commentAfter

type_synonym comments = "comment_placement \<Rightarrow> u8 list option"

datatype cvalue =
    CNull comments
  | CInt comments int
  | CUInt comments int
  | CReal comments real
  | CString comments "u8 list"
  | CBool comments bool
  | CArray comments "cvalue list"
  | CObject comments "(u8 list \<times> cvalue) list"

fun comments_of :: "cvalue \<Rightarrow> comments" where
  "comments_of (CNull c) = c"
| "comments_of (CInt c _) = c"
| "comments_of (CUInt c _) = c"
| "comments_of (CReal c _) = c"
| "comments_of (CString c _) = c"
| "comments_of (CBool c _) = c"
| "comments_of (CArray c _) = c"
| "comments_of (CObject c _) = c"

fun with_comments :: "comments \<Rightarrow> cvalue \<Rightarrow> cvalue" where
  "with_comments c (CNull _) = CNull c"
| "with_comments c (CInt _ i) = CInt c i"
| "with_comments c (CUInt _ u) = CUInt c u"
| "with_comments c (CReal _ x) = CReal c x"
| "with_comments c (CString _ s) = CString c s"
| "with_comments c (CBool _ b) = CBool c b"
| "with_comments c (CArray _ vs) = CArray c vs"
| "with_comments c (CObject _ ms) = CObject c ms"

text \<open>A comment must start with a slash, and is kept without the newline at its end.\<close>

definition CommentInfo_setComment :: "u8 list \<Rightarrow> nat \<Rightarrow> u8 list option" where
  "CommentInfo_setComment comment len =
     (if comment = [] \<or> hd comment = 0 \<or> hd comment = ch CHR ''/'' then Some (take len comment) else None)"

definition setComment :: "u8 list \<Rightarrow> comment_placement \<Rightarrow> cvalue \<Rightarrow> cvalue option" where
  "setComment comment p v =
     (let len = length comment;
          len = (if len > 0 \<and> comment ! (len - 1) = 10 then len - 1 else len)
      in map_option (\<lambda>c. with_comments ((comments_of v)(p := Some c)) v) (CommentInfo_setComment comment len))"

definition hasComment :: "comment_placement \<Rightarrow> cvalue \<Rightarrow> bool" where
  "hasComment p v \<longleftrightarrow> comments_of v p \<noteq> None"

definition getComment :: "comment_placement \<Rightarrow> cvalue \<Rightarrow> u8 list" where
  "getComment p v = (case comments_of v p of Some c \<Rightarrow> takeWhile (\<lambda>c. c \<noteq> 0) c | None \<Rightarrow> [])"

text \<open>\<open>isArray\<close> or \<open>isObject\<close>, and a size above 0.\<close>

fun nested_value :: "cvalue \<Rightarrow> bool" where
  "nested_value (CArray _ vs) \<longleftrightarrow> vs \<noteq> []"
| "nested_value (CObject _ ms) \<longleftrightarrow> ms \<noteq> []"
| "nested_value _ \<longleftrightarrow> False"

section \<open>Quoted names\<close>

definition containsControlCharacter :: "u8 list \<Rightarrow> bool" where
  "containsControlCharacter s = list_ex isControlCharacter (takeWhile (\<lambda>c. c \<noteq> 0) s)"

definition quote_char0 :: "u8 \<Rightarrow> u8 list" where
  "quote_char0 c =
     (if c = ch CHR 0x22 then [ch CHR 0x5C, ch CHR 0x22]
      else if c = ch CHR 0x5C then [ch CHR 0x5C, ch CHR 0x5C]
      else if c = 8 then [ch CHR 0x5C, ch CHR ''b'']
      else if c = 12 then [ch CHR 0x5C, ch CHR ''f'']
      else if c = 10 then [ch CHR 0x5C, ch CHR ''n'']
      else if c = 13 then [ch CHR 0x5C, ch CHR ''r'']
      else if c = 9 then [ch CHR 0x5C, ch CHR ''t'']
      else if isControlCharacter c then
        [ch CHR 0x5C, ch CHR ''u'', ch CHR ''0'', ch CHR ''0'', hex_upper (c div 16), hex_upper (c mod 16)]
      else [c])"

text \<open>The argument is a C string, which ends at its first NUL.\<close>

definition valueToQuotedString :: "u8 list \<Rightarrow> u8 list" where
  "valueToQuotedString s =
     (let s = takeWhile (\<lambda>c. c \<noteq> 0) s
      in if \<not> list_ex (\<lambda>c. c \<in> {ch CHR 0x22, ch CHR 0x5C, 8, 12, 10, 13, 9}) s \<and> \<not> containsControlCharacter s
         then ch CHR 0x22 # s @ [ch CHR 0x22]
         else ch CHR 0x22 # concat (map quote_char0 s) @ [ch CHR 0x22])"

definition bool_text :: "bool \<Rightarrow> u8 list" where "bool_text b = (if b then str ''true'' else str ''false'')"

section \<open>StyledWriter\<close>

record indenter =
  childValues :: "u8 list list"
  document :: "u8 list"
  indentString :: "u8 list"
  addChildValues :: bool

definition rightMargin :: u32 where "rightMargin = 74"
definition indentSize :: nat where "indentSize = 3"

definition append_text :: "u8 list \<Rightarrow> 'a indenter_scheme \<Rightarrow> 'a indenter_scheme" where
  "append_text t s = s\<lparr>document := document s @ t\<rparr>"

definition pushValue :: "u8 list \<Rightarrow> 'a indenter_scheme \<Rightarrow> 'a indenter_scheme" where
  "pushValue t s = (if addChildValues s then s\<lparr>childValues := childValues s @ [t]\<rparr> else append_text t s)"

definition writeIndent :: "indenter \<Rightarrow> indenter" where
  "writeIndent s =
     (if document s \<noteq> [] \<and> last (document s) = ch CHR '' '' then s
      else
        let s = (if document s \<noteq> [] \<and> last (document s) \<noteq> 10 then append_text [10] s else s)
        in append_text (indentString s) s)"

definition writeWithIndent :: "u8 list \<Rightarrow> indenter \<Rightarrow> indenter" where
  "writeWithIndent t s = append_text t (writeIndent s)"

definition indent :: "indenter \<Rightarrow> indenter" where
  "indent s = s\<lparr>indentString := indentString s @ replicate indentSize (ch CHR '' '')\<rparr>"

definition unindent :: "indenter \<Rightarrow> indenter run" where
  "unindent s =
     (if length (indentString s) \<ge> indentSize
      then Ret (s\<lparr>indentString := take (length (indentString s) - indentSize) (indentString s)\<rparr>) else Abort)"

fun write_comment :: "u8 list \<Rightarrow> indenter \<Rightarrow> indenter" where
  "write_comment [] s = s"
| "write_comment (c # cs) s =
     (let s = append_text [c] s;
          s = (if c = 10 \<and> cs \<noteq> [] \<and> hd cs = ch CHR ''/'' then writeIndent s else s)
      in write_comment cs s)"

definition writeCommentBeforeValue :: "cvalue \<Rightarrow> indenter \<Rightarrow> indenter" where
  "writeCommentBeforeValue root_value s =
     (if \<not> hasComment commentBefore root_value then s
      else append_text [10] (write_comment (getComment commentBefore root_value) (writeIndent (append_text [10] s))))"

definition writeCommentAfterValueOnSameLine :: "cvalue \<Rightarrow> indenter \<Rightarrow> indenter" where
  "writeCommentAfterValueOnSameLine root_value s =
     (let s = (if hasComment commentAfterOnSameLine root_value
               then append_text (ch CHR '' '' # getComment commentAfterOnSameLine root_value) s else s)
      in if hasComment commentAfter root_value
         then append_text [10] (append_text (getComment commentAfter root_value) (append_text [10] s)) else s)"

definition hasCommentForValue :: "cvalue \<Rightarrow> bool" where
  "hasCommentForValue v \<longleftrightarrow> hasComment commentBefore v \<or> hasComment commentAfterOnSameLine v \<or> hasComment commentAfter v"

text \<open>The loop that writes the elements of an array on a single line.\<close>

fun join_values :: "u8 list \<Rightarrow> u8 list list \<Rightarrow> u8 list" where
  "join_values sep [] = []"
| "join_values sep [t] = t"
| "join_values sep (t # ts) = t @ sep @ join_values sep ts"

text \<open>
  \<open>write_members\<close> is the loop over the members of an object, \<open>write_elements\<close> the one over the elements of an
  array on several lines, and \<open>write_children\<close> the second one of \<open>isMultineArray\<close>.
\<close>

function (sequential) StyledWriter_writeValue :: "(real \<Rightarrow> u8 list) \<Rightarrow> cvalue \<Rightarrow> indenter \<Rightarrow> indenter run"
  and write_members :: "(real \<Rightarrow> u8 list) \<Rightarrow> (u8 list \<times> cvalue) list \<Rightarrow> indenter \<Rightarrow> indenter run"
  and writeArrayValue :: "(real \<Rightarrow> u8 list) \<Rightarrow> cvalue list \<Rightarrow> indenter \<Rightarrow> indenter run"
  and write_elements :: "(real \<Rightarrow> u8 list) \<Rightarrow> bool \<Rightarrow> nat \<Rightarrow> cvalue list \<Rightarrow> indenter \<Rightarrow> indenter run"
  and isMultineArray :: "(real \<Rightarrow> u8 list) \<Rightarrow> cvalue list \<Rightarrow> indenter \<Rightarrow> (bool \<times> indenter) run"
  and write_children :: "(real \<Rightarrow> u8 list) \<Rightarrow> nat \<Rightarrow> u32 \<Rightarrow> bool \<Rightarrow> cvalue list \<Rightarrow> indenter \<Rightarrow> (u32 \<times> bool \<times> indenter) run" where
  "StyledWriter_writeValue fmt (CNull _) s = Ret (pushValue (str ''null'') s)"
| "StyledWriter_writeValue fmt (CInt _ i) s = Ret (pushValue (valueToString_int i) s)"
| "StyledWriter_writeValue fmt (CUInt _ u) s = Ret (pushValue (valueToString_uint u) s)"
| "StyledWriter_writeValue fmt (CReal _ x) s = Ret (pushValue (valueToString_double fmt x) s)"
| "StyledWriter_writeValue fmt (CString _ t) s = Ret (pushValue (valueToQuotedStringN t) s)"
| "StyledWriter_writeValue fmt (CBool _ b) s = Ret (pushValue (bool_text b) s)"
| "StyledWriter_writeValue fmt (CArray _ vs) s = writeArrayValue fmt vs s"
| "StyledWriter_writeValue fmt (CObject _ ms) s =
     (if ms = [] then Ret (pushValue (str ''{}'') s)
      else
        run_bind (write_members fmt ms (indent (writeWithIndent (str ''{'') s))) (\<lambda>s.
        run_bind (unindent s) (\<lambda>s. Ret (writeWithIndent (str ''}'') s))))"
| "write_members fmt [] s = Ret s"
| "write_members fmt ((name, childValue) # ms) s =
     run_bind (StyledWriter_writeValue fmt childValue
       (append_text (str '' : '') (writeWithIndent (valueToQuotedString name) (writeCommentBeforeValue childValue s)))) (\<lambda>s.
     if ms = [] then Ret (writeCommentAfterValueOnSameLine childValue s)
     else write_members fmt ms (writeCommentAfterValueOnSameLine childValue (append_text (str '','') s)))"
| "writeArrayValue fmt vs s =
     (if vs = [] then Ret (pushValue (str ''[]'') s)
      else
        run_bind (isMultineArray fmt vs s) (\<lambda>(isArrayMultiLine, s).
        if isArrayMultiLine then
          let s = indent (writeWithIndent (str ''['') s)
          in run_bind (write_elements fmt (childValues s \<noteq> []) 0 vs s) (\<lambda>s.
             run_bind (unindent s) (\<lambda>s. Ret (writeWithIndent (str '']'') s)))
        else if length (childValues s) \<noteq> length vs then Abort
        else Ret (append_text (str ''[ '' @ join_values (str '', '') (childValues s) @ str '' ]'') s)))"
| "write_elements fmt hasChildValue i [] s = Ret s"
| "write_elements fmt hasChildValue i (childValue # vs) s =
     run_bind
       (let s = writeCommentBeforeValue childValue s
        in if hasChildValue then
             if i < length (childValues s) then Ret (writeWithIndent (childValues s ! i) s) else Fault
           else StyledWriter_writeValue fmt childValue (writeIndent s)) (\<lambda>s.
     if vs = [] then Ret (writeCommentAfterValueOnSameLine childValue s)
     else write_elements fmt hasChildValue (Suc i) vs (writeCommentAfterValueOnSameLine childValue (append_text (str '','') s)))"
| "isMultineArray fmt vs s =
     (let isMultiLine = (of_nat (length vs) * 3 \<ge> rightMargin \<or> list_ex nested_value vs);
          s = s\<lparr>childValues := []\<rparr>
      in if isMultiLine then Ret (True, s)
         else
           run_bind (write_children fmt 0 (4 + (of_nat (length vs) - 1) * 2) False vs (s\<lparr>addChildValues := True\<rparr>))
             (\<lambda>(lineLength, isMultiLine, s). Ret (isMultiLine \<or> lineLength \<ge> rightMargin, s\<lparr>addChildValues := False\<rparr>)))"
| "write_children fmt i lineLength isMultiLine [] s = Ret (lineLength, isMultiLine, s)"
| "write_children fmt i lineLength isMultiLine (v # vs) s =
     run_bind (StyledWriter_writeValue fmt v s) (\<lambda>s.
     if i < length (childValues s) then
       write_children fmt (Suc i) (lineLength + of_nat (length (childValues s ! i))) (isMultiLine \<or> hasCommentForValue v) vs s
     else Fault)"
  by pat_completeness auto
termination
  by (relation "measure (case_sum
      (case_sum (\<lambda>(_, v, _). 4 * size v) (case_sum (\<lambda>(_, ms, _). 4 * size_list (size_prod (\<lambda>_. 0) size) ms + 1) (\<lambda>(_, vs, _). 4 * size_list size vs + 3)))
      (case_sum (\<lambda>(_, _, _, vs, _). 4 * size_list size vs + 1) (case_sum (\<lambda>(_, vs, _). 4 * size_list size vs + 2) (\<lambda>(_, _, _, _, vs, _). 4 * size_list size vs + 1))))") auto

declare writeArrayValue.simps [simp del] isMultineArray.simps [simp del]

definition StyledWriter_write :: "(real \<Rightarrow> u8 list) \<Rightarrow> cvalue \<Rightarrow> indenter \<Rightarrow> (u8 list \<times> indenter) run" where
  "StyledWriter_write fmt v s =
     (let s = writeCommentBeforeValue v (s\<lparr>document := [], addChildValues := False, indentString := []\<rparr>)
      in run_bind (StyledWriter_writeValue fmt v s) (\<lambda>s.
         let s = append_text [10] (writeCommentAfterValueOnSameLine v s) in Ret (document s, s)))"

definition new_StyledWriter :: indenter where
  "new_StyledWriter = \<lparr>childValues = [], document = [], indentString = [], addChildValues = False\<rparr>"

definition toStyledString :: "(real \<Rightarrow> u8 list) \<Rightarrow> cvalue \<Rightarrow> u8 list run" where
  "toStyledString fmt v = run_bind (StyledWriter_write fmt v new_StyledWriter) (\<lambda>(t, _). Ret t)"

end
