(* ===== verification/Stream_Writer.thy ===== *)
theory Stream_Writer
  imports Styled_Writer
begin

text \<open>
  The classes \<open>StyledStreamWriter\<close>, \<open>BuiltStyledStreamWriter\<close> and \<open>StreamWriterBuilder\<close> of
  \<^verbatim>\<open>src/stputil/json/jsoncpp.cc\<close>.  The document is the stream that is written to.
\<close>

section \<open>StyledStreamWriter\<close>

record stream_writer = indenter +
  indentation :: "u8 list"
  indented :: bool

text \<open>These operations are the same in both classes, up to the test in the \<open>writeIndent\<close> of the second.\<close>

definition Stream_writeIndent :: "stream_writer \<Rightarrow> stream_writer" where
  "Stream_writeIndent s = append_text (10 # indentString s) s"

definition Stream_writeWithIndent :: "u8 list \<Rightarrow> stream_writer \<Rightarrow> stream_writer" where
  "Stream_writeWithIndent t s = (append_text t (if \<not> indented s then Stream_writeIndent s else s))\<lparr>indented := False\<rparr>"

definition Stream_indent :: "stream_writer \<Rightarrow> stream_writer" where
  "Stream_indent s = s\<lparr>indentString := indentString s @ indentation s\<rparr>"

definition Stream_unindent :: "stream_writer \<Rightarrow> stream_writer run" where
  "Stream_unindent s =
     (if length (indentString s) \<ge> length (indentation s)
      then Ret (s\<lparr>indentString := take (length (indentString s) - length (indentation s)) (indentString s)\<rparr>) else Abort)"

fun Stream_write_comment :: "u8 list \<Rightarrow> 'a stream_writer_scheme \<Rightarrow> 'a stream_writer_scheme" where
  "Stream_write_comment [] s = s"
| "Stream_write_comment (c # cs) s =
     Stream_write_comment cs (append_text (if c = 10 \<and> cs \<noteq> [] \<and> hd cs = ch CHR ''/'' then c # indentString s else [c]) s)"

definition Stream_writeCommentBeforeValue :: "cvalue \<Rightarrow> stream_writer \<Rightarrow> stream_writer" where
  "Stream_writeCommentBeforeValue root_value s =
     (if \<not> hasComment commentBefore root_value then s
      else (Stream_write_comment (getComment commentBefore root_value) (if \<not> indented s then Stream_writeIndent s else s))
        \<lparr>indented := False\<rparr>)"

definition Stream_writeCommentAfterValueOnSameLine :: "cvalue \<Rightarrow> stream_writer \<Rightarrow> stream_writer" where
  "Stream_writeCommentAfterValueOnSameLine root_value s =
     (let s = (if hasComment commentAfterOnSameLine root_value
               then append_text (ch CHR '' '' # getComment commentAfterOnSameLine root_value) s else s);
          s = (if hasComment commentAfter root_value
               then append_text (getComment commentAfter root_value) (Stream_writeIndent s) else s)
      in s\<lparr>indented := False\<rparr>)"

function (sequential) Stream_writeValue :: "(real \<Rightarrow> u8 list) \<Rightarrow> cvalue \<Rightarrow> stream_writer \<Rightarrow> stream_writer run"
  and Stream_write_members :: "(real \<Rightarrow> u8 list) \<Rightarrow> (u8 list \<times> cvalue) list \<Rightarrow> stream_writer \<Rightarrow> stream_writer run"
  and Stream_writeArrayValue :: "(real \<Rightarrow> u8 list) \<Rightarrow> cvalue list \<Rightarrow> stream_writer \<Rightarrow> stream_writer run"
  and Stream_write_elements :: "(real \<Rightarrow> u8 list) \<Rightarrow> bool \<Rightarrow> nat \<Rightarrow> cvalue list \<Rightarrow> stream_writer \<Rightarrow> stream_writer run"
  and Stream_isMultineArray :: "(real \<Rightarrow> u8 list) \<Rightarrow> cvalue list \<Rightarrow> stream_writer \<Rightarrow> (bool \<times> stream_writer) run"
  and Stream_write_children :: "(real \<Rightarrow> u8 list) \<Rightarrow> nat \<Rightarrow> u32 \<Rightarrow> bool \<Rightarrow> cvalue list \<Rightarrow> stream_writer \<Rightarrow> (u32 \<times> bool \<times> stream_writer) run" where
  "Stream_writeValue fmt (CNull _) s = Ret (pushValue (str ''null'') s)"
| "Stream_writeValue fmt (CInt _ i) s = Ret (pushValue (valueToString_int i) s)"
| "Stream_writeValue fmt (CUInt _ u) s = Ret (pushValue (valueToString_uint u) s)"
| "Stream_writeValue fmt (CReal _ x) s = Ret (pushValue (valueToString_double fmt x) s)"
| "Stream_writeValue fmt (CString _ t) s = Ret (pushValue (valueToQuotedStringN t) s)"
| "Stream_writeValue fmt (CBool _ b) s = Ret (pushValue (bool_text b) s)"
| "Stream_writeValue fmt (CArray _ vs) s = Stream_writeArrayValue fmt vs s"
| "Stream_writeValue fmt (CObject _ ms) s =
     (if ms = [] then Ret (pushValue (str ''{}'') s)
      else
        run_bind (Stream_write_members fmt ms (Stream_indent (Stream_writeWithIndent (str ''{'') s))) (\<lambda>s.
        run_bind (Stream_unindent s) (\<lambda>s. Ret (Stream_writeWithIndent (str ''}'') s))))"
| "Stream_write_members fmt [] s = Ret s"
| "Stream_write_members fmt ((name, childValue) # ms) s =
     run_bind (Stream_writeValue fmt childValue
       (append_text (str '' : '') (Stream_writeWithIndent (valueToQuotedString name) (Stream_writeCommentBeforeValue childValue s)))) (\<lambda>s.
     if ms = [] then Ret (Stream_writeCommentAfterValueOnSameLine childValue s)
     else Stream_write_members fmt ms (Stream_writeCommentAfterValueOnSameLine childValue (append_text (str '','') s)))"
| "Stream_writeArrayValue fmt vs s =
     (if vs = [] then Ret (pushValue (str ''[]'') s)
      else
        run_bind (Stream_isMultineArray fmt vs s) (\<lambda>(isArrayMultiLine, s).
        if isArrayMultiLine then
          let s = Stream_indent (Stream_writeWithIndent (str ''['') s)
          in run_bind (Stream_write_elements fmt (childValues s \<noteq> []) 0 vs s) (\<lambda>s.
             run_bind (Stream_unindent s) (\<lambda>s. Ret (Stream_writeWithIndent (str '']'') s)))
        else if length (childValues s) \<noteq> length vs then Abort
        else Ret (append_text (str ''[ '' @ join_values (str '', '') (childValues s) @ str '' ]'') s)))"
| "Stream_write_elements fmt hasChildValue i [] s = Ret s"
| "Stream_write_elements fmt hasChildValue i (childValue # vs) s =
     run_bind
       (let s = Stream_writeCommentBeforeValue childValue s
        in if hasChildValue then
             if i < length (childValues s) then Ret (Stream_writeWithIndent (childValues s ! i) s) else Fault
           else
             run_bind (Stream_writeValue fmt childValue ((if \<not> indented s then Stream_writeIndent s else s)\<lparr>indented := True\<rparr>))
               (\<lambda>s. Ret (s\<lparr>indented := False\<rparr>))) (\<lambda>s.
     if vs = [] then Ret (Stream_writeCommentAfterValueOnSameLine childValue s)
     else Stream_write_elements fmt hasChildValue (Suc i) vs (Stream_writeCommentAfterValueOnSameLine childValue (append_text (str '','') s)))"
| "Stream_isMultineArray fmt vs s =
     (let isMultiLine = (of_nat (length vs) * 3 \<ge> rightMargin \<or> list_ex nested_value vs);
          s = s\<lparr>childValues := []\<rparr>
      in if isMultiLine then Ret (True, s)
         else
           run_bind (Stream_write_children fmt 0 (4 + (of_nat (length vs) - 1) * 2) False vs (s\<lparr>addChildValues := True\<rparr>))
             (\<lambda>(lineLength, isMultiLine, s). Ret (isMultiLine \<or> lineLength \<ge> rightMargin, s\<lparr>addChildValues := False\<rparr>)))"
| "Stream_write_children fmt i lineLength isMultiLine [] s = Ret (lineLength, isMultiLine, s)"
| "Stream_write_children fmt i lineLength isMultiLine (v # vs) s =
     run_bind (Stream_writeValue fmt v s) (\<lambda>s.
     if i < length (childValues s) then
       Stream_write_children fmt (Suc i) (lineLength + of_nat (length (childValues s ! i))) (isMultiLine \<or> hasCommentForValue v) vs s
     else Fault)"
  by pat_completeness auto
termination
  by (relation "measure (case_sum
      (case_sum (\<lambda>(_, v, _). 4 * size v) (case_sum (\<lambda>(_, ms, _). 4 * size_list (size_prod (\<lambda>_. 0) size) ms + 1) (\<lambda>(_, vs, _). 4 * size_list size vs + 3)))
      (case_sum (\<lambda>(_, _, _, vs, _). 4 * size_list size vs + 1) (case_sum (\<lambda>(_, vs, _). 4 * size_list size vs + 2) (\<lambda>(_, _, _, _, vs, _). 4 * size_list size vs + 1))))") auto

declare Stream_writeArrayValue.simps [simp del] Stream_isMultineArray.simps [simp del]

definition new_StyledStreamWriter :: "u8 list \<Rightarrow> stream_writer" where
  "new_StyledStreamWriter spaces =
     \<lparr>childValues = [], document = [], indentString = [], addChildValues = False, indentation = spaces, indented = False\<rparr>"

definition StyledStreamWriter_write :: "(real \<Rightarrow> u8 list) \<Rightarrow> u8 list \<Rightarrow> cvalue \<Rightarrow> stream_writer \<Rightarrow> (u8 list \<times> stream_writer) run" where
  "StyledStreamWriter_write fmt out v s =
     (let s = Stream_writeCommentBeforeValue v (s\<lparr>document := out, addChildValues := False, indentString := [], indented := True\<rparr>);
          s = (if \<not> indented s then Stream_writeIndent s else s)\<lparr>indented := True\<rparr>
      in run_bind (Stream_writeValue fmt v s) (\<lambda>s.
         let s = append_text [10] (Stream_writeCommentAfterValueOnSameLine v s) in Ret (document s, s\<lparr>document := []\<rparr>)))"

section \<open>BuiltStyledStreamWriter\<close>

datatype comment_style = CommentNone | CommentMost | CommentAll

record built_writer = stream_writer +
  commentStyle :: comment_style
  colonSymbol :: "u8 list"
  nullSymbol :: "u8 list"
  endingLineFeedSymbol :: "u8 list"
  useSpecialFloats :: bool
  precision :: u32

definition Built_writeIndent :: "built_writer \<Rightarrow> built_writer" where
  "Built_writeIndent s = (if indentation s \<noteq> [] then append_text (10 # indentString s) s else s)"

definition Built_writeWithIndent :: "u8 list \<Rightarrow> built_writer \<Rightarrow> built_writer" where
  "Built_writeWithIndent t s = (append_text t (if \<not> indented s then Built_writeIndent s else s))\<lparr>indented := False\<rparr>"

definition Built_indent :: "built_writer \<Rightarrow> built_writer" where
  "Built_indent s = s\<lparr>indentString := indentString s @ indentation s\<rparr>"

definition Built_unindent :: "built_writer \<Rightarrow> built_writer run" where
  "Built_unindent s =
     (if length (indentString s) \<ge> length (indentation s)
      then Ret (s\<lparr>indentString := take (length (indentString s) - length (indentation s)) (indentString s)\<rparr>) else Abort)"

definition Built_writeCommentBeforeValue :: "cvalue \<Rightarrow> built_writer \<Rightarrow> built_writer" where
  "Built_writeCommentBeforeValue root_value s =
     (if commentStyle s = CommentNone \<or> \<not> hasComment commentBefore root_value then s
      else (Stream_write_comment (getComment commentBefore root_value) (if \<not> indented s then Built_writeIndent s else s))
        \<lparr>indented := False\<rparr>)"

definition Built_writeCommentAfterValueOnSameLine :: "cvalue \<Rightarrow> built_writer \<Rightarrow> built_writer" where
  "Built_writeCommentAfterValueOnSameLine root_value s =
     (if commentStyle s = CommentNone then s
      else
        let s = (if hasComment commentAfterOnSameLine root_value
                 then append_text (ch CHR '' '' # getComment commentAfterOnSameLine root_value) s else s)
        in if hasComment commentAfter root_value
           then append_text (getComment commentAfter root_value) (Built_writeIndent s) else s)"

function (sequential) Built_writeValue :: "(nat \<Rightarrow> real \<Rightarrow> u8 list) \<Rightarrow> cvalue \<Rightarrow> built_writer \<Rightarrow> built_writer run"
  and Built_write_members :: "(nat \<Rightarrow> real \<Rightarrow> u8 list) \<Rightarrow> (u8 list \<times> cvalue) list \<Rightarrow> built_writer \<Rightarrow> built_writer run"
  and Built_writeArrayValue :: "(nat \<Rightarrow> real \<Rightarrow> u8 list) \<Rightarrow> cvalue list \<Rightarrow> built_writer \<Rightarrow> built_writer run"
  and Built_write_elements :: "(nat \<Rightarrow> real \<Rightarrow> u8 list) \<Rightarrow> bool \<Rightarrow> nat \<Rightarrow> cvalue list \<Rightarrow> built_writer \<Rightarrow> built_writer run"
  and Built_isMultineArray :: "(nat \<Rightarrow> real \<Rightarrow> u8 list) \<Rightarrow> cvalue list \<Rightarrow> built_writer \<Rightarrow> (bool \<times> built_writer) run"
  and Built_write_children :: "(nat \<Rightarrow> real \<Rightarrow> u8 list) \<Rightarrow> nat \<Rightarrow> u32 \<Rightarrow> bool \<Rightarrow> cvalue list \<Rightarrow> built_writer \<Rightarrow> (u32 \<times> bool \<times> built_writer) run" where
  "Built_writeValue fmt (CNull _) s = Ret (pushValue (nullSymbol s) s)"
| "Built_writeValue fmt (CInt _ i) s = Ret (pushValue (valueToString_int i) s)"
| "Built_writeValue fmt (CUInt _ u) s = Ret (pushValue (valueToString_uint u) s)"
| "Built_writeValue fmt (CReal _ x) s = Ret (pushValue (valueToString_double (fmt (unat (precision s))) x) s)"
| "Built_writeValue fmt (CString _ t) s = Ret (pushValue (valueToQuotedStringN t) s)"
| "Built_writeValue fmt (CBool _ b) s = Ret (pushValue (bool_text b) s)"
| "Built_writeValue fmt (CArray _ vs) s = Built_writeArrayValue fmt vs s"
| "Built_writeValue fmt (CObject _ ms) s =
     (if ms = [] then Ret (pushValue (str ''{}'') s)
      else
        run_bind (Built_write_members fmt ms (Built_indent (Built_writeWithIndent (str ''{'') s))) (\<lambda>s.
        run_bind (Built_unindent s) (\<lambda>s. Ret (Built_writeWithIndent (str ''}'') s))))"
| "Built_write_members fmt [] s = Ret s"
| "Built_write_members fmt ((name, childValue) # ms) s =
     run_bind (Built_writeValue fmt childValue
       (append_text (colonSymbol s) (Built_writeWithIndent (valueToQuotedStringN name) (Built_writeCommentBeforeValue childValue s)))) (\<lambda>s.
     if ms = [] then Ret (Built_writeCommentAfterValueOnSameLine childValue s)
     else Built_write_members fmt ms (Built_writeCommentAfterValueOnSameLine childValue (append_text (str '','') s)))"
| "Built_writeArrayValue fmt vs s =
     (if vs = [] then Ret (pushValue (str ''[]'') s)
      else
        run_bind (if commentStyle s = CommentAll then Ret (True, s) else Built_isMultineArray fmt vs s) (\<lambda>(isArrayMultiLine, s).
        if isArrayMultiLine then
          let s = Built_indent (Built_writeWithIndent (str ''['') s)
          in run_bind (Built_write_elements fmt (childValues s \<noteq> []) 0 vs s) (\<lambda>s.
             run_bind (Built_unindent s) (\<lambda>s. Ret (Built_writeWithIndent (str '']'') s)))
        else if length (childValues s) \<noteq> length vs then Abort
        else (let sp = (if indentation s \<noteq> [] then str '' '' else [])
              in Ret (append_text (str ''['' @ sp @ join_values (ch CHR '','' # sp) (childValues s) @ sp @ str '']'') s))))"
| "Built_write_elements fmt hasChildValue i [] s = Ret s"
| "Built_write_elements fmt hasChildValue i (childValue # vs) s =
     run_bind
       (let s = Built_writeCommentBeforeValue childValue s
        in if hasChildValue then
             if i < length (childValues s) then Ret (Built_writeWithIndent (childValues s ! i) s) else Fault
           else
             run_bind (Built_writeValue fmt childValue ((if \<not> indented s then Built_writeIndent s else s)\<lparr>indented := True\<rparr>))
               (\<lambda>s. Ret (s\<lparr>indented := False\<rparr>))) (\<lambda>s.
     if vs = [] then Ret (Built_writeCommentAfterValueOnSameLine childValue s)
     else Built_write_elements fmt hasChildValue (Suc i) vs (Built_writeCommentAfterValueOnSameLine childValue (append_text (str '','') s)))"
| "Built_isMultineArray fmt vs s =
     (let isMultiLine = (of_nat (length vs) * 3 \<ge> rightMargin \<or> list_ex nested_value vs);
          s = s\<lparr>childValues := []\<rparr>
      in if isMultiLine then Ret (True, s)
         else
           run_bind (Built_write_children fmt 0 (4 + (of_nat (length vs) - 1) * 2) False vs (s\<lparr>addChildValues := True\<rparr>))
             (\<lambda>(lineLength, isMultiLine, s). Ret (isMultiLine \<or> lineLength \<ge> rightMargin, s\<lparr>addChildValues := False\<rparr>)))"
| "Built_write_children fmt i lineLength isMultiLine [] s = Ret (lineLength, isMultiLine, s)"
| "Built_write_children fmt i lineLength isMultiLine (v # vs) s =
     run_bind (Built_writeValue fmt v s) (\<lambda>s.
     if i < length (childValues s) then
       Built_write_children fmt (Suc i) (lineLength + of_nat (length (childValues s ! i))) (isMultiLine \<or> hasCommentForValue v) vs s
     else Fault)"
  by pat_completeness auto
termination
  by (relation "measure (case_sum
      (case_sum (\<lambda>(_, v, _). 4 * size v) (case_sum (\<lambda>(_, ms, _). 4 * size_list (size_prod (\<lambda>_. 0) size) ms + 1) (\<lambda>(_, vs, _). 4 * size_list size vs + 3)))
      (case_sum (\<lambda>(_, _, _, vs, _). 4 * size_list size vs + 1) (case_sum (\<lambda>(_, vs, _). 4 * size_list size vs + 2) (\<lambda>(_, _, _, _, vs, _). 4 * size_list size vs + 1))))") auto

declare Built_writeArrayValue.simps [simp del] Built_isMultineArray.simps [simp del]

definition new_BuiltStyledStreamWriter :: "u8 list \<Rightarrow> comment_style \<Rightarrow> u8 list \<Rightarrow> u8 list \<Rightarrow> u8 list \<Rightarrow> bool \<Rightarrow> u32 \<Rightarrow> built_writer" where
  "new_BuiltStyledStreamWriter spaces cs colon null ending usf pre =
     \<lparr>childValues = [], document = [], indentString = [], addChildValues = False, indentation = spaces, indented = False,
      commentStyle = cs, colonSymbol = colon, nullSymbol = null, endingLineFeedSymbol = ending, useSpecialFloats = usf, precision = pre\<rparr>"

definition Built_write :: "(nat \<Rightarrow> real \<Rightarrow> u8 list) \<Rightarrow> cvalue \<Rightarrow> u8 list \<Rightarrow> built_writer \<Rightarrow> (u8 list \<times> built_writer) run" where
  "Built_write fmt v sout s =
     (let s = Built_writeCommentBeforeValue v (s\<lparr>document := sout, addChildValues := False, indented := True, indentString := []\<rparr>);
          s = (if \<not> indented s then Built_writeIndent s else s)\<lparr>indented := True\<rparr>
      in run_bind (Built_writeValue fmt v s) (\<lambda>s.
         let s = Built_writeCommentAfterValueOnSameLine v s; s = append_text (endingLineFeedSymbol s) s
         in Ret (document s, s\<lparr>document := []\<rparr>)))"

section \<open>StreamWriterBuilder\<close>

text \<open>An exception is \<open>None\<close>: an unknown comment style, or a setting of a type that does not convert.\<close>

definition setting :: "json \<Rightarrow> string \<Rightarrow> json option" where
  "setting settings key = get_member settings (str key) NullValue"

definition newStreamWriter :: "(real \<Rightarrow> u8 list) \<Rightarrow> json \<Rightarrow> built_writer option" where
  "newStreamWriter fmt settings =
     do {
       indentation \<leftarrow> Option.bind (setting settings ''indentation'') (asString fmt);
       cs_str \<leftarrow> Option.bind (setting settings ''commentStyle'') (asString fmt);
       eyc \<leftarrow> Option.bind (setting settings ''enableYAMLCompatibility'') asBool;
       dnp \<leftarrow> Option.bind (setting settings ''dropNullPlaceholders'') asBool;
       usf \<leftarrow> Option.bind (setting settings ''useSpecialFloats'') asBool;
       pre \<leftarrow> Option.bind (setting settings ''precision'') asUInt;
       cs \<leftarrow> (if cs_str = str ''All'' then Some CommentAll else if cs_str = str ''None'' then Some CommentNone else None);
       let colonSymbol = (if eyc then str '': '' else if indentation = [] then str '':'' else str '' : '');
       let nullSymbol = (if dnp then [] else str ''null'');
       let pre = (word_of_int pre :: u32);
       let pre = (if pre > 17 then 17 else pre);
       Some (new_BuiltStyledStreamWriter indentation cs colonSymbol nullSymbol [] usf pre)
     }"

definition getValidWriterKeys :: "u8 list list" where
  "getValidWriterKeys =
     [str ''indentation'', str ''commentStyle'', str ''enableYAMLCompatibility'', str ''dropNullPlaceholders'',
      str ''useSpecialFloats'', str ''precision'']"

text \<open>\<open>operator[]\<close> and an assignment, on an object or a null.\<close>

fun set_member :: "u8 list \<Rightarrow> json \<Rightarrow> json \<Rightarrow> json option" where
  "set_member k x NullValue = Some (ObjectValue [(k, x)])"
| "set_member k x (ObjectValue ms) = Some (ObjectValue (put_member k x ms))"
| "set_member k x _ = None"

fun set_members :: "(u8 list \<times> json) list \<Rightarrow> json \<Rightarrow> json option" where
  "set_members [] v = Some v"
| "set_members ((k, x) # ms) v = Option.bind (set_member k x v) (set_members ms)"

fun json_size :: "json \<Rightarrow> nat" where
  "json_size (ArrayValue vs) = length vs"
| "json_size (ObjectValue ms) = length ms"
| "json_size _ = 0"

text \<open>\<open>invalid\<close> is the value behind the pointer, or a null.\<close>

definition StreamWriterBuilder_validate :: "json \<Rightarrow> json \<Rightarrow> (bool \<times> json) option" where
  "StreamWriterBuilder_validate settings invalid =
     (case settings of
        NullValue \<Rightarrow> Some (json_size invalid = 0, invalid)
      | ObjectValue ms \<Rightarrow>
          map_option (\<lambda>invalid. (json_size invalid = 0, invalid))
            (set_members (filter (\<lambda>(key, _). key \<notin> set getValidWriterKeys) (by_name ms)) invalid)
      | _ \<Rightarrow> None)"

definition StreamWriterBuilder_setDefaults :: "json \<Rightarrow> json option" where
  "StreamWriterBuilder_setDefaults settings =
     set_members
       [(str ''commentStyle'', StringValue (str ''All'')),
        (str ''indentation'', StringValue [9]),
        (str ''enableYAMLCompatibility'', BooleanValue False),
        (str ''dropNullPlaceholders'', BooleanValue False),
        (str ''useSpecialFloats'', BooleanValue False),
        (str ''precision'', IntValue 17)] settings"

definition new_StreamWriterBuilder :: "json option" where "new_StreamWriterBuilder = StreamWriterBuilder_setDefaults NullValue"

text \<open>Here an exception is an inner \<open>None\<close>.\<close>

definition writeString :: "(nat \<Rightarrow> real \<Rightarrow> u8 list) \<Rightarrow> json \<Rightarrow> cvalue \<Rightarrow> u8 list run option" where
  "writeString fmt settings v =
     map_option (\<lambda>writer. run_bind (Built_write fmt v [] writer) (\<lambda>(sout, _). Ret sout)) (newStreamWriter (fmt 17) settings)"

definition write_to_stream :: "(nat \<Rightarrow> real \<Rightarrow> u8 list) \<Rightarrow> u8 list \<Rightarrow> cvalue \<Rightarrow> u8 list run option" where
  "write_to_stream fmt sout v =
     do {
       settings \<leftarrow> new_StreamWriterBuilder;
       writer \<leftarrow> newStreamWriter (fmt 17) settings;
       Some (run_bind (Built_write fmt v sout writer) (\<lambda>(sout, _). Ret sout))
     }"

end
