(* ===== verification/Writer_Proof.thy ===== *)
theory Writer_Proof
  imports Stream_Writer
begin

text \<open>
  What the three indenting writers write is JSON.  The locale states what they have in common: loops over elements
  and members around operations that add white space.  The interpretations show it of each class, for values
  without comments.
\<close>

section \<open>Values without comments\<close>

definition no_comments :: comments where "no_comments = (\<lambda>_. None)"

fun plain :: "json \<Rightarrow> cvalue" where
  "plain NullValue = CNull no_comments"
| "plain (IntValue i) = CInt no_comments i"
| "plain (UIntValue u) = CUInt no_comments u"
| "plain (RealValue x) = CReal no_comments x"
| "plain (StringValue s) = CString no_comments s"
| "plain (BooleanValue b) = CBool no_comments b"
| "plain (ArrayValue vs) = CArray no_comments (map plain vs)"
| "plain (ObjectValue ms) = CObject no_comments (by_name (map (\<lambda>(k, v). (k, plain v)) ms))"

fun flat :: "json \<Rightarrow> bool" where
  "flat (ArrayValue vs) \<longleftrightarrow> vs = []"
| "flat (ObjectValue ms) \<longleftrightarrow> ms = []"
| "flat _ \<longleftrightarrow> True"

lemma plain_comments [simp]: "hasComment p (plain v) = False" "hasCommentForValue (plain v) = False"
  by (cases v; simp add: hasCommentForValue_def hasComment_def no_comments_def)+

lemma nested_plain [simp]: "nested_value (plain v) \<longleftrightarrow> \<not> flat v"
  by (cases v) (simp_all add: by_name_set)

lemma nested_plains [simp]: "list_ex nested_value (map plain vs) \<longleftrightarrow> \<not> list_all flat vs"
  by (induction vs) auto

text \<open>A predicate on all names in a value.\<close>

fun all_names :: "(u8 list \<Rightarrow> bool) \<Rightarrow> json \<Rightarrow> bool" where
  "all_names P (ArrayValue vs) \<longleftrightarrow> list_all (all_names P) vs"
| "all_names P (ObjectValue ms) \<longleftrightarrow> list_all (\<lambda>(k, v). P k \<and> all_names P v) ms"
| "all_names P _ \<longleftrightarrow> True"

section \<open>White space in texts\<close>

lemma ws_append: "ws v \<Longrightarrow> ws w \<Longrightarrow> ws (v @ w)"
  by (simp add: ws_def)

lemma ws_Nil: "ws []"
  by (simp add: ws_def)

lemma ws_behind:
  "json_text rd d v t \<Longrightarrow> True"
  "members_text rd d ms t \<Longrightarrow> ws w \<Longrightarrow> members_text rd d ms (t @ w)"
  "elements_text rd d vs t \<Longrightarrow> ws w \<Longrightarrow> elements_text rd d vs (t @ w)"
proof (induction rule: json_text_members_text_elements_text.inducts)
  case (element w1 d v t w2)
  then show ?case using json_text_members_text_elements_text.element [of w1 rd d v t "w2 @ w"] by (simp add: ws_append)
next
  case (elements w1 d v t w2 vs ts)
  then show ?case using json_text_members_text_elements_text.elements [of w1 rd d v t w2 vs "ts @ w"] by simp
next
  case (member w1 kt k w2 w3 d v t w4)
  then show ?case using json_text_members_text_elements_text.member [of w1 kt k w2 w3 rd d v t "w4 @ w"] by (simp add: ws_append)
next
  case (members w1 kt k w2 w3 d v t w4 ms ts)
  then show ?case using json_text_members_text_elements_text.members [of w1 kt k w2 w3 rd d v t w4 ms "ts @ w"] by simp
qed simp_all

lemma elements_joined:
  assumes "ws g" "vs \<noteq> []" "\<And>v. v \<in> set vs \<Longrightarrow> json_text rd d (f v) (t v)"
  shows "elements_text rd d (map f vs) (g @ join_values (ch CHR '','' # g) (map t vs) @ g)"
  using assms(2,3)
proof (induction vs rule: induct_list012)
  case (2 v)
  then show ?case using element [OF assms(1) _ assms(1), of rd d "f v" "t v"] by simp
next
  case (3 v v' vs)
  then show ?case
    using elements [OF assms(1) _ ws_Nil, of rd d "f v" "t v" "map f (v' # vs)" "g @ join_values (ch CHR '','' # g) (map t (v' # vs)) @ g"]
    by simp
qed simp

section \<open>Indenting writers\<close>

locale indenting_writer =
  fixes fmt :: "real \<Rightarrow> u8 list"
    and "value" :: "cvalue \<Rightarrow> 'a indenter_scheme \<Rightarrow> 'a indenter_scheme run"
    and "members" :: "(u8 list \<times> cvalue) list \<Rightarrow> 'a indenter_scheme \<Rightarrow> 'a indenter_scheme run"
    and "elements" :: "bool \<Rightarrow> nat \<Rightarrow> cvalue list \<Rightarrow> 'a indenter_scheme \<Rightarrow> 'a indenter_scheme run"
    and multiline :: "cvalue list \<Rightarrow> 'a indenter_scheme \<Rightarrow> (bool \<times> 'a indenter_scheme) run"
    and children :: "nat \<Rightarrow> u32 \<Rightarrow> bool \<Rightarrow> cvalue list \<Rightarrow> 'a indenter_scheme \<Rightarrow> (u32 \<times> bool \<times> 'a indenter_scheme) run"
    and with_indent :: "u8 list \<Rightarrow> 'a indenter_scheme \<Rightarrow> 'a indenter_scheme"
    and start :: "'a indenter_scheme \<Rightarrow> 'a indenter_scheme" and finish :: "'a indenter_scheme \<Rightarrow> 'a indenter_scheme"
    and after :: "'a indenter_scheme \<Rightarrow> 'a indenter_scheme"
    and enter :: "'a indenter_scheme \<Rightarrow> 'a indenter_scheme" and leave :: "'a indenter_scheme \<Rightarrow> 'a indenter_scheme run"
    and colon :: "'a indenter_scheme \<Rightarrow> u8 list" and gap :: "'a indenter_scheme \<Rightarrow> u8 list"
    and quote :: "u8 list \<Rightarrow> u8 list" and name_ok :: "u8 list \<Rightarrow> bool"
    and good :: "'a indenter_scheme \<Rightarrow> bool" and frame :: "'a indenter_scheme \<Rightarrow> 'f"
  assumes flat_value: "good s \<Longrightarrow> flat v \<Longrightarrow> value (plain v) s = Ret (pushValue (writeValue new_FastWriter fmt v) s)"
    and object_value: "ms \<noteq> [] \<Longrightarrow> value (CObject no_comments ms) s =
      run_bind (members ms (enter (with_indent (str ''{'') s))) (\<lambda>s. run_bind (leave s) (\<lambda>s. Ret (with_indent (str ''}'') s)))"
    and members_Cons: "members ((k, plain v) # ms) s =
      run_bind (value (plain v) (append_text (colon s) (with_indent (quote k) s))) (\<lambda>s.
      if ms = [] then Ret (after s) else members ms (after (append_text (str '','') s)))"
    and array_value: "vs \<noteq> [] \<Longrightarrow> value (CArray no_comments vs) s =
      run_bind (multiline vs s) (\<lambda>(m, s).
      if m then
        let s = enter (with_indent (str ''['') s)
        in run_bind (elements (childValues s \<noteq> []) 0 vs s) (\<lambda>s. run_bind (leave s) (\<lambda>s. Ret (with_indent (str '']'') s)))
      else if length (childValues s) \<noteq> length vs then Abort
      else Ret (append_text (ch CHR ''['' # gap s @ join_values (ch CHR '','' # gap s) (childValues s) @ gap s @ str '']'') s))"
    and elements_Cons: "elements h i (plain v # vs) s =
      run_bind (if h then if i < length (childValues s) then Ret (with_indent (childValues s ! i) s) else Fault
        else run_bind (value (plain v) (start s)) (\<lambda>s. Ret (finish s))) (\<lambda>s.
      if vs = [] then Ret (after s) else elements h (Suc i) vs (after (append_text (str '','') s)))"
    and multiline_cases: "good s \<Longrightarrow> \<exists>b l P. (\<not> list_all flat us \<longrightarrow> b) \<and> (b \<longrightarrow> good (s\<lparr>childValues := []\<rparr>)) \<and>
      (\<not> b \<longrightarrow> (\<forall>cv. good (s\<lparr>childValues := cv\<rparr>))) \<and>
      multiline (map plain us) s =
        (if b then Ret (True, s\<lparr>childValues := []\<rparr>)
         else run_bind (children 0 l False (map plain us) (s\<lparr>childValues := [], addChildValues := True\<rparr>))
           (\<lambda>(l, m, s). Ret (m \<or> P l, s\<lparr>addChildValues := False\<rparr>)))"
    and children_Nil: "children i l m [] s = Ret (l, m, s)"
    and children_Cons: "children i l m (plain v # vs) s =
      run_bind (value (plain v) s) (\<lambda>s.
      if i < length (childValues s) then children (Suc i) (l + of_nat (length (childValues s ! i))) m vs s else Fault)"
    and good_document: "good (s\<lparr>document := d\<rparr>) = good s" and good_add: "good (s\<lparr>addChildValues := b\<rparr>) = good s"
    and frame_document: "frame (s\<lparr>document := d\<rparr>) = frame s" and frame_children: "frame (s\<lparr>childValues := cv\<rparr>) = frame s"
    and frame_add: "frame (s\<lparr>addChildValues := b\<rparr>) = frame s"
    and with_indent: "good s \<Longrightarrow> good (with_indent t s) \<and> addChildValues (with_indent t s) = addChildValues s \<and>
      frame (with_indent t s) = frame s \<and> childValues (with_indent t s) = childValues s \<and>
      (\<exists>w. ws w \<and> document (with_indent t s) = document s @ w @ t)"
    and start: "good s \<Longrightarrow> good (start s) \<and> addChildValues (start s) = addChildValues s \<and> frame (start s) = frame s \<and>
      (\<exists>w. ws w \<and> document (start s) = document s @ w)"
    and finish: "good s \<Longrightarrow> good (finish s) \<and> addChildValues (finish s) = addChildValues s \<and> frame (finish s) = frame s \<and>
      document (finish s) = document s"
    and after: "good s \<Longrightarrow> good (after s) \<and> addChildValues (after s) = addChildValues s \<and> frame (after s) = frame s \<and>
      childValues (after s) = childValues s \<and> document (after s) = document s"
    and enter: "good s \<Longrightarrow> good (enter s) \<and> addChildValues (enter s) = addChildValues s \<and> document (enter s) = document s \<and>
      childValues (enter s) = childValues s"
    and leave: "good s \<Longrightarrow> good s0 \<Longrightarrow> frame s = frame (enter s0) \<Longrightarrow>
      \<exists>s'. leave s = Ret s' \<and> good s' \<and> addChildValues s' = addChildValues s \<and> frame s' = frame s0 \<and> document s' = document s"
    and colon: "good s \<Longrightarrow> \<exists>w2 w3. ws w2 \<and> ws w3 \<and> colon s = w2 @ ch CHR '':'' # w3"
    and gap: "ws (gap s)"
    and quote: "name_ok k \<Longrightarrow> \<exists>t. quote k = ch CHR 0x22 # t @ [ch CHR 0x22] \<and> string_chars t k"
begin

abbreviation idle where "idle s \<equiv> good s \<and> \<not> addChildValues s"

definition adds where
  "adds s t s' \<longleftrightarrow> idle s' \<and> frame s' = frame s \<and> (\<exists>w. ws w \<and> document s' = document s @ w @ t)"

lemma append_text [simp]: "good (append_text t s) = good s" "frame (append_text t s) = frame s"
  "addChildValues (append_text t s) = addChildValues s" "childValues (append_text t s) = childValues s"
  "document (append_text t s) = document s @ t"
  by (simp_all add: append_text_def good_document frame_document)

text \<open>The loops: each element, or member, adds its text.\<close>

lemma elements_loop:
  assumes "\<And>i s. i < length vs \<Longrightarrow> idle s \<Longrightarrow> (h \<longrightarrow> childValues s = cv) \<Longrightarrow> \<exists>s1 t.
    (if h then if i < length (childValues s) then Ret (with_indent (childValues s ! i) s) else Fault
     else run_bind (value (plain (vs ! i)) (start s)) (\<lambda>s. Ret (finish s))) = Ret s1 \<and>
    adds s t s1 \<and> (h \<longrightarrow> childValues s1 = cv) \<and> json_text rd d (f (vs ! i)) t"
  shows "vs = pre @ rest \<Longrightarrow> rest \<noteq> [] \<Longrightarrow> idle s \<Longrightarrow> (h \<longrightarrow> childValues s = cv) \<Longrightarrow>
    \<exists>s' ts. elements h (length pre) (map plain rest) s = Ret s' \<and> idle s' \<and> frame s' = frame s \<and>
      document s' = document s @ ts \<and> elements_text rd d (map f rest) ts"
proof (induction rest arbitrary: pre s)
  case (Cons v rest)
  have i: "length pre < length vs" "vs ! length pre = v" using Cons(2) by simp_all
  obtain s1 t w where b: "(if h then if length pre < length (childValues s) then Ret (with_indent (childValues s ! length pre) s) else Fault
     else run_bind (value (plain v) (start s)) (\<lambda>s. Ret (finish s))) = Ret s1"
    "idle s1" "frame s1 = frame s" "ws w" "document s1 = document s @ w @ t" "h \<longrightarrow> childValues s1 = cv" "json_text rd d (f v) t"
    using assms [OF i(1) Cons(4,5)] i(2) unfolding adds_def by auto
  show ?case
  proof (cases "rest = []")
    case True
    then show ?thesis
      using b after [of s1] element [OF b(4,7) ws_Nil]
      by (intro exI [of _ "after s1"] exI [of _ "w @ t"]) (simp add: elements_Cons del: if_split)
  next
    case False
    let ?s = "after (append_text (str '','') s1)"
    have s: "idle ?s" "frame ?s = frame s" "document ?s = document s @ w @ t @ str '',''" "h \<longrightarrow> childValues ?s = cv"
      using b(2,3,5,6) after [of "append_text (str '','') s1"] by auto
    obtain s' ts where r: "elements h (length (pre @ [v])) (map plain rest) ?s = Ret s'" "idle s'" "frame s' = frame s"
      "document s' = document ?s @ ts" "elements_text rd d (map f rest) ts"
      using Cons(1) [of "pre @ [v]" ?s] Cons(2) False s by auto
    then show ?thesis
      using b(1) s(3) False elements [OF b(4,7) ws_Nil r(5)]
      by (intro exI [of _ s'] exI [of _ "w @ t @ ch CHR '','' # ts"]) (simp add: elements_Cons str_def del: if_split)
  qed
qed simp

lemma members_loop:
  assumes "\<And>k v s. (k, v) \<in> set ms \<Longrightarrow> idle s \<Longrightarrow> name_ok k \<and> (\<exists>s' t. value (plain v) s = Ret s' \<and> adds s t s' \<and> json_text rd d (f v) t)"
  shows "ms \<noteq> [] \<Longrightarrow> idle s \<Longrightarrow>
    \<exists>s' ts. members (map (\<lambda>(k, v). (k, plain v)) ms) s = Ret s' \<and> idle s' \<and> frame s' = frame s \<and>
      document s' = document s @ ts \<and> members_text rd d (map (\<lambda>(k, v). (k, f v)) ms) ts"
  using assms
proof (induction ms arbitrary: s)
  case (Cons m ms)
  obtain k v where m: "m = (k, v)" by fastforce
  obtain w2 w3 where c: "ws w2" "ws w3" "colon s = w2 @ ch CHR '':'' # w3" using colon Cons(3) by blast
  obtain w where w: "ws w" "document (with_indent (quote k) s) = document s @ w @ quote k" using with_indent Cons(3) by blast
  let ?s0 = "append_text (colon s) (with_indent (quote k) s)"
  have s0: "idle ?s0" "frame ?s0 = frame s" using with_indent Cons(3) by auto
  have nv: "name_ok k \<and> (\<exists>s' t. value (plain v) ?s0 = Ret s' \<and> adds ?s0 t s' \<and> json_text rd d (f v) t)"
    by (rule Cons(4) [OF _ s0(1)]) (simp add: m)
  obtain kt where q: "quote k = ch CHR 0x22 # kt @ [ch CHR 0x22]" "string_chars kt k" using quote nv by blast
  obtain s1 t w1 where v: "value (plain v) ?s0 = Ret s1" "idle s1" "frame s1 = frame s" "ws w1"
    "document s1 = document ?s0 @ w1 @ t" "json_text rd d (f v) t"
    using nv s0(2) unfolding adds_def by auto
  have w31: "ws (w3 @ w1)" using c(2) v(4) by (rule ws_append)
  have d1: "document s1 = document s @ w @ ch CHR 0x22 # kt @ ch CHR 0x22 # w2 @ ch CHR '':'' # (w3 @ w1) @ t"
    using v(5) w(2) c(3) q(1) by simp
  show ?case
  proof (cases "ms = []")
    case True
    then show ?thesis
      using v d1 after [of s1] m member [OF w(1) q(2) c(1) w31 v(6) ws_Nil]
      by (intro exI [of _ "after s1"] exI [of _ "w @ ch CHR 0x22 # kt @ ch CHR 0x22 # w2 @ ch CHR '':'' # (w3 @ w1) @ t"])
        (simp add: members_Cons)
  next
    case False
    let ?s = "after (append_text (str '','') s1)"
    have s: "idle ?s" "frame ?s = frame s" "document ?s = document s1 @ str '',''"
      using v(2,3) after [of "append_text (str '','') s1"] by auto
    obtain s' ts where r: "members (map (\<lambda>(k, v). (k, plain v)) ms) ?s = Ret s'" "idle s'" "frame s' = frame s"
      "document s' = document ?s @ ts" "members_text rd d (map (\<lambda>(k, v). (k, f v)) ms) ts"
      using Cons(1) [OF False s(1) Cons(4) [OF list.set_intros(2)]] s(2) by auto
    then show ?thesis
      using v(1) s(3) d1 False m members [OF w(1) q(2) c(1) w31 v(6) ws_Nil r(5)]
      by (intro exI [of _ s'] exI [of _ "w @ ch CHR 0x22 # kt @ ch CHR 0x22 # w2 @ ch CHR '':'' # (w3 @ w1) @ t @ ch CHR '','' # ts"])
        (simp add: members_Cons str_def)
  qed
qed simp

text \<open>Before an array is written its flat elements are collected, if all are flat.\<close>

lemma children_collected:
  assumes "list_all flat vs" "\<And>cv. good (s\<lparr>childValues := cv\<rparr>)"
  shows "\<exists>l'. children (length (childValues s)) l m (map plain vs) (s\<lparr>addChildValues := True\<rparr>) =
    Ret (l', m, s\<lparr>childValues := childValues s @ map (writeValue new_FastWriter fmt) vs, addChildValues := True\<rparr>)"
  using assms
proof (induction vs arbitrary: s l)
  case (Cons v vs)
  let ?s = "s\<lparr>childValues := childValues s @ [writeValue new_FastWriter fmt v]\<rparr>"
  have g: "good (s\<lparr>addChildValues := True\<rparr>)" using Cons(3) [of "childValues s"] by (simp add: good_add)
  have v: "value (plain v) (s\<lparr>addChildValues := True\<rparr>) = Ret (?s\<lparr>addChildValues := True\<rparr>)"
    using flat_value [OF g] Cons(2) by (simp add: pushValue_def)
  have "good (?s\<lparr>childValues := cv\<rparr>)" for cv using Cons(3) [of cv] by simp
  then show ?case using Cons(1) [of ?s] Cons(2) by (simp add: children_Cons v)
qed (simp add: children_Nil)

lemma multiline_result:
  assumes "idle s"
  shows "\<exists>m s0. multiline (map plain vs) s = Ret (m, s0) \<and> idle s0 \<and> frame s0 = frame s \<and> document s0 = document s \<and>
    (m \<and> childValues s0 = [] \<or> list_all flat vs \<and> childValues s0 = map (writeValue new_FastWriter fmt) vs)"
proof -
  obtain b l P where b: "\<not> list_all flat vs \<longrightarrow> b" "b \<longrightarrow> good (s\<lparr>childValues := []\<rparr>)" "\<not> b \<longrightarrow> (\<forall>cv. good (s\<lparr>childValues := cv\<rparr>))"
    "multiline (map plain vs) s =
        (if b then Ret (True, s\<lparr>childValues := []\<rparr>)
         else run_bind (children 0 l False (map plain vs) (s\<lparr>childValues := [], addChildValues := True\<rparr>))
           (\<lambda>(l, m, s). Ret (m \<or> P l, s\<lparr>addChildValues := False\<rparr>)))"
    using multiline_cases [OF conjunct1 [OF assms], of vs] by (elim conjE exE)
  show ?thesis
  proof (cases b)
    case True
    then show ?thesis using b assms by (intro exI [of _ True] exI [of _ "s\<lparr>childValues := []\<rparr>"]) (simp add: frame_children)
  next
    case False
    let ?s = "s\<lparr>childValues := []\<rparr>"
    obtain l' where c: "children 0 l False (map plain vs) (?s\<lparr>addChildValues := True\<rparr>) =
      Ret (l', False, ?s\<lparr>childValues := map (writeValue new_FastWriter fmt) vs, addChildValues := True\<rparr>)"
      using children_collected [of vs ?s l False] b(1,3) False by auto
    show ?thesis using b False c assms by (simp add: frame_children frame_add good_add)
  qed
qed

lemma array_text:
  assumes "vs \<noteq> []" "idle s" "\<And>v s. v \<in> set vs \<Longrightarrow> idle s \<Longrightarrow> \<exists>s' t. value (plain v) s = Ret s' \<and> adds s t s' \<and> json_text rd d (f v) t"
    and flat_text: "\<And>v. v \<in> set vs \<Longrightarrow> flat v \<Longrightarrow> json_text rd d (f v) (writeValue new_FastWriter fmt v)"
  shows "\<exists>s' t. value (plain (ArrayValue vs)) s = Ret s' \<and> adds s t s' \<and> json_text rd (Suc d) (ArrayValue (map f vs)) t"
proof -
  obtain m s0 where m: "multiline (map plain vs) s = Ret (m, s0)" "idle s0" "frame s0 = frame s" "document s0 = document s"
    "m \<and> childValues s0 = [] \<or> list_all flat vs \<and> childValues s0 = map (writeValue new_FastWriter fmt) vs"
    using multiline_result [OF assms(2)] by blast
  show ?thesis
  proof (cases m)
    case False
    let ?t = "ch CHR ''['' # (gap s0 @ join_values (ch CHR '','' # gap s0) (map (writeValue new_FastWriter fmt) vs) @ gap s0) @ [ch CHR '']'']"
    have "json_text rd (Suc d) (ArrayValue (map f vs)) ?t"
      using m(5) False by (intro text_array elements_joined gap assms(1) flat_text) (auto simp: list_all_iff)
    moreover have "value (plain (ArrayValue vs)) s = Ret (append_text ?t s0)"
      using m False assms(1) by (auto simp: array_value str_def)
    ultimately show ?thesis using m(2-4) unfolding adds_def by (intro exI [of _ "append_text ?t s0"] exI [of _ ?t]) (auto simp: ws_Nil intro: exI [of _ "[]"])
  next
    case True
    let ?s = "enter (with_indent (str ''['') s0)" and ?h = "childValues s0 \<noteq> []"
    obtain w where w: "ws w" "document ?s = document s @ w @ str ''[''" using with_indent [of s0 "str ''[''"] enter m(2,4) by fastforce
    have s: "idle ?s" "childValues ?s = childValues s0" "good (with_indent (str ''['') s0)" "frame (with_indent (str ''['') s0) = frame s"
      using with_indent [of s0] enter m(2,3) by auto
    have body: "\<exists>s1 t. (if ?h then if i < length (childValues z) then Ret (with_indent (childValues z ! i) z) else Fault
       else run_bind (value (plain (vs ! i)) (start z)) (\<lambda>s. Ret (finish s))) = Ret s1 \<and>
      adds z t s1 \<and> (?h \<longrightarrow> childValues s1 = childValues s0) \<and> json_text rd d (f (vs ! i)) t"
      if i: "i < length vs" and z: "idle z" "?h \<longrightarrow> childValues z = childValues s0" for i z
    proof (cases ?h)
      case True
      then have c: "list_all flat vs" "childValues z = map (writeValue new_FastWriter fmt) vs" using m(5) z(2) by auto
      then show ?thesis
        using True i z(1) with_indent [of z "childValues z ! i"] flat_text [of "vs ! i"] z(2)
        by (intro exI [of _ "with_indent (childValues z ! i) z"] exI [of _ "childValues z ! i"]) (auto simp: adds_def list_all_iff)
    next
      case False
      obtain w' where w': "idle (start z)" "frame (start z) = frame z" "ws w'" "document (start z) = document z @ w'"
        using start z(1) by blast
      obtain s1 t w1 where v: "value (plain (vs ! i)) (start z) = Ret s1" "idle s1" "frame s1 = frame z" "ws w1"
        "document s1 = document z @ (w' @ w1) @ t" "json_text rd d (f (vs ! i)) t"
        using assms(3) [of "vs ! i" "start z"] i w' unfolding adds_def by auto
      then show ?thesis
        using False finish [of s1] ws_append [OF w'(3) v(4)] unfolding adds_def
        by (intro exI [of _ "finish s1"] exI [of _ t]) auto
    qed
    obtain s1 ts where e: "elements ?h 0 (map plain vs) ?s = Ret s1" "idle s1" "frame s1 = frame ?s"
      "document s1 = document ?s @ ts" "elements_text rd d (map f vs) ts"
      using elements_loop [of vs ?h "childValues s0" rd d f "[]" vs ?s] body assms(1) s by auto
    obtain s2 where l: "leave s1 = Ret s2" "idle s2" "frame s2 = frame s" "document s2 = document s1"
      using leave [of s1 "with_indent (str ''['') s0"] e s by auto
    obtain w' where w': "ws w'" "document (with_indent (str '']'') s2) = document s2 @ w' @ str '']''"
      "idle (with_indent (str '']'') s2)" "frame (with_indent (str '']'') s2) = frame s"
      using with_indent [of s2 "str '']''"] l(2,3) by auto
    have "value (plain (ArrayValue vs)) s = Ret (with_indent (str '']'') s2)"
      using m(1) True assms(1) e(1) l(1) s(2) by (simp add: array_value Let_def)
    moreover have "json_text rd (Suc d) (ArrayValue (map f vs)) (ch CHR ''['' # (ts @ w') @ [ch CHR '']''])"
      using e(5) w'(1) by (intro text_array ws_behind(3))
    ultimately show ?thesis
      using w w'(2-4) e(4) l(4) unfolding adds_def
      by (intro exI [of _ "with_indent (str '']'') s2"] exI [of _ "ch CHR ''['' # (ts @ w') @ [ch CHR '']'']"]) (auto simp: str_def)
  qed
qed

lemma object_text:
  assumes "ms \<noteq> []" "idle s" "distinct (map fst ms)"
    and "\<And>k v s. (k, v) \<in> set ms \<Longrightarrow> idle s \<Longrightarrow> name_ok k \<and> (\<exists>s' t. value (plain v) s = Ret s' \<and> adds s t s' \<and> json_text rd d (f v) t)"
  shows "\<exists>s' t. value (plain (ObjectValue ms)) s = Ret s' \<and> adds s t s' \<and>
    json_text rd (Suc d) (ObjectValue (by_name (map (\<lambda>(k, v). (k, f v)) ms))) t"
proof -
  let ?s = "enter (with_indent (str ''{'') s)" and ?ms = "map (\<lambda>(k, v). (k, f v)) (by_name ms)"
  have n: "by_name ms \<noteq> []" using assms(1) by (simp add: by_name_set)
  obtain w where w: "ws w" "document ?s = document s @ w @ str ''{''" using with_indent [of s "str ''{''"] enter assms(2) by fastforce
  have s: "idle ?s" "good (with_indent (str ''{'') s)" "frame (with_indent (str ''{'') s) = frame s"
    using with_indent [of s] enter assms(2) by auto
  obtain s1 ts where m: "members (map (\<lambda>(k, v). (k, plain v)) (by_name ms)) ?s = Ret s1" "idle s1" "frame s1 = frame ?s"
    "document s1 = document ?s @ ts" "members_text rd d ?ms ts"
    using members_loop [OF assms(4) n s(1)] by (auto simp: by_name_set)
  obtain s2 where l: "leave s1 = Ret s2" "idle s2" "frame s2 = frame s" "document s2 = document s1"
    using leave [of s1 "with_indent (str ''{'') s"] m s by auto
  obtain w' where w': "ws w'" "document (with_indent (str ''}'') s2) = document s2 @ w' @ str ''}''"
    "idle (with_indent (str ''}'') s2)" "frame (with_indent (str ''}'') s2) = frame s"
    using with_indent [of s2 "str ''}''"] l(2,3) by auto
  have v: "value (plain (ObjectValue ms)) s = Ret (with_indent (str ''}'') s2)"
    using m(1) l(1) n by (simp add: object_value by_name_map)
  have "distinct (map fst ?ms)" using assms(3) by_name_set(2) [of ms] by (simp add: comp_def case_prod_unfold)
  then have keys: "fold (\<lambda>(k, v). put_member k v) ?ms [] = by_name (map (\<lambda>(k, v). (k, f v)) ms)"
    using fold_put_distinct [of "[]" ?ms] by (simp add: by_name_map)
  have t: "json_text rd (Suc d) (ObjectValue (by_name (map (\<lambda>(k, v). (k, f v)) ms))) (ch CHR ''{'' # (ts @ w') @ [ch CHR ''}''])"
    unfolding keys [symmetric] using m(5) w'(1) by (intro text_object ws_behind(2))
  have a: "adds s (ch CHR ''{'' # (ts @ w') @ [ch CHR ''}'']) (with_indent (str ''}'') s2)"
    unfolding adds_def using w(1) w'(3,4) unfolding w'(2) l(4) m(4) w(2) by (auto simp: str_def intro: exI [of _ w])
  show ?thesis using v a t by blast
qed

lemma flat_case:
  assumes "double_laws rd fmt nrm" "flat v" "json_depth v \<le> d" "json_typed v" "idle s"
  shows "\<exists>s' t. value (plain v) s = Ret s' \<and> adds s t s' \<and> json_text rd d (reread nrm v) t"
  using assms flat_value [of s v] written_text [OF assms(1) _ assms(3,4), of new_FastWriter]
  by (intro exI [of _ "append_text (writeValue new_FastWriter fmt v) s"] exI [of _ "writeValue new_FastWriter fmt v"])
    (auto simp: pushValue_def adds_def new_FastWriter_def ws_Nil intro: exI [of _ "[]"])

lemma value_text:
  assumes "double_laws rd fmt nrm"
  shows "json_depth v \<le> d \<Longrightarrow> json_typed v \<Longrightarrow> all_names name_ok v \<Longrightarrow> idle s \<Longrightarrow>
    \<exists>s' t. value (plain v) s = Ret s' \<and> adds s t s' \<and> json_text rd d (reread nrm v) t"
proof (induction v arbitrary: d s)
  case (ArrayValue vs)
  then obtain d' where d: "d = Suc d'" by (cases d) auto
  have dep: "json_depth v \<le> d'" if "v \<in> set vs" for v
    using foldr_max_ge [of "json_depth v" "map json_depth vs"] that ArrayValue(2) d by simp
  show ?case
  proof (cases "vs = []")
    case True
    then show ?thesis using flat_case [OF assms, of "ArrayValue vs"] ArrayValue(2-) by simp
  next
    case False
    show ?thesis
      unfolding d reread.simps
      by (rule array_text [OF False ArrayValue(5)])
        (use ArrayValue(1,3,4) dep written_text [OF assms, of new_FastWriter] in \<open>auto simp: list_all_iff new_FastWriter_def\<close>)
  qed
next
  case (ObjectValue ms)
  then obtain d' where d: "d = Suc d'" by (cases d) auto
  have dep: "json_depth v \<le> d'" if "(k, v) \<in> set ms" for k v
    using foldr_max_ge [of "json_depth v" "map (\<lambda>(k, v). json_depth v) ms"] that ObjectValue(2) d by force
  show ?case
  proof (cases "ms = []")
    case True
    then show ?thesis using flat_case [OF assms, of "ObjectValue ms"] ObjectValue(2-) by simp
  next
    case False
    have IH: "name_ok k \<and> (\<exists>s' t. value (plain v) s = Ret s' \<and> adds s t s' \<and> json_text rd d' (reread nrm v) t)"
      if "(k, v) \<in> set ms" "idle s" for k v s
    proof -
      have "json_typed v" "name_ok k" "all_names name_ok v" using ObjectValue(3,4) that(1) by (auto simp: list_all_iff)
      then show ?thesis using ObjectValue(1) [OF that(1), of v d' s] that(2) dep [OF that(1)] by simp
    qed
    show ?thesis unfolding d reread.simps by (rule object_text [OF False ObjectValue(5) _ IH]) (use ObjectValue(3) in simp)
  qed
qed (rule flat_case [OF assms], simp, assumption, assumption, assumption)+

end

section \<open>The classes\<close>

lemma plain_comment_text [simp]:
  "writeCommentBeforeValue (plain v) s = s" "writeCommentAfterValueOnSameLine (plain v) s = s"
  "Stream_writeCommentBeforeValue (plain v) t = t" "Stream_writeCommentAfterValueOnSameLine (plain v) t = t\<lparr>indented := False\<rparr>"
  "Built_writeCommentBeforeValue (plain v) u = u" "Built_writeCommentAfterValueOnSameLine (plain v) u = u"
  by (simp_all add: writeCommentBeforeValue_def writeCommentAfterValueOnSameLine_def Stream_writeCommentBeforeValue_def
      Stream_writeCommentAfterValueOnSameLine_def Built_writeCommentBeforeValue_def Built_writeCommentAfterValueOnSameLine_def)

lemma flat_texts:
  "writeValue new_FastWriter fmt NullValue = str ''null''" "writeValue new_FastWriter fmt (BooleanValue b) = bool_text b"
  "writeValue new_FastWriter fmt (ArrayValue []) = str ''[]''" "writeValue new_FastWriter fmt (ObjectValue []) = str ''{}''"
  by (simp_all add: new_FastWriter_def bool_text_def str_def by_name_def)

lemma single_line: "str ''[ '' = ch CHR ''['' # str '' ''" "str '', '' = ch CHR '','' # str '' ''" "str '' ]'' = str '' '' @ str '']''"
  "str ''['' = [ch CHR ''['']"
  by (simp_all add: str_def)

lemma spaces: "ws (replicate n 32)"
  by (simp add: ws_def json_space_def list_all_iff)

lemma newline_space: "ws (10 # w) \<longleftrightarrow> ws w" "ws (str '' '')"
  by (simp_all add: ws_def json_space_def str_def)

lemma quoted_name:
  assumes "0 \<notin> set k"
  shows "\<exists>t. valueToQuotedString k = ch CHR 0x22 # t @ [ch CHR 0x22] \<and> string_chars t k"
proof -
  have k: "takeWhile (\<lambda>c. c \<noteq> 0) k = k" using assms by (auto simp: takeWhile_eq_all_conv)
  have "containsControlCharacter0 k = containsControlCharacter k"
    using assms by (auto simp: containsControlCharacter0_def containsControlCharacter_def k list_ex_iff)
  moreover have "concat (map quote_char0 k) = concat (map quote_char k)" using assms by (induction k) (auto simp: quote_char0_def quote_char_def)
  ultimately have "valueToQuotedString k = valueToQuotedStringN k"
    unfolding valueToQuotedString_def valueToQuotedStringN_def Let_def k by (simp only:)
  then show ?thesis using quoted_text by simp
qed

lemma spaced_colon: "\<exists>w2 w3. ws w2 \<and> ws w3 \<and> str '' : '' = w2 @ ch CHR '':'' # w3"
  by (rule exI [of _ "str '' ''"], rule exI [of _ "str '' ''"]) (simp add: ws_def json_space_def str_def)

lemma writeIndent_space:
  assumes "ws (indentString s)"
  shows "\<exists>w. ws w \<and> document (writeIndent s) = document s @ w"
  using assms ws_Nil newline_space(1) by (auto simp: writeIndent_def append_text_def Let_def)

lemma writeIndent_fields [simp]: "indentString (writeIndent s) = indentString s" "childValues (writeIndent s) = childValues s"
  "addChildValues (writeIndent s) = addChildValues s"
  by (simp_all add: writeIndent_def append_text_def Let_def)

interpretation styled: indenting_writer fmt "StyledWriter_writeValue fmt" "write_members fmt" "write_elements fmt" "isMultineArray fmt"
  "write_children fmt" writeWithIndent writeIndent "\<lambda>s. s" "\<lambda>s. s" indent unindent "\<lambda>_. str '' : ''" "\<lambda>_. str '' ''"
  valueToQuotedString "\<lambda>k. 0 \<notin> set k" "\<lambda>s. ws (indentString s)" indentString
  for fmt
proof unfold_locales
  show "StyledWriter_writeValue fmt (plain v) s = Ret (pushValue (writeValue new_FastWriter fmt v) s)" if "flat v" for v s
    using that by (cases v) (simp_all only: plain.simps flat.simps StyledWriter_writeValue.simps flat_texts; simp add: writeArrayValue.simps by_name_def)+
  show "\<exists>b l P. (\<not> list_all flat us \<longrightarrow> b) \<and> (b \<longrightarrow> ws (indentString (s\<lparr>childValues := []\<rparr>))) \<and>
      (\<not> b \<longrightarrow> (\<forall>cv. ws (indentString (s\<lparr>childValues := cv\<rparr>)))) \<and>
      isMultineArray fmt (map plain us) s =
        (if b then Ret (True, s\<lparr>childValues := []\<rparr>)
         else run_bind (write_children fmt 0 l False (map plain us) (s\<lparr>childValues := [], addChildValues := True\<rparr>))
           (\<lambda>(l, m, s). Ret (m \<or> P l, s\<lparr>addChildValues := False\<rparr>)))"
    if "ws (indentString s)" for us s
    using that
    by (intro exI [of _ "of_nat (length us) * 3 \<ge> rightMargin \<or> \<not> list_all flat us"] exI [of _ "4 + (of_nat (length us) - 1) * 2"]
        exI [of _ "\<lambda>l. l \<ge> rightMargin"]) (simp add: isMultineArray.simps)
  show "\<exists>w2 w3. ws w2 \<and> ws w3 \<and> str '' : '' = w2 @ ch CHR '':'' # w3" by (rule spaced_colon)
  show "\<exists>t. valueToQuotedString k = ch CHR 0x22 # t @ [ch CHR 0x22] \<and> string_chars t k" if "0 \<notin> set k" for k
    using that by (rule quoted_name)
qed (simp_all cong: if_cong add: writeArrayValue.simps single_line spaces newline_space writeIndent_space writeWithIndent_def
    append_text_def indent_def unindent_def ws_append)

abbreviation stream_good where "stream_good s \<equiv> ws (indentString s) \<and> ws (indentation s)"

abbreviation stream_frame where "stream_frame s \<equiv> (indentString s, indentation s)"

abbreviation Stream_start where "Stream_start s \<equiv> (if \<not> indented s then Stream_writeIndent s else s)\<lparr>indented := True\<rparr>"

lemma Stream_writeIndent_fields [simp]: "indentString (Stream_writeIndent s) = indentString s" "childValues (Stream_writeIndent s) = childValues s"
  "addChildValues (Stream_writeIndent s) = addChildValues s" "indentation (Stream_writeIndent s) = indentation s"
  "document (Stream_writeIndent s) = document s @ 10 # indentString s"
  by (simp_all add: Stream_writeIndent_def append_text_def)

interpretation styled_stream: indenting_writer fmt "Stream_writeValue fmt" "Stream_write_members fmt" "Stream_write_elements fmt"
  "Stream_isMultineArray fmt" "Stream_write_children fmt" Stream_writeWithIndent Stream_start "\<lambda>s. s\<lparr>indented := False\<rparr>"
  "\<lambda>s. s\<lparr>indented := False\<rparr>" Stream_indent Stream_unindent "\<lambda>_. str '' : ''" "\<lambda>_. str '' ''"
  valueToQuotedString "\<lambda>k. 0 \<notin> set k" stream_good stream_frame
  for fmt
proof unfold_locales
  show "Stream_writeValue fmt (plain v) s = Ret (pushValue (writeValue new_FastWriter fmt v) s)" if "flat v" for v s
    using that by (cases v) (simp_all only: plain.simps flat.simps Stream_writeValue.simps flat_texts; simp add: Stream_writeArrayValue.simps by_name_def)+
  show "\<exists>b l P. (\<not> list_all flat us \<longrightarrow> b) \<and> (b \<longrightarrow> stream_good (s\<lparr>childValues := []\<rparr>)) \<and>
      (\<not> b \<longrightarrow> (\<forall>cv. stream_good (s\<lparr>childValues := cv\<rparr>))) \<and>
      Stream_isMultineArray fmt (map plain us) s =
        (if b then Ret (True, s\<lparr>childValues := []\<rparr>)
         else run_bind (Stream_write_children fmt 0 l False (map plain us) (s\<lparr>childValues := [], addChildValues := True\<rparr>))
           (\<lambda>(l, m, s). Ret (m \<or> P l, s\<lparr>addChildValues := False\<rparr>)))"
    if "stream_good s" for us s
    using that
    by (intro exI [of _ "of_nat (length us) * 3 \<ge> rightMargin \<or> \<not> list_all flat us"] exI [of _ "4 + (of_nat (length us) - 1) * 2"]
        exI [of _ "\<lambda>l. l \<ge> rightMargin"]) (simp add: Stream_isMultineArray.simps)
  show "\<exists>w2 w3. ws w2 \<and> ws w3 \<and> str '' : '' = w2 @ ch CHR '':'' # w3" by (rule spaced_colon)
  show "\<exists>t. valueToQuotedString k = ch CHR 0x22 # t @ [ch CHR 0x22] \<and> string_chars t k" if "0 \<notin> set k" for k
    using that by (rule quoted_name)
qed (auto cong: if_cong simp: Stream_writeArrayValue.simps single_line newline_space Stream_writeWithIndent_def append_text_def
    Stream_indent_def Stream_unindent_def ws_append intro: exI [of _ "[]"] ws_Nil)

text \<open>
  \<open>p\<close> is the precision.  A writer that keeps comments never collects child values, so \<open>childValues\<close> stays empty.
\<close>

definition built_good :: "nat \<Rightarrow> built_writer \<Rightarrow> bool" where
  "built_good p s \<longleftrightarrow> ws (indentString s) \<and> ws (indentation s) \<and> (commentStyle s = CommentAll \<longrightarrow> childValues s = []) \<and>
     (\<exists>w2 w3. ws w2 \<and> ws w3 \<and> colonSymbol s = w2 @ ch CHR '':'' # w3) \<and> nullSymbol s = str ''null'' \<and>
     endingLineFeedSymbol s = [] \<and> unat (precision s) = p"

abbreviation Built_start where "Built_start s \<equiv> (if \<not> indented s then Built_writeIndent s else s)\<lparr>indented := True\<rparr>"

abbreviation Built_gap where "Built_gap s \<equiv> if indentation s \<noteq> [] then str '' '' else []"

lemma Built_writeIndent_fields [simp]: "indentString (Built_writeIndent s) = indentString s" "childValues (Built_writeIndent s) = childValues s"
  "addChildValues (Built_writeIndent s) = addChildValues s" "indentation (Built_writeIndent s) = indentation s"
  "commentStyle (Built_writeIndent s) = commentStyle s" "colonSymbol (Built_writeIndent s) = colonSymbol s"
  "nullSymbol (Built_writeIndent s) = nullSymbol s"
  "endingLineFeedSymbol (Built_writeIndent s) = endingLineFeedSymbol s" "precision (Built_writeIndent s) = precision s"
  "document (Built_writeIndent s) = document s @ (if indentation s \<noteq> [] then 10 # indentString s else [])"
  by (simp_all add: Built_writeIndent_def append_text_def)

interpretation built: indenting_writer "fmt p" "Built_writeValue fmt" "Built_write_members fmt" "Built_write_elements fmt"
  "\<lambda>vs s. if commentStyle s = CommentAll then Ret (True, s) else Built_isMultineArray fmt vs s" "Built_write_children fmt"
  Built_writeWithIndent Built_start "\<lambda>s. s\<lparr>indented := False\<rparr>" "\<lambda>s. s" Built_indent Built_unindent colonSymbol Built_gap
  valueToQuotedStringN "\<lambda>_. True" "built_good p" stream_frame
  for fmt p
proof unfold_locales
  show "Built_writeValue fmt (plain v) s = Ret (pushValue (writeValue new_FastWriter (fmt p) v) s)" if "built_good p s" "flat v" for v s
    using that by (cases v) (simp_all only: plain.simps flat.simps Built_writeValue.simps flat_texts built_good_def;
      simp add: Built_writeArrayValue.simps by_name_def)+
  show "\<exists>b l P. (\<not> list_all flat us \<longrightarrow> b) \<and> (b \<longrightarrow> built_good p (s\<lparr>childValues := []\<rparr>)) \<and>
      (\<not> b \<longrightarrow> (\<forall>cv. built_good p (s\<lparr>childValues := cv\<rparr>))) \<and>
      (if commentStyle s = CommentAll then Ret (True, s) else Built_isMultineArray fmt (map plain us) s) =
        (if b then Ret (True, s\<lparr>childValues := []\<rparr>)
         else run_bind (Built_write_children fmt 0 l False (map plain us) (s\<lparr>childValues := [], addChildValues := True\<rparr>))
           (\<lambda>(l, m, s). Ret (m \<or> P l, s\<lparr>addChildValues := False\<rparr>)))"
    if "built_good p s" for us s
    using that
    by (intro exI [of _ "commentStyle s = CommentAll \<or> of_nat (length us) * 3 \<ge> rightMargin \<or> \<not> list_all flat us"]
        exI [of _ "4 + (of_nat (length us) - 1) * 2"] exI [of _ "\<lambda>l. l \<ge> rightMargin"])
      (auto simp: Built_isMultineArray.simps built_good_def)
  show "\<exists>w2 w3. ws w2 \<and> ws w3 \<and> colonSymbol s = w2 @ ch CHR '':'' # w3" if "built_good p s" for s
    using that by (simp add: built_good_def)
  show "\<exists>t. valueToQuotedStringN k = ch CHR 0x22 # t @ [ch CHR 0x22] \<and> string_chars t k" for k
    by (rule quoted_text)
qed (auto cong: if_cong simp: Built_writeArrayValue.simps Let_def single_line newline_space Built_writeWithIndent_def append_text_def
    Built_indent_def Built_unindent_def ws_append built_good_def intro: exI [of _ "[]"] ws_Nil)

section \<open>Reading what was written\<close>

definition reads_as :: "features \<Rightarrow> (u8 list \<Rightarrow> real option) \<Rightarrow> u8 list \<Rightarrow> json \<Rightarrow> bool" where
  "reads_as ft rd t v \<longleftrightarrow> (\<forall>v0. \<exists>r. Reader_parse ft rd t v0 = Parsed (True, v, r) \<and> rd_errors r = [])"

lemma reads_asI:
  assumes "json_text rd 1000 v t" "ws w" "post = [] \<or> post = [10]" "\<not> strictRoot ft"
  shows "reads_as ft rd (w @ t @ post) v"
  using reader_accepts [OF assms(1) order_refl assms(2), of post ft] assms(3,4)
  by (auto simp: reads_as_def number_end_def is_digit_def)

lemma styled_reads:
  assumes "double_laws rd fmt nrm" "json_typed v" "json_depth v \<le> 1000" "\<not> strictRoot ft" "all_names (\<lambda>k. 0 \<notin> set k) v"
  shows "\<exists>t s'. StyledWriter_write fmt (plain v) s = Ret (t, s') \<and> reads_as ft rd t (reread nrm v)"
proof -
  let ?s = "s\<lparr>document := [], addChildValues := False, indentString := []\<rparr>"
  obtain s' t w where w: "StyledWriter_writeValue fmt (plain v) ?s = Ret s'" "json_text rd 1000 (reread nrm v) t" "ws w" "document s' = w @ t"
    using styled.value_text [OF assms(1,3,2,5), of ?s] ws_Nil by (auto simp: styled.adds_def)
  then show ?thesis using reads_asI [OF w(2,3) _ assms(4), of "[10]"] by (auto simp: StyledWriter_write_def append_text_def)
qed

lemma stream_reads:
  assumes "double_laws rd fmt nrm" "json_typed v" "json_depth v \<le> 1000" "\<not> strictRoot ft" "all_names (\<lambda>k. 0 \<notin> set k) v" "ws (indentation s)"
  shows "\<exists>t s'. StyledStreamWriter_write fmt out (plain v) s = Ret (out @ t, s') \<and> reads_as ft rd t (reread nrm v)"
proof -
  let ?s = "s\<lparr>document := out, addChildValues := False, indentString := [], indented := True\<rparr>"
  obtain s' t w where w: "Stream_writeValue fmt (plain v) ?s = Ret s'" "json_text rd 1000 (reread nrm v) t" "ws w" "document s' = out @ w @ t"
    using styled_stream.value_text [OF assms(1,3,2,5), of ?s] ws_Nil assms(6) by (auto simp: styled_stream.adds_def)
  then show ?thesis using reads_asI [OF w(2,3) _ assms(4), of "[10]"] by (auto simp: StyledStreamWriter_write_def append_text_def)
qed

lemma built_reads:
  assumes "built_good p (s\<lparr>indentString := []\<rparr>)"
    and "double_laws rd (fmt p) nrm" "json_typed v" "json_depth v \<le> 1000" "\<not> strictRoot ft"
  shows "\<exists>t s'. Built_write fmt (plain v) sout s = Ret (sout @ t, s') \<and> reads_as ft rd t (reread nrm v)"
proof -
  let ?s = "s\<lparr>document := sout, addChildValues := False, indentString := [], indented := True\<rparr>"
  have n: "all_names (\<lambda>_. True) v" by (induction v) (auto simp: list_all_iff)
  have "built_good p ?s" using assms(1) by (simp add: built_good_def)
  then obtain s' t w where w: "Built_writeValue fmt (plain v) ?s = Ret s'" "json_text rd 1000 (reread nrm v) t" "ws w" "document s' = sout @ w @ t"
    "built_good p s'"
    using built.value_text [of rd fmt p nrm v 1000 ?s, OF assms(2,4,3) n] by (auto simp: built.adds_def)
  then have "endingLineFeedSymbol s' = []" by (simp add: built_good_def)
  then show ?thesis using w reads_asI [OF w(2,3) _ assms(5), of "[]"] by (auto simp: Built_write_def append_text_def)
qed

lemma builder_writer:
  assumes "newStreamWriter fmt settings = Some w" "nullSymbol w = str ''null''" "ws (indentation w)"
  shows "built_good (unat (precision w)) (w\<lparr>indentString := []\<rparr>)" "unat (precision w) \<le> 17" "document w = []"
proof -
  obtain ind cs eyc dnp usf pre where w: "w = new_BuiltStyledStreamWriter ind cs
      (if eyc then str '': '' else if ind = [] then str '':'' else str '' : '') (if dnp then [] else str ''null'') [] usf
      (if (pre :: u32) > 17 then 17 else pre)"
    using assms(1) unfolding newStreamWriter_def Let_def
    by (auto simp only: Option.bind_eq_Some_conv option.inject)
  have c: "\<exists>w2 w3. ws w2 \<and> ws w3 \<and> str '': '' = w2 @ ch CHR '':'' # w3" "\<exists>w2 w3. ws w2 \<and> ws w3 \<and> str '':'' = w2 @ ch CHR '':'' # w3"
    by (rule exI [of _ "[]"], rule exI [of _ "str '' ''"] exI [of _ "[]"], simp add: str_def ws_def json_space_def; fail)+
  show "built_good (unat (precision w)) (w\<lparr>indentString := []\<rparr>)"
    using assms(2,3) w c spaced_colon ws_Nil by (simp split: if_splits add: built_good_def new_BuiltStyledStreamWriter_def)
  show "unat (precision w) \<le> 17"
    using w by (simp add: new_BuiltStyledStreamWriter_def word_less_nat_alt)
  show "document w = []" using w by (simp add: new_BuiltStyledStreamWriter_def)
qed

lemma name_cut: "StyledWriter_write fmt (plain (ObjectValue [(k, x)])) s = StyledWriter_write fmt (plain (ObjectValue [(c_key k, x)])) s"
proof -
  have "valueToQuotedString k = valueToQuotedString (c_key k)"
    by (simp add: valueToQuotedString_def containsControlCharacter_def c_key_def)
  then have "StyledWriter_writeValue fmt (plain (ObjectValue [(k, x)])) s = StyledWriter_writeValue fmt (plain (ObjectValue [(c_key k, x)])) s" for s
    by (simp add: by_name_def)
  then show ?thesis by (simp add: StyledWriter_write_def del: plain.simps)
qed





end
