(* ===== verification/Spec2Isabelle.thy ===== *)
theory Spec2Isabelle
  imports Stp_Crypto_Proof Key_Service Event_Proof Atomic_Counter Md5_Proof Startup Threads Json_Path Writer_Proof
begin

text \<open>
  The security transfer platform: a server hands out symmetric keys over a small protocol, client and
  server keep them in System V shared memory, and a library encrypts messages of their processes with the
  keys found there.

  \<^bold>\<open>Parts and theories.\<close>  \<^verbatim>\<open>Prelude\<close> has the type of results (\<open>Ret\<close>, \<open>Fault\<close> for a write or read outside an
  object, \<open>Abort\<close> for an assertion or \<open>abort()\<close>), machine words and the lemmas the components share.

  \<^item> Encryption (\<^verbatim>\<open>stputil/security\<close>, \<^verbatim>\<open>stpcrypto\<close>): \<^verbatim>\<open>Aes_Tables\<close>, \<^verbatim>\<open>Aes_Core\<close> (\<^verbatim>\<open>aes_core.c\<close>), \<^verbatim>\<open>Aes_Sbox\<close>,
    \<^verbatim>\<open>Aes_Correct\<close>, \<^verbatim>\<open>Aes_Keys\<close> (the cipher of FIPS 197 and the tables as its columns, equivalence, round
    trip); \<^verbatim>\<open>Base64\<close>, \<^verbatim>\<open>Base64_Proof\<close>; \<^verbatim>\<open>Stp_Crypto\<close>, \<^verbatim>\<open>Stp_Crypto_Proof\<close> (\<open>EncryptPlain\<close>, \<open>DecryptCipher\<close>);
    \<^verbatim>\<open>Md5\<close>, \<^verbatim>\<open>Md5_Proof\<close> (against RFC 1321).
  \<^item> Key slots (\<^verbatim>\<open>stpcomm\<close>): \<^verbatim>\<open>Idx_Mgr\<close> (the pool of free indices), \<^verbatim>\<open>Shm\<close> (\<^verbatim>\<open>stputil/shm.cc\<close> over a memory of
    segments), \<^verbatim>\<open>Crypto_Detail\<close> (a group: key, segment and pool), \<^verbatim>\<open>Negotiate\<close> with \<^verbatim>\<open>Negotiate_Proof\<close> and
    \<^verbatim>\<open>Init_Proof\<close> (\<open>StpCryptoNegotiate\<close>).
  \<^item> Configuration (\<^verbatim>\<open>config_parser.cc\<close>, \<^verbatim>\<open>stputil/json\<close>): \<^verbatim>\<open>Json_Value\<close> (the conversions of the JSON library),
    \<^verbatim>\<open>Config_Parser\<close>, \<^verbatim>\<open>Json_Reader\<close> (the class \<open>Reader\<close> and \<open>JsonParser\<close>), \<^verbatim>\<open>Json_Grammar\<close> (RFC 8259 as inductive
    relations, and that the reader accepts every text of it), \<^verbatim>\<open>Reader_Proof\<close>, \<^verbatim>\<open>Json_Writer\<close> (the class \<open>FastWriter\<close>
    and the way from a value to a text and back).  The class \<open>Value\<close> with its \<open>std::map\<close>s: \<^verbatim>\<open>Std_Map\<close>, \<^verbatim>\<open>Value_Class\<close>
    (its operations), \<^verbatim>\<open>Value_Order\<close> (its comparisons are a linear order), \<^verbatim>\<open>Value_Proof\<close> (it stores what the reader
    makes; arrays as lists; conversions), \<^verbatim>\<open>Json_Path\<close> (the class \<open>Path\<close>).  The indenting writers and their
    builder: \<^verbatim>\<open>Styled_Writer\<close>, \<^verbatim>\<open>Stream_Writer\<close>, and \<^verbatim>\<open>Writer_Proof\<close> (a locale for what they share: their output is JSON).
  \<^item> Protocol (\<^verbatim>\<open>codec\<close>, \<^verbatim>\<open>stputil/connection.cc\<close>): \<^verbatim>\<open>Wire\<close> (what the protobuf library provides, and an instance
    of it), \<^verbatim>\<open>Rpc_Pb\<close>, \<^verbatim>\<open>Rpc_Pb_Proof\<close> (the eight messages), \<^verbatim>\<open>Codec\<close> (serialization and dispatch), \<^verbatim>\<open>Connection\<close>,
    \<^verbatim>\<open>Connection_Proof\<close> (framing over libevent's buffers).
  \<^item> Server and client: \<^verbatim>\<open>Stp_Token\<close>, \<^verbatim>\<open>Stp_Dao\<close> (the two SQL statements), \<^verbatim>\<open>Stp_Server\<close>, \<^verbatim>\<open>Stp_Client\<close>,
    \<^verbatim>\<open>Client_Proof\<close>; \<^verbatim>\<open>Exchange\<close> composes them: what each side does with the packet of the other;
    \<^verbatim>\<open>Key_Service\<close> states what the server and its clients promise together, a table of slots and the clients'
    copies, and shows by \<^verbatim>\<open>Simulation\<close> (a locale) that any sequence of requests or rounds implements it.
  \<^item> The event loop (\<^verbatim>\<open>event_notifier.cc\<close>, \<^verbatim>\<open>tcp_event_server.cc\<close>, \<^verbatim>\<open>tcp_event_client.cc\<close>): \<^verbatim>\<open>Event_Notifier\<close>,
    \<^verbatim>\<open>Event_Proof\<close> (the callbacks as a step relation over a heap of connections and bufferevents).
  \<^item> Programs (\<^verbatim>\<open>main.cc\<close>): \<^verbatim>\<open>Startup\<close>, from the bytes of the configuration file to the event loop.
  \<^item> Atomic counters (\<^verbatim>\<open>stputil/atomic.h\<close>): \<^verbatim>\<open>Atomic_Counter\<close>, threads interleaved by a schedule; threads and mutexes
    (\<^verbatim>\<open>thread.cc\<close>, \<^verbatim>\<open>mutex.cc\<close>): \<^verbatim>\<open>Threads\<close>, with \<^verbatim>\<open>Decimal\<close>.

  \<^bold>\<open>State.\<close>  A class is a record of its members and an operation a function that returns it updated, inside
  \<open>run\<close> where the code can fault or abort.  Singletons are records that are passed on: \<open>server\<close>, \<open>client\<close>,
  \<open>negotiate\<close>, the configuration.  Shared memory is a map from segments to bytes, a pointer \<open>Null\<close>, \<open>(void *) -1\<close>
  or an offset into a segment, so that two groups attached to one segment alias.  Logging is not modelled.

  \<^bold>\<open>Parameters.\<close>  What lies outside \<^verbatim>\<open>src/\<close> is an argument: the protobuf primitives (\<open>wire_api\<close>), libevent's buffers
  (\<open>evbuffer_api\<close>), shared memory calls (\<open>shm_api\<close>), the MySQL wrapper (\<open>mysql_api\<close>), \<open>random\<close>, \<open>ftok\<close> and the
  clock.  Their documented behaviour is a named hypothesis (\<open>wire_laws\<close>, \<open>evbuffer_laws\<close>), and each is
  instantiated by a concrete function for the witnesses.

  \<^bold>\<open>What is shown.\<close>  Encryption is a round trip over the standard cipher, with the exact length bound at which
  it overflows; the MD5 code is RFC 1321; the pool never hands out an index twice; negotiation changes exactly one slot, and every branch
  on which it fails, aborts or writes past the segment is characterised; messages survive serialization and
  framing under any fragmentation; the JSON reader ends on every document
  and accepts the texts of the grammar with their values; the server's loop keeps connections and bufferevents paired.  This theory
  states the properties of the composed system.

  \<^bold>\<open>Loops.\<close>  All loops are structural or have a measure, except \<open>shmdt\<close>, which calls itself and is a partial
  function that never yields a value, and the parser of paths, a partial function that ends on paths without a NUL.  The mutually recursive functions of the JSON reader take fuel:
  \<open>Reader_parse\<close> gives twice the document's length plus one, and \<open>fuel_suffices\<close> shows that it never runs out.

  \<^bold>\<open>Not modelled.\<close>  The second reader of the vendored JSON library, its iterators, and
  the comments and offsets the first reader attaches to values (a double is a real, without infinities and NaN); protobuf's
  reflection and descriptors; the branches for Windows; the tests.
\<close>

section \<open>Negotiation from end to end\<close>

text \<open>
  C1. One negotiation from end to end: a client that is connected and has its segment attached sends a
  request, a server with a usable group and the client's guid in its database answers it, and the
  client handles the answer.  None of the three steps fails; afterwards the client's slot and the
  server's slot 0 agree on group, index, the key of that second, \<open>use_crypto\<close> and the expiry time.
\<close>

theorem negotiated_keys_agree:
  assumes "evbuffer_laws (cs_evbuffer cs) cbytes" "adds (cs_evbuffer cs)" "evbuffer_laws (sv_evbuffer sv) sbytes" "adds (sv_evbuffer sv)"
    and "wire_laws api" "cs_wire cs = api" "sv_wire sv = api"
    and "c_conn s = Some cc" "idle cbytes cc" "cbytes (ev_write_buf cc) = []" "length (c_buf s) = sizeof_buf"
    and "idle sbytes (s_conn v)" "sbytes (ev_write_buf (s_conn v)) = []" "length (s_send_buf v) = sizeof_send_buf"
    and "client_ready s cb coff cseg" "server_ready sv v cg sb soff sseg"
    and "CheckStpGuidValid (sv_mysql sv) (word_of_int (clnt_stp_guid (cs_config cs))) (s_db v) = (True, db)"
    and "in_s64 (t1 + token_expires (sv_config sv))"
  shows "\<exists>s1 c1 v1 s2 cseg' sseg'.
      CryptoNegotiateCallback cs s = Ret s1 \<and> c_conn s1 = Some c1 \<and>
      server_ProcessReadEvent sv (t1, t2)
        (v\<lparr>s_conn := arrives (sv_evbuffer sv) (cbytes (ev_write_buf c1)) (s_conn v)\<rparr>) = Ret v1 \<and>
      client_ProcessReadEvent cs
        (s1\<lparr>c_conn := Some (arrives (cs_evbuffer cs) (sbytes (ev_write_buf (s_conn v1))) c1)\<rparr>) = Ret s2 \<and>
      w_mem (s_world v1) sb = Some sseg' \<and> w_mem (c_world s2) cb = Some cseg' \<and>
      (let theirs = read_item (slot soff 0 sseg'); ours = read_item (slot coff 0 cseg') in
         ci_group ours = ci_group theirs \<and> ci_idx ours = ci_idx theirs \<and> ci_key ours = ci_key theirs \<and>
         ci_expires ours = ci_expires theirs \<and> ci_use_crypto ours \<and> ci_use_crypto theirs \<and>
         takeWhile (\<lambda>c. c \<noteq> 0) (ci_key ours) = random_key (env_random (sv_env sv)) t2 \<and>
         ci_expires ours = t1 + token_expires (sv_config sv))"
proof -
  let ?guid = "word_of_int (clnt_stp_guid (cs_config cs)) :: u64"
  let ?e = "t1 + token_expires (sv_config sv)" let ?k = "random_key (env_random (sv_env sv)) t2"
  let ?req = "MsgC2SNegotiate \<lparr>cn_stp_guid = Some ?guid, cn_token = None, cn_unknown = []\<rparr>"
  note cw = assms(5) [folded assms(6)] note sw = assms(5) [folded assms(7)]
  have len: "length (message_bytes (cs_wire cs) (client_request cs)) \<le> 1900"
    using client_request_length [OF cw, of cs] by simp
  obtain buf c1 where s1: "client_send cs (client_request cs) s = Ret (s\<lparr>c_buf := buf, c_conn := Some c1\<rparr>)"
    "cbytes (ev_write_buf c1) = cbytes (ev_write_buf cc) @ packet (cs_wire cs) (client_request cs)" "idle cbytes c1 = idle cbytes cc"
    by (rule client_sends [OF assms(1,2) cw assms(8,11) len]) auto
  let ?s1 = "s\<lparr>c_buf := buf, c_conn := Some c1\<rparr>"
  have sent: "cbytes (ev_write_buf c1) = packet (sv_wire sv) ?req"
    using s1(2) assms(6,7,10) by (simp add: client_request_message)
  obtain v1 sseg' where v1: "server_ProcessReadEvent sv (t1, t2) (v\<lparr>s_conn := arrives (sv_evbuffer sv) (packet (sv_wire sv) ?req) (s_conn v)\<rparr>) = Ret v1"
    "sbytes (ev_write_buf (s_conn v1)) = packet (sv_wire sv) (MsgS2CNegotiate (granted ?guid ?e ?k))"
    "w_mem (s_world v1) = (w_mem (s_world v))(sb \<mapsto> sseg')"
    "read_item (slot soff 0 sseg') = \<lparr>ci_group = 0, ci_idx = 0, ci_key = ?k @ [0, 0, 0, 0],
       ci_use_crypto = True, ci_expires = ?e, ci_zero = ci_zero (read_item (slot soff 0 sseg))\<rparr>"
    by (rule server_answers [OF assms(3,4) sw assms(12-14,16-18)]) auto
  have rdy: "client_ready ?s1 cb coff cseg" using assms(15) by (simp add: client_ready_def)
  have nul: "0 \<notin> set ?k" using random_key_chars key_tab_chars by blast
  have conn: "c_conn ?s1 = Some c1" "idle cbytes c1" using s1(3) assms(9) by simp_all
  obtain s2 cseg' where s2: "client_ProcessReadEvent cs (?s1\<lparr>c_conn := Some (arrives (cs_evbuffer cs)
      (packet (cs_wire cs) (MsgS2CNegotiate (granted ?guid ?e ?k))) c1)\<rparr>) = Ret s2"
    "w_mem (c_world s2) = (w_mem (c_world ?s1))(cb \<mapsto> cseg')"
    "read_item (slot coff 0 cseg') = \<lparr>ci_group = 0, ci_idx = 0, ci_key = ?k @ [0, 0, 0, 0],
       ci_use_crypto = True, ci_expires = ?e, ci_zero = ci_zero (read_item (slot coff 0 cseg))\<rparr>"
    by (rule client_accepts [OF assms(1) cw conn rdy assms(18) length_random_key nul]) auto
  have cb: "CryptoNegotiateCallback cs s = Ret ?s1"
    using s1(1) by (simp add: CryptoNegotiateCallback_def client_request_def)
  have key: "takeWhile (\<lambda>c. c \<noteq> 0) (?k @ [0, 0, 0, 0]) = ?k" using takeWhile_key [of _ _ "[]"] four_nul by simp
  show ?thesis
    by (rule exI [of _ ?s1], rule exI [of _ c1], rule exI [of _ v1], rule exI [of _ s2], rule exI [of _ cseg'], rule exI [of _ sseg'])
      (use cb sent v1 s2 key assms(6,7) in \<open>simp add: Let_def\<close>)
qed


theorem negotiated_keys_agree_witness:
  "\<exists>s1 c1 v1 s2.
      CryptoNegotiateCallback demo_client_services demo_client = Ret s1 \<and> c_conn s1 = Some c1 \<and>
      server_ProcessReadEvent (demo_services True) (1000, 1000)
        (demo_server\<lparr>s_conn := arrives list_evbuffer (ev_write_buf c1) list_connection\<rparr>) = Ret v1 \<and>
      client_ProcessReadEvent demo_client_services
        (s1\<lparr>c_conn := Some (arrives list_evbuffer (ev_write_buf (s_conn v1)) c1)\<rparr>) = Ret s2"
  using negotiated_keys_agree [of demo_client_services "\<lambda>b. b" "demo_services True" "\<lambda>b. b" proto_wire demo_client list_connection
      demo_server 5 0 "replicate 64 0" "demo_group []" 5 0 "replicate 6400 0" "[1]" 1000 1000]
    list_evbuffer_laws list_evbuffer_adds proto_wire_laws list_connection_idle demo_client_ready demo_server_ready
  unfolding demo_fields by (simp add: demo_fields) blast

text \<open>
  A rejected client stops encrypting: when the guid check fails, the server answers with
  \<open>SR_InvalidGuid\<close> and no token and leaves its groups and segments as they were; the client that
  handles the answer zeroes its key, clears \<open>use_crypto\<close> and sets the expiry time to -1.
\<close>

theorem rejected_client_disabled:
  assumes "evbuffer_laws (cs_evbuffer cs) cbytes" "evbuffer_laws (sv_evbuffer sv) sbytes" "adds (sv_evbuffer sv)"
    and "wire_laws api" "cs_wire cs = api" "sv_wire sv = api"
    and "c_conn s = Some cc" "idle cbytes cc"
    and "idle sbytes (s_conn v)" "sbytes (ev_write_buf (s_conn v)) = []" "length (s_send_buf v) = sizeof_send_buf"
    and "client_ready s cb coff cseg" "CheckStpGuidValid (sv_mysql sv) guid (s_db v) = (False, db)"
  shows "\<exists>v1 s2 cseg'.
      server_ProcessReadEvent sv now (v\<lparr>s_conn := arrives (sv_evbuffer sv) (key_request api guid) (s_conn v)\<rparr>) = Ret v1 \<and>
      s_nego v1 = s_nego v \<and> s_world v1 = s_world v \<and>
      client_ProcessReadEvent cs
        (s\<lparr>c_conn := Some (arrives (cs_evbuffer cs) (sbytes (ev_write_buf (s_conn v1))) cc)\<rparr>) = Ret s2 \<and>
      w_mem (c_world s2) cb = Some cseg' \<and>
      read_item (slot coff 0 cseg') = \<lparr>ci_group = 0, ci_idx = 0, ci_key = replicate 36 0,
        ci_use_crypto = False, ci_expires = -1, ci_zero = ci_zero (read_item (slot coff 0 cseg))\<rparr>"
proof -
  note cw = assms(4) [folded assms(5)] note sw = assms(4) [folded assms(6)]
  obtain v1 where v1: "server_ProcessReadEvent sv now (v\<lparr>s_conn := arrives (sv_evbuffer sv) (key_request api guid) (s_conn v)\<rparr>) = Ret v1"
    "sbytes (ev_write_buf (s_conn v1)) = packet (sv_wire sv) (MsgS2CNegotiate rejected)"
    "s_world v1 = s_world v" "s_nego v1 = s_nego v"
    unfolding key_request_def assms(6) [symmetric]
    by (rule server_rejects [OF assms(2,3) sw assms(9-11,13)]) blast
  obtain s2 cseg' where "client_ProcessReadEvent cs (s\<lparr>c_conn := Some (arrives (cs_evbuffer cs) (packet (cs_wire cs) (MsgS2CNegotiate rejected)) cc)\<rparr>) = Ret s2"
    "w_mem (c_world s2) = (w_mem (c_world s))(cb \<mapsto> cseg')"
    "read_item (slot coff 0 cseg') = \<lparr>ci_group = 0, ci_idx = 0, ci_key = replicate 36 0,
       ci_use_crypto = False, ci_expires = -1, ci_zero = ci_zero (read_item (slot coff 0 cseg))\<rparr>"
    by (rule client_disabled [OF assms(1) cw assms(7,8,12)]) blast
  then show ?thesis using v1 assms(5,6) by fastforce
qed

theorem rejected_client_disabled_witness:
  "\<exists>v1 s2. server_ProcessReadEvent (demo_services False) (1000, 1000)
        (demo_server\<lparr>s_conn := arrives list_evbuffer (key_request proto_wire 7) list_connection\<rparr>) = Ret v1 \<and>
      s_nego v1 = demo_negotiate [] \<and>
      client_ProcessReadEvent demo_client_services
        (demo_client\<lparr>c_conn := Some (arrives list_evbuffer (ev_write_buf (s_conn v1)) list_connection)\<rparr>) = Ret s2"
  using rejected_client_disabled [of demo_client_services "\<lambda>b. b" "demo_services False" "\<lambda>b. b" proto_wire demo_client list_connection
      "demo_server" 5 0 "replicate 64 0" 7 "[1]" "(1000, 1000)"]
    list_evbuffer_laws list_evbuffer_adds proto_wire_laws list_connection_idle demo_client_ready
  by (auto simp: demo_fields) (auto simp: demo_server_def)

end
